(* ===== verification/Prelude.thy ===== *)
theory Prelude
  imports Main "HOL-Library.Word"
begin

text \<open>
  Shared vocabulary of the development: the machine integers of the hypervisor's Rust sources, the
  outcome of a fallible call (a value, an error value, or a fault: a panic or undefined behaviour),
  operations that thread a mutable state through a fallible call, checked and overflow-checked
  arithmetic, little-endian byte codecs, and the list operations behind slices.

  The lemmas of this theory are the ones that several components use.  \<open>outcome_simps\<close> collects
  the inversion rules of the combinators, so that \<open>simp add: outcome_simps\<close> turns a claim about a
  sequence of fallible calls into claims about the single calls.
\<close>

unbundle bit_operations_syntax

named_theorems outcome_simps
named_theorems byte_simps
named_theorems wp_simps

section \<open>Machine integers\<close>

type_synonym u8 = "8 word"
type_synonym u16 = "16 word"
type_synonym u32 = "32 word"
type_synonym u64 = "64 word"

text \<open>
  \<open>usize\<close> values are lengths and offsets of host buffers; they are natural numbers here, and the
  conversions of the sources between \<open>u64\<close> and \<open>usize\<close> test the width of the x86-64 host.
\<close>

type_synonym usize = nat

definition USIZE_BITS :: nat where
  "USIZE_BITS = 64"

definition u64_try_from_usize :: "usize \<Rightarrow> u64 option" where
  "u64_try_from_usize n = (if n < 2 ^ 64 then Some (of_nat n) else None)"

definition usize_try_from_u64 :: "u64 \<Rightarrow> usize option" where
  "usize_try_from_u64 x = (if unat x < 2 ^ USIZE_BITS then Some (unat x) else None)"

text \<open>The checked operations on \<open>usize\<close> values.\<close>

definition usize_checked :: "nat \<Rightarrow> usize option" where
  "usize_checked n = (if n < 2 ^ USIZE_BITS then Some n else None)"

section \<open>Outcomes of fallible calls\<close>

text \<open>
  A call of the sources returns a value (\<open>Ok\<close>), returns an error value (\<open>Err\<close>), or does not
  return: it panics, or (inside an \<open>unsafe\<close> block) its behaviour is undefined.
\<close>

datatype fault =
    Arith_Overflow
  | Div_By_Zero
  | Index_Out_Of_Range
  | Expect_Failed
  | Assertion_Failed
  | Undefined_Behaviour

datatype ('a, 'e) outcome = Ok 'a | Err 'e | Fault fault

fun and_then :: "('a, 'e) outcome \<Rightarrow> ('a \<Rightarrow> ('b, 'e) outcome) \<Rightarrow> ('b, 'e) outcome" where
  "and_then (Ok x) f = f x"
| "and_then (Err e) f = Err e"
| "and_then (Fault p) f = Fault p"

fun map_ok :: "('a \<Rightarrow> 'b) \<Rightarrow> ('a, 'e) outcome \<Rightarrow> ('b, 'e) outcome" where
  "map_ok f (Ok x) = Ok (f x)"
| "map_ok f (Err e) = Err e"
| "map_ok f (Fault p) = Fault p"

fun map_err :: "('e \<Rightarrow> 'f) \<Rightarrow> ('a, 'e) outcome \<Rightarrow> ('a, 'f) outcome" where
  "map_err f (Ok x) = Ok x"
| "map_err f (Err e) = Err (f e)"
| "map_err f (Fault p) = Fault p"

fun ok_or :: "'a option \<Rightarrow> 'e \<Rightarrow> ('a, 'e) outcome" where
  "ok_or (Some x) e = Ok x"
| "ok_or None e = Err e"

fun expect :: "'a option \<Rightarrow> ('a, 'e) outcome" where
  "expect (Some x) = Ok x"
| "expect None = Fault Expect_Failed"

fun is_fault :: "('a, 'e) outcome \<Rightarrow> bool" where
  "is_fault (Fault p) = True"
| "is_fault (Ok x) = False"
| "is_fault (Err e) = False"

text \<open>\<open>debug_assert!\<close> panics when its condition does not hold.\<close>

definition debug_assert :: "bool \<Rightarrow> (unit, 'e) outcome" where
  "debug_assert c = (if c then Ok () else Fault Assertion_Failed)"

text \<open>
  The weakest precondition of a call: it does not fault, and a value it returns satisfies \<open>P\<close>.
\<close>

fun wp :: "('a, 'e) outcome \<Rightarrow> ('a \<Rightarrow> bool) \<Rightarrow> bool" where
  "wp (Ok x) P = P x"
| "wp (Err e) P = True"
| "wp (Fault p) P = False"

text \<open>
  A method that takes \<open>&mut self\<close> and returns a \<open>Result\<close>: the state after the call is part of the
  result on every path, since an error may be returned after the state was changed.
\<close>

type_synonym ('s, 'a, 'e) op = "'s \<Rightarrow> ('a, 'e) outcome \<times> 's"

definition op_then :: "('s, 'a, 'e) op \<Rightarrow> ('a \<Rightarrow> ('s, 'b, 'e) op) \<Rightarrow> ('s, 'b, 'e) op" where
  "op_then m k s =
     (case m s of
        (Ok x, s') \<Rightarrow> k x s'
      | (Err e, s') \<Rightarrow> (Err e, s')
      | (Fault p, s') \<Rightarrow> (Fault p, s'))"

definition op_return :: "'a \<Rightarrow> ('s, 'a, 'e) op" where
  "op_return x s = (Ok x, s)"

text \<open>A call that only reads: its outcome, with the state unchanged.\<close>

definition op_lift :: "('a, 'e) outcome \<Rightarrow> ('s, 'a, 'e) op" where
  "op_lift r s = (r, s)"

definition op_map_err :: "('e \<Rightarrow> 'f) \<Rightarrow> ('s, 'a, 'e) op \<Rightarrow> ('s, 'a, 'f) op" where
  "op_map_err f m s = (case m s of (r, s') \<Rightarrow> (map_err f r, s'))"

text \<open>An outcome that carries the new state in \<open>Ok\<close>; the other outcomes leave the state as it was.\<close>

definition commit :: "'s \<Rightarrow> ('a \<times> 's, 'e) outcome \<Rightarrow> ('a, 'e) outcome \<times> 's" where
  "commit s r = (case r of Ok (x, s') \<Rightarrow> (Ok x, s') | Err e \<Rightarrow> (Err e, s) | Fault p \<Rightarrow> (Fault p, s))"

text \<open>An operation that never faults and keeps a predicate of the state, whatever its outcome.\<close>

definition op_safe :: "('s \<Rightarrow> bool) \<Rightarrow> ('s, 'a, 'e) op \<Rightarrow> bool" where
  "op_safe I m \<longleftrightarrow> (\<forall>s r s'. I s \<longrightarrow> m s = (r, s') \<longrightarrow> I s' \<and> \<not> is_fault r)"

section \<open>Arithmetic of the sources\<close>

definition checked_add :: "'a::len word \<Rightarrow> 'a word \<Rightarrow> 'a word option" where
  "checked_add a b = (if unat a + unat b < 2 ^ LENGTH('a) then Some (a + b) else None)"

definition checked_sub :: "'a::len word \<Rightarrow> 'a word \<Rightarrow> 'a word option" where
  "checked_sub a b = (if b \<le> a then Some (a - b) else None)"

definition checked_mul :: "'a::len word \<Rightarrow> 'a word \<Rightarrow> 'a word option" where
  "checked_mul a b = (if unat a * unat b < 2 ^ LENGTH('a) then Some (a * b) else None)"

text \<open>The plain operators \<open>+\<close>, \<open>-\<close>, \<open>*\<close> and \<open>%\<close> panic on overflow and on a zero divisor.\<close>

definition add_ov :: "'a::len word \<Rightarrow> 'a word \<Rightarrow> ('a word, 'e) outcome" where
  "add_ov a b = (case checked_add a b of Some c \<Rightarrow> Ok c | None \<Rightarrow> Fault Arith_Overflow)"

definition sub_ov :: "'a::len word \<Rightarrow> 'a word \<Rightarrow> ('a word, 'e) outcome" where
  "sub_ov a b = (case checked_sub a b of Some c \<Rightarrow> Ok c | None \<Rightarrow> Fault Arith_Overflow)"

definition mul_ov :: "'a::len word \<Rightarrow> 'a word \<Rightarrow> ('a word, 'e) outcome" where
  "mul_ov a b = (case checked_mul a b of Some c \<Rightarrow> Ok c | None \<Rightarrow> Fault Arith_Overflow)"

definition rem_ov :: "'a::len word \<Rightarrow> 'a word \<Rightarrow> ('a word, 'e) outcome" where
  "rem_ov a b = (if b = 0 then Fault Div_By_Zero else Ok (a mod b))"

definition is_power_of_two :: "'a::len word \<Rightarrow> bool" where
  "is_power_of_two w \<longleftrightarrow> length (filter (bit w) [0..<LENGTH('a)]) = 1"

section \<open>Little-endian bytes\<close>

fun nat_to_le :: "nat \<Rightarrow> nat \<Rightarrow> u8 list" where
  "nat_to_le 0 x = []"
| "nat_to_le (Suc n) x = of_nat (x mod 256) # nat_to_le n (x div 256)"

fun nat_from_le :: "u8 list \<Rightarrow> nat" where
  "nat_from_le [] = 0"
| "nat_from_le (b # bs) = unat b + 256 * nat_from_le bs"

definition to_le_bytes :: "'a::len word \<Rightarrow> u8 list" where
  "to_le_bytes w = nat_to_le (LENGTH('a) div 8) (unat w)"

definition from_le_bytes :: "u8 list \<Rightarrow> 'a::len word" where
  "from_le_bytes bs = of_nat (nat_from_le bs)"

section \<open>Slices\<close>

text \<open>\<open>subslice xs a b\<close> is \<open>&xs[a..b]\<close> for a range inside \<open>xs\<close>; \<open>index_range\<close> is the run-time test of it.\<close>

definition subslice :: "'a list \<Rightarrow> nat \<Rightarrow> nat \<Rightarrow> 'a list" where
  "subslice xs a b = take (b - a) (drop a xs)"

definition index_range :: "'a list \<Rightarrow> nat \<Rightarrow> nat \<Rightarrow> ('a list, 'e) outcome" where
  "index_range xs a b =
     (if a \<le> b \<and> b \<le> length xs then Ok (subslice xs a b) else Fault Index_Out_Of_Range)"

text \<open>\<open>splice xs a ys\<close> is \<open>xs\<close> after \<open>xs[a..a + ys.len()].copy_from_slice(ys)\<close>.\<close>

definition splice :: "'a list \<Rightarrow> nat \<Rightarrow> 'a list \<Rightarrow> 'a list" where
  "splice xs a ys = take a xs @ ys @ drop (a + length ys) xs"

text \<open>\<open>position\<close> is the iterator search used on device vectors.\<close>

fun position :: "('a \<Rightarrow> bool) \<Rightarrow> 'a list \<Rightarrow> nat option" where
  "position p [] = None"
| "position p (x # xs) = (if p x then Some 0 else map_option Suc (position p xs))"

section \<open>Outcome combinators: inversion\<close>

lemma and_then_Ok [outcome_simps]:
  "and_then r f = Ok y \<longleftrightarrow> (\<exists>x. r = Ok x \<and> f x = Ok y)"
  by (cases r) auto

lemma and_then_Err [outcome_simps]:
  "and_then r f = Err e \<longleftrightarrow> r = Err e \<or> (\<exists>x. r = Ok x \<and> f x = Err e)"
  by (cases r) auto

lemma and_then_Fault [outcome_simps]:
  "and_then r f = Fault p \<longleftrightarrow> r = Fault p \<or> (\<exists>x. r = Ok x \<and> f x = Fault p)"
  by (cases r) auto

lemma map_ok_Ok [outcome_simps]: "map_ok f r = Ok y \<longleftrightarrow> (\<exists>x. r = Ok x \<and> y = f x)"
  by (cases r) auto

lemma map_ok_Err [outcome_simps]: "map_ok f r = Err e \<longleftrightarrow> r = Err e"
  by (cases r) auto

lemma map_ok_Fault [outcome_simps]: "map_ok f r = Fault p \<longleftrightarrow> r = Fault p"
  by (cases r) auto

lemma map_err_Ok [outcome_simps]: "map_err f r = Ok x \<longleftrightarrow> r = Ok x"
  by (cases r) auto

lemma map_err_Err [outcome_simps]: "map_err f r = Err e \<longleftrightarrow> (\<exists>d. r = Err d \<and> e = f d)"
  by (cases r) auto

lemma map_err_Fault [outcome_simps]: "map_err f r = Fault p \<longleftrightarrow> r = Fault p"
  by (cases r) auto

lemma ok_or_Ok [outcome_simps]: "ok_or x e = Ok y \<longleftrightarrow> x = Some y"
  by (cases x) auto

lemma ok_or_Err [outcome_simps]: "ok_or x e = Err d \<longleftrightarrow> x = None \<and> d = e"
  by (cases x) auto

lemma ok_or_Fault [outcome_simps]: "ok_or x e \<noteq> Fault p"
  by (cases x) auto

lemma expect_Ok [outcome_simps]: "expect x = Ok y \<longleftrightarrow> x = Some y"
  by (cases x) auto

lemma expect_Err [outcome_simps]: "expect x \<noteq> Err e"
  by (cases x) auto

lemma expect_Fault [outcome_simps]: "expect x = Fault p \<longleftrightarrow> x = None \<and> p = Expect_Failed"
  by (cases x) auto

lemma and_then_map_ok: "and_then (map_ok f r) k = and_then r (\<lambda>x. k (f x))"
  by (cases r) auto

lemma if_Err_Ok: "(if c then Err e else r) = Ok y \<longleftrightarrow> \<not> c \<and> r = Ok y"
  by simp

lemma is_fault_iff: "is_fault r \<longleftrightarrow> (\<exists>p. r = Fault p)"
  by (cases r) auto

lemma is_fault_and_then [simp]:
  "is_fault (and_then r f) \<longleftrightarrow> is_fault r \<or> (\<exists>x. r = Ok x \<and> is_fault (f x))"
  by (cases r) auto

lemma is_fault_map [simp]:
  "is_fault (map_ok f r) = is_fault r" "is_fault (map_err g r) = is_fault r"
  by (cases r; simp)+

lemma is_fault_ok_or [simp]: "\<not> is_fault (ok_or x e)"
  by (cases x) auto

lemma debug_assert_True [simp]: "debug_assert True = Ok ()"
  by (simp add: debug_assert_def)

lemma is_fault_debug_assert [simp]: "is_fault (debug_assert c) \<longleftrightarrow> \<not> c"
  by (simp add: debug_assert_def)

lemma debug_assert_Ok [outcome_simps]: "debug_assert c = Ok u \<longleftrightarrow> c"
  by (simp add: debug_assert_def)

lemma debug_assert_Err [outcome_simps]: "debug_assert c \<noteq> Err e"
  by (simp add: debug_assert_def)

lemma is_fault_expect [simp]: "is_fault (expect x) \<longleftrightarrow> x = None"
  by (cases x) auto

lemma commit_simps [simp]:
  "commit s (Ok (x, s')) = (Ok x, s')"
  "commit s (Err e) = (Err e, s)"
  "commit s (Fault p) = (Fault p, s)"
  by (simp_all add: commit_def)

lemma commit_Ok [outcome_simps]: "commit s r = (Ok x, s') \<longleftrightarrow> r = Ok (x, s')"
  by (cases r) (auto simp: commit_def)

lemma commit_Err [outcome_simps]: "commit s r = (Err e, s') \<longleftrightarrow> r = Err e \<and> s' = s"
  by (cases r) (auto simp: commit_def)

lemma commit_Fault [outcome_simps]: "commit s r = (Fault p, s') \<longleftrightarrow> r = Fault p \<and> s' = s"
  by (cases r) (auto simp: commit_def)

lemma is_fault_commit [simp]: "is_fault (fst (commit s r)) = is_fault r"
  by (cases r) (auto simp: commit_def)

lemma op_then_Ok [outcome_simps]:
  "op_then m k s = (Ok y, t) \<longleftrightarrow> (\<exists>x u. m s = (Ok x, u) \<and> k x u = (Ok y, t))"
  by (auto simp: op_then_def split: prod.splits outcome.splits)

lemma op_then_Err [outcome_simps]:
  "op_then m k s = (Err e, t) \<longleftrightarrow>
     m s = (Err e, t) \<or> (\<exists>x u. m s = (Ok x, u) \<and> k x u = (Err e, t))"
  by (auto simp: op_then_def split: prod.splits outcome.splits)

lemma op_then_Fault [outcome_simps]:
  "op_then m k s = (Fault p, t) \<longleftrightarrow>
     m s = (Fault p, t) \<or> (\<exists>x u. m s = (Ok x, u) \<and> k x u = (Fault p, t))"
  by (auto simp: op_then_def split: prod.splits outcome.splits)

lemma op_map_err_Ok [outcome_simps]: "op_map_err f m s = (Ok x, t) \<longleftrightarrow> m s = (Ok x, t)"
  by (auto simp: op_map_err_def outcome_simps split: prod.splits)

lemma op_map_err_Err [outcome_simps]:
  "op_map_err f m s = (Err e, t) \<longleftrightarrow> (\<exists>d. m s = (Err d, t) \<and> e = f d)"
  by (auto simp: op_map_err_def outcome_simps split: prod.splits)

lemma op_map_err_Fault [outcome_simps]: "op_map_err f m s = (Fault p, t) \<longleftrightarrow> m s = (Fault p, t)"
  by (auto simp: op_map_err_def outcome_simps split: prod.splits)

lemma op_lift_eq [outcome_simps]: "op_lift r s = (q, t) \<longleftrightarrow> q = r \<and> t = s"
  by (auto simp: op_lift_def)

lemma op_then_lift_Ok [simp]: "op_then (op_lift (Ok x)) k = k x"
  by (simp add: op_then_def op_lift_def fun_eq_iff)

lemma op_then_return [simp]: "op_then (op_return x) k = k x"
  by (simp add: op_then_def op_return_def fun_eq_iff)

lemma op_then_assoc: "op_then (op_then m f) g = op_then m (\<lambda>x. op_then (f x) g)"
  by (auto simp: op_then_def fun_eq_iff split: prod.splits outcome.splits)

lemma op_return_eq [outcome_simps]: "op_return x s = (q, t) \<longleftrightarrow> q = Ok x \<and> t = s"
  by (auto simp: op_return_def)

lemma op_then_run:
  "m s = (Ok x, u) \<Longrightarrow> op_then m k s = k x u"
  "m s = (Err e, u) \<Longrightarrow> op_then m k s = (Err e, u)"
  by (simp_all add: op_then_def)

lemma op_safeD: "op_safe I m \<Longrightarrow> I s \<Longrightarrow> m s = (r, s') \<Longrightarrow> I s' \<and> \<not> is_fault r"
  by (simp add: op_safe_def)

lemma op_safe_then:
  assumes m: "op_safe I m" and k: "\<And>x. op_safe I (k x)"
  shows "op_safe I (op_then m k)"
  unfolding op_safe_def
proof (intro allI impI)
  fix s r t assume s: "I s" and run: "op_then m k s = (r, t)"
  obtain q u where q: "m s = (q, u)" by (cases "m s")
  with op_safeD [OF m s q] run op_safeD [OF k, of u] show "I t \<and> \<not> is_fault r"
    by (cases q) (auto simp: op_then_def)
qed

lemma op_safe_return [simp]: "op_safe I (op_return x)"
  by (simp add: op_safe_def op_return_def)

lemma op_safe_lift: "\<not> is_fault r \<Longrightarrow> op_safe I (op_lift r)"
  by (simp add: op_safe_def op_lift_def)

lemma op_safe_map_err: "op_safe I m \<Longrightarrow> op_safe I (op_map_err f m)"
  by (auto simp: op_safe_def op_map_err_def split: prod.splits)

lemma op_safe_lift_then:
  "wp r (\<lambda>x. op_safe I (k x)) \<Longrightarrow> op_safe I (op_then (op_lift r) k)"
  by (cases r) (auto simp: op_safe_def op_then_def op_lift_def)

section \<open>Arithmetic\<close>

lemma unat_lt: "unat (w :: 'a::len word) < 2 ^ LENGTH('a)"
  by (rule unsigned_less)

lemma checked_add_Some [outcome_simps]:
  "checked_add a b = Some c \<longleftrightarrow> c = a + b \<and> unat a + unat b < 2 ^ LENGTH('a)"
  for a :: "'a::len word"
  by (auto simp: checked_add_def)

lemma checked_add_unat:
  "checked_add a b = Some c \<Longrightarrow> unat c = unat a + unat b"
  by (auto simp: checked_add_def unat_word_ariths split: if_splits)

lemma unat_add_small:
  "unat a + unat b < 2 ^ LENGTH('a) \<Longrightarrow> unat (a + b) = unat a + unat b"
  for a :: "'a::len word"
  by (simp add: unat_word_ariths)

lemma checked_sub_Some [outcome_simps]:
  "checked_sub a b = Some c \<longleftrightarrow> c = a - b \<and> b \<le> a"
  by (auto simp: checked_sub_def)

lemma unat_sub_le: "b \<le> a \<Longrightarrow> unat (a - b) = unat a - unat b"
  by (rule unat_sub)

lemma add_ov_Ok [outcome_simps]:
  "add_ov a b = Ok c \<longleftrightarrow> c = a + b \<and> unat a + unat b < 2 ^ LENGTH('a)"
  for a :: "'a::len word"
  by (auto simp: add_ov_def checked_add_def)

lemma add_ov_Err [simp]: "add_ov a b \<noteq> Err e"
  by (auto simp: add_ov_def split: option.splits)

lemma sub_ov_Ok [outcome_simps]: "sub_ov a b = Ok c \<longleftrightarrow> c = a - b \<and> b \<le> a"
  by (auto simp: sub_ov_def checked_sub_def)

lemma sub_ov_Err [simp]: "sub_ov a b \<noteq> Err e"
  by (auto simp: sub_ov_def split: option.splits)

lemma rem_ov_Ok [outcome_simps]: "rem_ov a b = Ok c \<longleftrightarrow> b \<noteq> 0 \<and> c = a mod b"
  by (auto simp: rem_ov_def)

lemma rem_ov_Err [simp]: "rem_ov a b \<noteq> Err e"
  by (auto simp: rem_ov_def)

lemma is_fault_arith [simp]:
  "is_fault (add_ov a b) \<longleftrightarrow> \<not> unat a + unat b < 2 ^ LENGTH('a)"
  "is_fault (sub_ov a b) \<longleftrightarrow> \<not> b \<le> a"
  "is_fault (rem_ov a b) \<longleftrightarrow> b = 0"
  for a b :: "'a::len word"
  by (auto simp: add_ov_def sub_ov_def rem_ov_def checked_add_def checked_sub_def)

lemma mul_ov_Ok [outcome_simps]:
  "mul_ov a b = Ok c \<longleftrightarrow> c = a * b \<and> unat a * unat b < 2 ^ LENGTH('a)"
  for a :: "'a::len word"
  by (auto simp: mul_ov_def checked_mul_def)

lemma mul_ov_Err [simp]: "mul_ov a b \<noteq> Err e"
  by (auto simp: mul_ov_def split: option.splits)

lemma is_fault_mul_ov [simp]:
  "is_fault (mul_ov a b) \<longleftrightarrow> \<not> unat a * unat b < 2 ^ LENGTH('a)"
  for a b :: "'a::len word"
  by (auto simp: mul_ov_def checked_mul_def)

text \<open>Ring offsets: a small constant times a 16-bit index, plus a small constant, fits in 64 bits.\<close>

lemma unat_ucast_u16 [simp]: "unat (ucast (w :: u16) :: u64) = unat w"
  using unat_lt [of w] by (simp add: unsigned_ucast_eq take_bit_nat_eq_self)

lemma scaled_index_bound:
  assumes "unat (k :: u64) < 2 ^ 32"
  shows "unat k * unat (w :: u16) < 2 ^ 48"
proof -
  have "unat k * unat w \<le> 2 ^ 32 * unat w"
    using assms by (intro mult_le_mono1) simp
  also have "\<dots> < 2 ^ 48" using unat_lt [of w] by simp
  finally show ?thesis .
qed

lemma unat_scaled_index:
  "unat k < 2 ^ 32 \<Longrightarrow> unat (k * ucast (w :: u16) :: u64) = unat k * unat w"
  using scaled_index_bound [of k w] by (simp add: unat_word_ariths)

lemma mul_ov_scaled [simp]:
  "unat k < 2 ^ 32 \<Longrightarrow> mul_ov (k :: u64) (ucast (w :: u16)) = Ok (k * ucast w)"
  using scaled_index_bound [of k w] by (simp add: outcome_simps)

lemma add_ov_scaled [simp]:
  "unat c < 2 ^ 32 \<Longrightarrow> unat k < 2 ^ 32 \<Longrightarrow>
     add_ov (c :: u64) (k * ucast (w :: u16)) = Ok (c + k * ucast w)"
  using scaled_index_bound [of k w] by (simp add: outcome_simps unat_scaled_index)

lemma unat_u16_mod: "unat (a mod b :: u16) = unat a mod unat b"
  by (rule unat_mod)

lemma unat_ring_offset:
  "unat c < 2 ^ 32 \<Longrightarrow> unat k < 2 ^ 32 \<Longrightarrow>
     unat (c + k * ucast (w :: u16) :: u64) = unat c + unat k * unat w"
  using scaled_index_bound [of k w] by (simp add: unat_add_small unat_scaled_index)

lemma u64_try_from_usize_Some [outcome_simps]:
  "u64_try_from_usize n = Some x \<longleftrightarrow> n < 2 ^ 64 \<and> x = of_nat n"
  by (auto simp: u64_try_from_usize_def)

lemma usize_try_from_u64_total [simp]: "usize_try_from_u64 x = Some (unat x)"
  using unat_lt [of x] by (simp add: usize_try_from_u64_def USIZE_BITS_def)

lemma and_not_1: "(x :: 'a::len word) AND NOT 1 = 0 \<longleftrightarrow> x = 0 \<or> x = 1"
proof -
  have "x AND NOT 1 = 0 \<longleftrightarrow> x = x AND 1"
  proof
    assume z: "x AND NOT 1 = 0"
    have "x = (x AND 1) OR (x AND NOT 1)"
      by (simp only: bit.conj_disj_distrib [symmetric]) simp
    with z show "x = x AND 1" by simp
  next
    assume "x = x AND 1"
    then have "x AND NOT 1 = (x AND 1) AND NOT 1" by simp
    then show "x AND NOT 1 = 0" by (simp add: and.assoc)
  qed
  moreover have "x AND 1 = 0 \<or> x AND 1 = 1" by (simp add: and_one_eq mod_2_eq_odd)
  ultimately show ?thesis by auto
qed

section \<open>Weakest preconditions\<close>

lemma wp_iff: "wp r P \<longleftrightarrow> \<not> is_fault r \<and> (\<forall>x. r = Ok x \<longrightarrow> P x)"
  by (cases r) auto

lemma wp_True [simp]: "wp r (\<lambda>_. True) \<longleftrightarrow> \<not> is_fault r"
  by (simp add: wp_iff)

lemma wp_mono: "wp r P \<Longrightarrow> (\<And>x. r = Ok x \<Longrightarrow> P x \<Longrightarrow> Q x) \<Longrightarrow> wp r Q"
  by (simp add: wp_iff)

lemma wp_and_then [simp]: "wp (and_then r f) P \<longleftrightarrow> wp r (\<lambda>x. wp (f x) P)"
  by (cases r) auto

lemma wp_map [simp]:
  "wp (map_ok f r) P \<longleftrightarrow> wp r (\<lambda>x. P (f x))" "wp (map_err g r) Q \<longleftrightarrow> wp r Q"
  by (cases r; simp)+

lemma wp_option [wp_simps]:
  "wp (ok_or x e) P \<longleftrightarrow> (\<forall>y. x = Some y \<longrightarrow> P y)"
  "wp (expect x) P \<longleftrightarrow> (\<exists>y. x = Some y \<and> P y)"
  by (cases x; simp)+

lemma wp_arith [wp_simps]:
  "wp (add_ov a b) P \<longleftrightarrow> unat a + unat b < 2 ^ LENGTH('a) \<and> P (a + b)"
  "wp (mul_ov a b) P \<longleftrightarrow> unat a * unat b < 2 ^ LENGTH('a) \<and> P (a * b)"
  "wp (sub_ov a b) P \<longleftrightarrow> b \<le> a \<and> P (a - b)"
  "wp (rem_ov a b) P \<longleftrightarrow> b \<noteq> 0 \<and> P (a mod b)"
  for a b :: "'a::len word"
  by (auto simp: wp_iff outcome_simps)

lemma wp_index_range [wp_simps]:
  "wp (index_range xs a b) P \<longleftrightarrow> a \<le> b \<and> b \<le> length xs \<and> P (subslice xs a b)"
  by (auto simp: index_range_def)

lemma wp_commit:
  "wp r (\<lambda>(x, t). I t) \<Longrightarrow> I s \<Longrightarrow> commit s r = (q, s') \<Longrightarrow> I s' \<and> \<not> is_fault q"
  by (cases r) auto

section \<open>Little-endian bytes: round trips\<close>

lemma length_nat_to_le [simp]: "length (nat_to_le n x) = n"
  by (induction n arbitrary: x) auto

lemma nat_to_le_numeral [byte_simps]:
  "nat_to_le (numeral k) x = of_nat (x mod 256) # nat_to_le (pred_numeral k) (x div 256)"
  by (simp only: numeral_eq_Suc [of k] nat_to_le.simps)

lemma nat_to_le_1 [byte_simps]: "nat_to_le 1 x = [of_nat (x mod 256)]"
  by (simp only: One_nat_def nat_to_le.simps)

lemma unat_of_nat_byte: "unat (of_nat (x mod 256) :: u8) = x mod 256"
  by (simp add: unat_of_nat take_bit_eq_mod)

lemma nat_from_to_le: "nat_from_le (nat_to_le n x) = x mod 256 ^ n"
proof (induction n arbitrary: x)
  case 0
  then show ?case by simp
next
  case (Suc n)
  have "nat_from_le (nat_to_le (Suc n) x) = x mod 256 + 256 * (x div 256 mod 256 ^ n)"
    using Suc.IH by (simp add: unat_of_nat_byte)
  also have "\<dots> = x mod (256 * 256 ^ n)"
    by (simp add: mod_mult2_eq add.commute)
  finally show ?case by simp
qed

lemma nat_from_le_bound: "nat_from_le bs < 256 ^ length bs"
proof (induction bs)
  case Nil
  then show ?case by simp
next
  case (Cons b bs)
  have "unat b < 256" using unat_lt [of b] by simp
  with Cons show ?case by simp
qed

lemma nat_to_from_le: "nat_to_le (length bs) (nat_from_le bs) = bs"
proof (induction bs)
  case Nil
  then show ?case by simp
next
  case (Cons b bs)
  have b: "unat b < 256" using unat_lt [of b] by simp
  then have "(unat b + 256 * nat_from_le bs) mod 256 = unat b"
    and "(unat b + 256 * nat_from_le bs) div 256 = nat_from_le bs"
    by simp_all
  with Cons show ?case by simp
qed

lemma length_to_le_bytes [simp]:
  "length (to_le_bytes (w :: 'a::len word)) = LENGTH('a) div 8"
  by (simp add: to_le_bytes_def)

lemma byte_power: "8 dvd n \<Longrightarrow> (256::nat) ^ (n div 8) = 2 ^ n"
proof -
  assume "8 dvd n"
  then obtain k where "n = 8 * k" by (elim dvdE)
  then show ?thesis by (simp add: power_mult)
qed

lemma from_to_le_bytes:
  assumes "8 dvd LENGTH('a)"
  shows "from_le_bytes (to_le_bytes (w :: 'a::len word)) = w"
proof -
  have "(256::nat) ^ (LENGTH('a) div 8) = 2 ^ LENGTH('a)"
    using assms by (rule byte_power)
  then have "unat w mod 256 ^ (LENGTH('a) div 8) = unat w"
    using unat_lt [of w] by simp
  then show ?thesis
    by (simp add: from_le_bytes_def to_le_bytes_def nat_from_to_le)
qed

lemma to_from_le_bytes:
  assumes "8 dvd LENGTH('a)" and "length bs = LENGTH('a) div 8"
  shows "to_le_bytes (from_le_bytes bs :: 'a::len word) = bs"
proof -
  have "(256::nat) ^ length bs = 2 ^ LENGTH('a)"
    using assms by (simp only: byte_power)
  then have "unat (from_le_bytes bs :: 'a word) = nat_from_le bs"
    using nat_from_le_bound [of bs] by (simp add: from_le_bytes_def unat_of_nat take_bit_eq_mod)
  then show ?thesis
    using assms(2) nat_to_from_le [of bs] by (simp add: to_le_bytes_def)
qed

lemma from_to_le_words [simp]:
  "from_le_bytes (to_le_bytes (a :: u8)) = a"
  "from_le_bytes (to_le_bytes (b :: u16)) = b"
  "from_le_bytes (to_le_bytes (c :: u32)) = c"
  "from_le_bytes (to_le_bytes (d :: u64)) = d"
  by (simp_all add: from_to_le_bytes)

lemma to_le_bytes_inject:
  "to_le_bytes (a :: u64) = to_le_bytes b \<longleftrightarrow> a = b"
  by (metis from_to_le_words(4))

section \<open>Slices\<close>

lemma length_slice [simp]: "b \<le> length xs \<Longrightarrow> length (subslice xs a b) = b - a"
  by (simp add: subslice_def)

lemma slice_full [simp]: "subslice xs 0 (length xs) = xs"
  by (simp add: subslice_def)

lemma length_splice [simp]:
  "a + length ys \<le> length xs \<Longrightarrow> length (splice xs a ys) = length xs"
  by (simp add: splice_def)

lemma slice_splice_same:
  "a + length ys \<le> length xs \<Longrightarrow> subslice (splice xs a ys) a (a + length ys) = ys"
  by (simp add: subslice_def splice_def)

lemma nth_splice:
  assumes "a + length ys \<le> length xs" and "i < length xs"
  shows "splice xs a ys ! i = (if a \<le> i \<and> i < a + length ys then ys ! (i - a) else xs ! i)"
  using assms by (auto simp: splice_def nth_append)

lemma index_range_Ok [outcome_simps]:
  "index_range xs a b = Ok ys \<longleftrightarrow> a \<le> b \<and> b \<le> length xs \<and> ys = subslice xs a b"
  by (auto simp: index_range_def)

lemma index_range_Err [simp]: "index_range xs a b \<noteq> Err e"
  by (simp add: index_range_def)

lemma is_fault_index_range [simp]:
  "is_fault (index_range xs a b) \<longleftrightarrow> \<not> (a \<le> b \<and> b \<le> length xs)"
  by (simp add: index_range_def)

section \<open>Searches\<close>

lemma position_Some:
  "position p xs = Some i \<Longrightarrow> i < length xs \<and> p (xs ! i) \<and> (\<forall>j<i. \<not> p (xs ! j))"
proof (induction xs arbitrary: i)
  case Nil
  then show ?case by simp
next
  case (Cons x xs)
  show ?case
  proof (cases "p x")
    case True
    with Cons.prems show ?thesis by simp
  next
    case False
    with Cons.prems obtain k where "position p xs = Some k" and "i = Suc k"
      by auto
    with Cons.IH [of k] False show ?thesis
      by (simp add: nth_Cons split: nat.splits)
  qed
qed

lemma position_None: "position p xs = None \<longleftrightarrow> (\<forall>x\<in>set xs. \<not> p x)"
  by (induction xs) auto

lemma position_find: "find p xs = map_option (nth xs) (position p xs)"
  by (induction xs) (auto simp: option.map_comp comp_def)

end
