(* ===== verification/Errors.thy ===== *)
theory Errors
  imports Prelude
begin

text \<open>
  The error values of the hypervisor: the enums of \<open>src/src/error.rs\<close>, and the error enums of the
  two virtio device models, which reach the top-level error wrapped in an I/O error.  Constructors
  keep the order and the payload of the source enums; a prefix separates enums whose variants share
  a name.  An I/O error is an operating-system error number or a custom error with a payload; a
  formatted message is its literal text with the numbers that are formatted into it.
\<close>

datatype (plugins only: code) rng_error =
    Rng_UnsupportedRegisterAccess u64 usize bool
  | Rng_InvalidRegisterPayload u64 usize usize
  | Rng_InvalidDeviceStatus u8 u8
  | Rng_UnsupportedQueue u16
  | Rng_InvalidQueueSize u16 u16
  | Rng_QueueConfigurationLocked
  | Rng_QueueNotReady
  | Rng_UnexpectedQueueNotification u16
  | Rng_UnexpectedAvailIndex u16 u16
  | Rng_UnexpectedUsedIndex u16 u16
  | Rng_DescriptorIndexOutOfRange u16 u16
  | Rng_UnsupportedDescriptorFlags u16
  | Rng_DescriptorTooSmall u32 u32
  | Rng_AddressOverflow u64 u64

datatype (plugins only: code) blk_error =
    Blk_UnsupportedRegisterAccess u64 usize bool
  | Blk_InvalidRegisterPayload u64 usize usize
  | Blk_InvalidDeviceStatus u8 u8
  | Blk_UnsupportedQueue u16
  | Blk_InvalidQueueSize u16 u16
  | Blk_QueueConfigurationLocked
  | Blk_QueueNotReady
  | Blk_UnexpectedQueueNotification u16
  | Blk_UnexpectedAvailIndex u16 u16
  | Blk_UnexpectedUsedIndex u16 u16
  | Blk_DescriptorIndexOutOfRange u16 u16
  | Blk_InvalidDescriptorFlags u16 u16 u16
  | Blk_DescriptorTooSmall u16 u32 u32
  | Blk_DescriptorChainCycle u16
  | Blk_IndirectFeatureNotNegotiated
  | Blk_InvalidIndirectTableLength u32 u32
  | Blk_IndirectTableTooLarge u32 u32
  | Blk_IndirectDescriptorIndexOutOfRange u16 u32
  | Blk_NestedIndirectDescriptor u16
  | Blk_InvalidRequestType u32
  | Blk_InvalidRequestReserved u32
  | Blk_SectorOutOfRange u64 u64
  | Blk_InvalidDataLength u32 u32
  | Blk_RequestRangeOutOfRange u64 u32 u64
  | Blk_AddressOverflow u64 u64

datatype (plugins only: code) io_kind = InvalidData | InvalidInput | OtherKind

datatype (plugins only: code) io_payload =
    Message string "u64 list"
  | Rng_Source rng_error
  | Blk_Source blk_error

datatype (plugins only: code) io_error =
    Os_Error int
  | Custom io_kind io_payload

datatype (plugins only: code) host_environment_error =
    KvmUnavailable io_error
  | PermissionDenied io_error
  | VmCreation io_error
  | VmOperation string io_error
  | VcpuCreation u16 io_error
  | VcpuRunMapping u16 io_error
  | VcpuOperation u16 string io_error
  | VcpuMsrPartialWrite u16 usize usize u32
  | VcpuMsrInvalidWriteCompletion u16 usize usize
  | Host_Io string io_error

datatype (plugins only: code) kvm_capability_error =
    UnsupportedApiVersion int int
  | MissingExtension string int
  | InvalidVcpuMmapSize int

datatype (plugins only: code) configuration_error =
    UnsupportedVcpuCount u16 u16
  | RealModeEntryOutOfRange u64 u64

datatype (plugins only: code) guest_memory_error =
    ZeroSizedRegion
  | MisalignedRegion string u64 u64
  | AddressSpaceOverflow u64 u64
  | HostSizeOverflow u64
  | AccessLengthTooLarge usize
  | AccessOverflow u64 usize
  | AccessOutOfBounds u64 usize u64 u64
  | ReservedRangeOverlap u64 u64 u64 u64
  | Memory_Mapping io_error
  | Memory_Registration io_error
  | AlreadyRegistered

datatype (plugins only: code) guest_image_error =
    EmptyFlatBinary
  | ImageLengthTooLarge usize
  | ImageRangeOverflow u64 usize
  | EntryOutsideImage u64 u64 usize

datatype (plugins only: code) vm_exit_error =
    Exit_Unhandled u16 u32 u64 u64 "u32 list"
  | Exit_KvmUnknownExit u16 u64 "u32 list"
  | Exit_KvmUnknownPayloadUnavailable u16 u32
  | Exit_Exception u16 u32 u32 "u32 list"
  | Exit_ExceptionPayloadUnavailable u16 u32
  | Exit_EntryFailure u16 u64 u32 "u32 list"
  | Exit_FailEntryPayloadUnavailable u16 u32
  | Exit_InternalError u16 u32 "u64 list option" "u32 list"
  | Exit_InternalErrorPayloadUnavailable u16 u32
  | Exit_InvalidInternalErrorDataCount u16 u32 u32 usize "u32 list"
  | Exit_UnsupportedSystemEvent u16 u32 "u64 list" u64 u64 "u32 list"
  | Exit_SystemEventPayloadUnavailable u16 u32
  | Exit_InvalidSystemEventDataCount u16 u32 usize "u32 list"
  | Exit_IoPayloadUnavailable u16 u32
  | Exit_InvalidIoDirection u16 u8
  | Exit_InvalidIoDataRange u16 u64 u8 u32 usize
  | Exit_IoResponseForNonInput u16 u8
  | Exit_InvalidIoResponseLength u16 u16 usize usize
  | Exit_MmioPayloadUnavailable u16 u32
  | Exit_InvalidMmioDirection u16 u8
  | Exit_InvalidMmioLength u16 u64 u32 usize
  | Exit_MmioResponseForWrite u16 u64
  | Exit_InvalidMmioResponseLength u16 u64 usize usize
  | Exit_ExitBudgetExhausted u16 u32 u32 "u32 option" "u32 list"
  | Exit_UnexpectedSequence string u32 u32

datatype (plugins only: code) port_io_error =
    UnhandledPort u16 u8 u8 u32
  | UnsupportedDebugAccess u16 u8 u8 u32
  | InvalidOutputPayload u16 usize usize

datatype (plugins only: code) mmio_error =
    UnhandledAddress u64 u8 u32
  | UnsupportedByteDeviceAccess u64 u8 u32
  | InvalidWritePayload u64 usize usize

datatype (plugins only: code) vm_error =
    HostEnvironment host_environment_error
  | KvmCapability kvm_capability_error
  | Configuration configuration_error
  | GuestMemory guest_memory_error
  | GuestImage guest_image_error
  | VmExit vm_exit_error
  | PortIo port_io_error
  | Mmio mmio_error

end
