(* ===== verification/Vcpu_Exits.thy ===== *)
theory Vcpu_Exits
  imports Errors
begin

text \<open>
  VM exits of a vCPU (\<open>src/src/vcpu.rs\<close> and the modules below \<open>src/src/vcpu\<close>): the classification
  of the exit reason, the layout of the \<open>kvm_run\<close> page that KVM shares with the monitor, and the
  decoders of the exit payloads in it.

  The page is the byte list that the mapping covers.  KVM writes it, so nothing is assumed of its
  contents.  A cast of the mapping to one of the prefix structures is a view of its first bytes; it is
  undefined behaviour when the mapping is shorter than the structure.
\<close>

section \<open>Exit reasons\<close>

abbreviation KVM_EXIT_UNKNOWN :: u32 where "KVM_EXIT_UNKNOWN \<equiv> 0"
abbreviation KVM_EXIT_EXCEPTION :: u32 where "KVM_EXIT_EXCEPTION \<equiv> 1"
abbreviation KVM_EXIT_IO :: u32 where "KVM_EXIT_IO \<equiv> 2"
abbreviation KVM_EXIT_DEBUG :: u32 where "KVM_EXIT_DEBUG \<equiv> 4"
abbreviation KVM_EXIT_HLT :: u32 where "KVM_EXIT_HLT \<equiv> 5"
abbreviation KVM_EXIT_MMIO :: u32 where "KVM_EXIT_MMIO \<equiv> 6"
abbreviation KVM_EXIT_SHUTDOWN :: u32 where "KVM_EXIT_SHUTDOWN \<equiv> 8"
abbreviation KVM_EXIT_FAIL_ENTRY :: u32 where "KVM_EXIT_FAIL_ENTRY \<equiv> 9"
abbreviation KVM_EXIT_INTERNAL_ERROR :: u32 where "KVM_EXIT_INTERNAL_ERROR \<equiv> 17"
abbreviation KVM_EXIT_SYSTEM_EVENT :: u32 where "KVM_EXIT_SYSTEM_EVENT \<equiv> 24"
abbreviation KVM_EXIT_IO_IN :: u8 where "KVM_EXIT_IO_IN \<equiv> 0"
abbreviation KVM_EXIT_IO_OUT :: u8 where "KVM_EXIT_IO_OUT \<equiv> 1"
abbreviation KVM_MMIO_DATA_CAPACITY :: usize where "KVM_MMIO_DATA_CAPACITY \<equiv> 8"
abbreviation KVM_INTERNAL_ERROR_DATA_CAPACITY :: usize where "KVM_INTERNAL_ERROR_DATA_CAPACITY \<equiv> 16"
abbreviation KVM_SYSTEM_EVENT_DATA_CAPACITY :: usize where "KVM_SYSTEM_EVENT_DATA_CAPACITY \<equiv> 16"

datatype (plugins only: code) vcpu_exit =
    Ex_KvmUnknown
  | Ex_Exception
  | Ex_Debug
  | Ex_Hlt
  | Ex_Io
  | Ex_Mmio
  | Ex_Shutdown
  | Ex_FailEntry
  | Ex_InternalError
  | Ex_SystemEvent
  | Ex_Unhandled u32

definition exit_from_raw :: "u32 \<Rightarrow> vcpu_exit" where
  "exit_from_raw reason =
     (if reason = KVM_EXIT_UNKNOWN then Ex_KvmUnknown
      else if reason = KVM_EXIT_EXCEPTION then Ex_Exception
      else if reason = KVM_EXIT_DEBUG then Ex_Debug
      else if reason = KVM_EXIT_IO then Ex_Io
      else if reason = KVM_EXIT_HLT then Ex_Hlt
      else if reason = KVM_EXIT_MMIO then Ex_Mmio
      else if reason = KVM_EXIT_SHUTDOWN then Ex_Shutdown
      else if reason = KVM_EXIT_FAIL_ENTRY then Ex_FailEntry
      else if reason = KVM_EXIT_INTERNAL_ERROR then Ex_InternalError
      else if reason = KVM_EXIT_SYSTEM_EVENT then Ex_SystemEvent
      else Ex_Unhandled reason)"

fun exit_reason :: "vcpu_exit \<Rightarrow> u32" where
  "exit_reason Ex_KvmUnknown = KVM_EXIT_UNKNOWN"
| "exit_reason Ex_Exception = KVM_EXIT_EXCEPTION"
| "exit_reason Ex_Debug = KVM_EXIT_DEBUG"
| "exit_reason Ex_Io = KVM_EXIT_IO"
| "exit_reason Ex_Hlt = KVM_EXIT_HLT"
| "exit_reason Ex_Mmio = KVM_EXIT_MMIO"
| "exit_reason Ex_Shutdown = KVM_EXIT_SHUTDOWN"
| "exit_reason Ex_FailEntry = KVM_EXIT_FAIL_ENTRY"
| "exit_reason Ex_InternalError = KVM_EXIT_INTERNAL_ERROR"
| "exit_reason Ex_SystemEvent = KVM_EXIT_SYSTEM_EVENT"
| "exit_reason (Ex_Unhandled reason) = reason"

section \<open>The shared page\<close>

text \<open>
  Field readers for the \<open>repr(C)\<close> structures at the start of the page: the header holds the exit
  reason at byte 8, the exit payload starts at byte 32.
\<close>

definition run_field :: "nat \<Rightarrow> nat \<Rightarrow> u8 list \<Rightarrow> 'a::len word" where
  "run_field off n run = from_le_bytes (subslice run off (off + n))"

definition run_words :: "nat \<Rightarrow> nat \<Rightarrow> u8 list \<Rightarrow> u64 list" where
  "run_words off n run = map (\<lambda>i. run_field (off + 8 * i) 8 run) [0..<n]"

definition run_prefix :: "nat \<Rightarrow> u8 list \<Rightarrow> (unit, 'e) outcome" where
  "run_prefix n run = (if n \<le> length run then Ok () else Fault Undefined_Behaviour)"

definition IO_PREFIX_SIZE :: nat where "IO_PREFIX_SIZE = 48"
definition MMIO_PREFIX_SIZE :: nat where "MMIO_PREFIX_SIZE = 56"
definition UNKNOWN_PREFIX_SIZE :: nat where "UNKNOWN_PREFIX_SIZE = 40"
definition EXCEPTION_PREFIX_SIZE :: nat where "EXCEPTION_PREFIX_SIZE = 40"
definition FAIL_ENTRY_PREFIX_SIZE :: nat where "FAIL_ENTRY_PREFIX_SIZE = 48"
definition INTERNAL_ERROR_BASE_PREFIX_SIZE :: nat where "INTERNAL_ERROR_BASE_PREFIX_SIZE = 40"
definition INTERNAL_ERROR_PREFIX_SIZE :: nat where "INTERNAL_ERROR_PREFIX_SIZE = 168"
definition SYSTEM_EVENT_PREFIX_SIZE :: nat where "SYSTEM_EVENT_PREFIX_SIZE = 168"

definition required_kvm_run_prefix_size :: usize where
  "required_kvm_run_prefix_size =
     max (max (max (max (max (max IO_PREFIX_SIZE UNKNOWN_PREFIX_SIZE) EXCEPTION_PREFIX_SIZE)
       FAIL_ENTRY_PREFIX_SIZE) INTERNAL_ERROR_PREFIX_SIZE) SYSTEM_EVENT_PREFIX_SIZE) MMIO_PREFIX_SIZE"

text \<open>\<open>mmap\<close> is the parameter: the error of the call, a null pointer, or the bytes of the mapping.\<close>

definition kvm_run_map ::
  "(usize \<Rightarrow> io_error + u8 list option) \<Rightarrow> usize \<Rightarrow> (u8 list, io_error) outcome" where
  "kvm_run_map mmap len =
     (if len < required_kvm_run_prefix_size
      then Err (Custom InvalidInput
        (Message ''kvm_run mmap length is smaller than the required x86 exit payload prefix'' []))
      else case mmap len of
             Inl e \<Rightarrow> Err e
           | Inr None \<Rightarrow> Err (Custom OtherKind (Message ''mmap unexpectedly returned null'' []))
           | Inr (Some run) \<Rightarrow> Ok run)"

definition run_exit_reason :: "u8 list \<Rightarrow> (u32, 'e) outcome" where
  "run_exit_reason run = and_then (run_prefix IO_PREFIX_SIZE run) (\<lambda>_. Ok (run_field 8 4 run))"

section \<open>Port I/O exits\<close>

datatype (plugins only: code) port_io_direction = Io_In | Io_Out

fun port_direction_raw :: "port_io_direction \<Rightarrow> u8" where
  "port_direction_raw Io_In = KVM_EXIT_IO_IN"
| "port_direction_raw Io_Out = KVM_EXIT_IO_OUT"

record port_io_exit =
  pio_direction :: port_io_direction
  pio_size :: u8
  pio_port :: u16
  pio_count :: u32
  pio_output_data :: "u8 list"

record kvm_run_io =
  raw_direction :: u8
  raw_size :: u8
  raw_port :: u16
  raw_count :: u32
  raw_data_offset :: u64

definition run_io :: "u8 list \<Rightarrow> kvm_run_io" where
  "run_io run = \<lparr>raw_direction = run_field 32 1 run, raw_size = run_field 33 1 run,
     raw_port = run_field 34 2 run, raw_count = run_field 36 4 run, raw_data_offset = run_field 40 8 run\<rparr>"

definition decode_port_io_direction :: "u16 \<Rightarrow> u8 \<Rightarrow> (port_io_direction, vm_error) outcome" where
  "decode_port_io_direction vid raw =
     (if raw = KVM_EXIT_IO_IN then Ok Io_In
      else if raw = KVM_EXIT_IO_OUT then Ok Io_Out
      else Err (VmExit (Exit_InvalidIoDirection vid raw)))"

text \<open>\<open>usize\<close> arithmetic of the range: the checked operations fail beyond the host word.\<close>

definition checked_io_data_range :: "u16 \<Rightarrow> kvm_run_io \<Rightarrow> usize \<Rightarrow> (usize \<times> usize, vm_error) outcome" where
  "checked_io_data_range vid io mapping_size =
     (let invalid = VmExit (Exit_InvalidIoDataRange vid (raw_data_offset io) (raw_size io) (raw_count io)
            mapping_size) in
      and_then (ok_or (usize_try_from_u64 (raw_data_offset io)) invalid) (\<lambda>offset.
      and_then (ok_or (usize_try_from_u64 (ucast (raw_count io))) invalid) (\<lambda>count.
      and_then (ok_or (usize_checked (unat (raw_size io) * count)) invalid) (\<lambda>len.
      and_then (ok_or (usize_checked (offset + len)) invalid) (\<lambda>end.
      if mapping_size < end then Err invalid else Ok (offset, end))))))"

definition checked_io_response_range ::
  "u16 \<Rightarrow> kvm_run_io \<Rightarrow> usize \<Rightarrow> usize \<Rightarrow> (usize \<times> usize, vm_error) outcome" where
  "checked_io_response_range vid io mapping_size response_len =
     and_then (decode_port_io_direction vid (raw_direction io)) (\<lambda>direction.
     if direction \<noteq> Io_In
     then Err (VmExit (Exit_IoResponseForNonInput vid (raw_direction io))) else
     and_then (checked_io_data_range vid io mapping_size) (\<lambda>(start, end).
     if response_len \<noteq> end - start
     then Err (VmExit (Exit_InvalidIoResponseLength vid (raw_port io) (end - start) response_len))
     else Ok (start, end)))"

text \<open>Raw copies out of and into the page; outside the mapping their behaviour is undefined.\<close>

definition copy_from_run :: "u8 list \<Rightarrow> nat \<Rightarrow> nat \<Rightarrow> (u8 list, 'e) outcome" where
  "copy_from_run run start n =
     (if start + n \<le> length run then Ok (take n (drop start run)) else Fault Undefined_Behaviour)"

definition copy_to_run :: "nat \<Rightarrow> u8 list \<Rightarrow> (u8 list, unit, 'e) op" where
  "copy_to_run start bytes run =
     (if start + length bytes \<le> length run then (Ok (), splice run start bytes)
      else (Fault Undefined_Behaviour, run))"

definition run_port_io_exit :: "u16 \<Rightarrow> u8 list \<Rightarrow> (port_io_exit, vm_error) outcome" where
  "run_port_io_exit vid run =
     and_then (run_exit_reason run) (\<lambda>reason.
     if reason \<noteq> KVM_EXIT_IO then Err (VmExit (Exit_IoPayloadUnavailable vid reason)) else
     let io = run_io run in
     and_then (decode_port_io_direction vid (raw_direction io)) (\<lambda>direction.
     and_then (checked_io_data_range vid io (length run)) (\<lambda>(start, end).
     and_then
       (if direction = Io_Out
        then if end - start = 0 then Ok [] else copy_from_run run start (end - start)
        else Ok []) (\<lambda>output_data.
     Ok \<lparr>pio_direction = direction, pio_size = raw_size io, pio_port = raw_port io,
         pio_count = raw_count io, pio_output_data = output_data\<rparr>))))"

definition run_write_port_io_input :: "u16 \<Rightarrow> u8 list \<Rightarrow> (u8 list, unit, vm_error) op" where
  "run_write_port_io_input vid response run =
     (case run_exit_reason run of
        Fault p \<Rightarrow> (Fault p, run) | Err e \<Rightarrow> (Err e, run)
      | Ok reason \<Rightarrow>
          if reason \<noteq> KVM_EXIT_IO then (Err (VmExit (Exit_IoPayloadUnavailable vid reason)), run)
          else (case checked_io_response_range vid (run_io run) (length run) (length response) of
                  Fault p \<Rightarrow> (Fault p, run) | Err e \<Rightarrow> (Err e, run)
                | Ok (start, end) \<Rightarrow>
                    if response = [] then (Ok (), run) else copy_to_run start response run))"

section \<open>MMIO exits\<close>

datatype (plugins only: code) mmio_direction = Mmio_Read | Mmio_Write

fun mmio_direction_raw :: "mmio_direction \<Rightarrow> u8" where
  "mmio_direction_raw Mmio_Read = 0"
| "mmio_direction_raw Mmio_Write = 1"

record mmio_exit =
  mx_address :: u64
  mx_direction :: mmio_direction
  mx_length :: u32
  mx_write_data :: "u8 list"

record kvm_run_mmio =
  raw_phys_addr :: u64
  raw_data :: "u8 list"
  raw_len :: u32
  raw_is_write :: u8

definition run_mmio :: "u8 list \<Rightarrow> kvm_run_mmio" where
  "run_mmio run = \<lparr>raw_phys_addr = run_field 32 8 run, raw_data = subslice run 40 48,
     raw_len = run_field 48 4 run, raw_is_write = run_field 52 1 run\<rparr>"

definition decode_mmio_direction :: "u16 \<Rightarrow> u8 \<Rightarrow> (mmio_direction, vm_error) outcome" where
  "decode_mmio_direction vid is_write =
     (if is_write = 0 then Ok Mmio_Read
      else if is_write = 1 then Ok Mmio_Write
      else Err (VmExit (Exit_InvalidMmioDirection vid is_write)))"

definition checked_mmio_length :: "u16 \<Rightarrow> u64 \<Rightarrow> u32 \<Rightarrow> (usize, vm_error) outcome" where
  "checked_mmio_length vid address len =
     (let invalid = VmExit (Exit_InvalidMmioLength vid address len KVM_MMIO_DATA_CAPACITY) in
      and_then (ok_or (usize_try_from_u64 (ucast len)) invalid) (\<lambda>length_usize.
      if length_usize = 0 \<or> KVM_MMIO_DATA_CAPACITY < length_usize then Err invalid else Ok length_usize))"

definition decode_mmio :: "u16 \<Rightarrow> kvm_run_mmio \<Rightarrow> (mmio_exit, vm_error) outcome" where
  "decode_mmio vid raw =
     and_then (decode_mmio_direction vid (raw_is_write raw)) (\<lambda>direction.
     and_then (checked_mmio_length vid (raw_phys_addr raw) (raw_len raw)) (\<lambda>len.
     and_then (if direction = Mmio_Write then index_range (raw_data raw) 0 len else Ok []) (\<lambda>write_data.
     Ok \<lparr>mx_address = raw_phys_addr raw, mx_direction = direction, mx_length = raw_len raw,
         mx_write_data = write_data\<rparr>)))"

definition run_mmio_exit :: "u16 \<Rightarrow> u8 list \<Rightarrow> (mmio_exit, vm_error) outcome" where
  "run_mmio_exit vid run =
     and_then (run_exit_reason run) (\<lambda>reason.
     if reason \<noteq> KVM_EXIT_MMIO then Err (VmExit (Exit_MmioPayloadUnavailable vid reason)) else
     and_then (debug_assert (MMIO_PREFIX_SIZE \<le> length run)) (\<lambda>_.
     and_then (run_prefix MMIO_PREFIX_SIZE run) (\<lambda>_.
     decode_mmio vid (run_mmio run))))"

definition run_write_mmio_read_response :: "u16 \<Rightarrow> u8 list \<Rightarrow> (u8 list, unit, vm_error) op" where
  "run_write_mmio_read_response vid response run = commit run
     (and_then (run_exit_reason run) (\<lambda>reason.
      if reason \<noteq> KVM_EXIT_MMIO then Err (VmExit (Exit_MmioPayloadUnavailable vid reason)) else
      and_then (debug_assert (MMIO_PREFIX_SIZE \<le> length run)) (\<lambda>_.
      and_then (run_prefix MMIO_PREFIX_SIZE run) (\<lambda>_.
      let raw = run_mmio run in
      and_then (decode_mmio_direction vid (raw_is_write raw)) (\<lambda>direction.
      if direction \<noteq> Mmio_Read
      then Err (VmExit (Exit_MmioResponseForWrite vid (raw_phys_addr raw))) else
      and_then (checked_mmio_length vid (raw_phys_addr raw) (raw_len raw)) (\<lambda>len.
      if length response \<noteq> len
      then Err (VmExit (Exit_InvalidMmioResponseLength vid (raw_phys_addr raw) len (length response)))
      else and_then (index_range (raw_data raw) 0 len) (\<lambda>_.
      Ok ((), splice run 40 response))))))))"

section \<open>Other payloads\<close>

definition run_kvm_unknown_exit :: "u16 \<Rightarrow> u8 list \<Rightarrow> (u64, vm_error) outcome" where
  "run_kvm_unknown_exit vid run =
     and_then (run_exit_reason run) (\<lambda>reason.
     if reason \<noteq> KVM_EXIT_UNKNOWN then Err (VmExit (Exit_KvmUnknownPayloadUnavailable vid reason)) else
     and_then (debug_assert (UNKNOWN_PREFIX_SIZE \<le> length run)) (\<lambda>_.
     and_then (run_prefix UNKNOWN_PREFIX_SIZE run) (\<lambda>_.
     Ok (run_field 32 8 run))))"

record vcpu_exception =
  exc_exception :: u32
  exc_error_code :: u32

definition run_exception :: "u16 \<Rightarrow> u8 list \<Rightarrow> (vcpu_exception, vm_error) outcome" where
  "run_exception vid run =
     and_then (run_exit_reason run) (\<lambda>reason.
     if reason \<noteq> KVM_EXIT_EXCEPTION then Err (VmExit (Exit_ExceptionPayloadUnavailable vid reason)) else
     and_then (debug_assert (EXCEPTION_PREFIX_SIZE \<le> length run)) (\<lambda>_.
     and_then (run_prefix EXCEPTION_PREFIX_SIZE run) (\<lambda>_.
     Ok \<lparr>exc_exception = run_field 32 4 run, exc_error_code = run_field 36 4 run\<rparr>)))"

record vcpu_fail_entry =
  fail_hardware_reason :: u64
  fail_cpu :: u32

definition run_fail_entry :: "u16 \<Rightarrow> u8 list \<Rightarrow> (vcpu_fail_entry, vm_error) outcome" where
  "run_fail_entry vid run =
     and_then (run_exit_reason run) (\<lambda>reason.
     if reason \<noteq> KVM_EXIT_FAIL_ENTRY then Err (VmExit (Exit_FailEntryPayloadUnavailable vid reason)) else
     and_then (debug_assert (FAIL_ENTRY_PREFIX_SIZE \<le> length run)) (\<lambda>_.
     and_then (run_prefix FAIL_ENTRY_PREFIX_SIZE run) (\<lambda>_.
     Ok \<lparr>fail_hardware_reason = run_field 32 8 run, fail_cpu = run_field 40 4 run\<rparr>)))"

text \<open>Internal errors: the data words exist only on hosts that report the capability.\<close>

datatype (plugins only: code) internal_suberror =
    Sub_Emulation
  | Sub_SimultaneousExceptions
  | Sub_DeliveryEvent
  | Sub_UnexpectedExitReason
  | Sub_Unknown u32

definition suberror_from_raw :: "u32 \<Rightarrow> internal_suberror" where
  "suberror_from_raw raw =
     (if raw = 1 then Sub_Emulation else if raw = 2 then Sub_SimultaneousExceptions
      else if raw = 3 then Sub_DeliveryEvent else if raw = 4 then Sub_UnexpectedExitReason
      else Sub_Unknown raw)"

fun suberror_raw :: "internal_suberror \<Rightarrow> u32" where
  "suberror_raw Sub_Emulation = 1"
| "suberror_raw Sub_SimultaneousExceptions = 2"
| "suberror_raw Sub_DeliveryEvent = 3"
| "suberror_raw Sub_UnexpectedExitReason = 4"
| "suberror_raw (Sub_Unknown raw) = raw"

record vcpu_internal_error =
  ie_suberror :: u32
  ie_data_available :: bool
  ie_data_count :: usize
  ie_data :: "u64 list"

definition internal_error_data :: "vcpu_internal_error \<Rightarrow> (u64 list option, 'e) outcome" where
  "internal_error_data ie =
     (if ie_data_available ie then map_ok Some (index_range (ie_data ie) 0 (ie_data_count ie)) else Ok None)"

definition emulation_failure_flags :: "vcpu_internal_error \<Rightarrow> (u64 option, 'e) outcome" where
  "emulation_failure_flags ie =
     (if suberror_from_raw (ie_suberror ie) \<noteq> Sub_Emulation then Ok None else
      map_ok (\<lambda>data. case data of Some (w # _) \<Rightarrow> Some w | _ \<Rightarrow> None) (internal_error_data ie))"

definition emulation_instruction_overlay :: "vcpu_internal_error \<Rightarrow> ((u8 \<times> u8 list) option, 'e) outcome" where
  "emulation_instruction_overlay ie =
     (if suberror_from_raw (ie_suberror ie) \<noteq> Sub_Emulation then Ok None else
      map_ok (\<lambda>data. case data of
          Some (flags # w1 # w2 # _) \<Rightarrow>
            if flags AND 1 = 0 then None
            else Some (hd (to_le_bytes w1), tl (to_le_bytes w1) @ to_le_bytes w2)
        | _ \<Rightarrow> None) (internal_error_data ie))"

definition emulation_instruction_bytes :: "vcpu_internal_error \<Rightarrow> (u8 list option, 'e) outcome" where
  "emulation_instruction_bytes ie =
     and_then (emulation_instruction_overlay ie) (\<lambda>overlay.
     case overlay of None \<Rightarrow> Ok None
     | Some (n, bytes) \<Rightarrow>
         if 15 < unat n then Ok None else map_ok Some (index_range bytes 0 (unat n)))"

definition decode_internal_error_base :: "u32 \<Rightarrow> vcpu_internal_error" where
  "decode_internal_error_base suberror =
     \<lparr>ie_suberror = suberror, ie_data_available = False, ie_data_count = 0,
      ie_data = replicate KVM_INTERNAL_ERROR_DATA_CAPACITY 0\<rparr>"

definition decode_internal_error_with_data ::
  "u16 \<Rightarrow> u32 \<Rightarrow> u32 \<Rightarrow> u64 list \<Rightarrow> (vcpu_internal_error, vm_error) outcome" where
  "decode_internal_error_with_data vid suberror ndata data =
     and_then (expect (usize_try_from_u64 (ucast ndata))) (\<lambda>data_count.
     if KVM_INTERNAL_ERROR_DATA_CAPACITY < data_count
     then Err (VmExit (Exit_InvalidInternalErrorDataCount vid suberror ndata
       KVM_INTERNAL_ERROR_DATA_CAPACITY [KVM_EXIT_INTERNAL_ERROR]))
     else and_then (index_range data 0 data_count) (\<lambda>words.
     Ok \<lparr>ie_suberror = suberror, ie_data_available = True, ie_data_count = data_count,
         ie_data = splice (replicate KVM_INTERNAL_ERROR_DATA_CAPACITY 0) 0 words\<rparr>))"

definition run_internal_error :: "u16 \<Rightarrow> bool \<Rightarrow> u8 list \<Rightarrow> (vcpu_internal_error, vm_error) outcome" where
  "run_internal_error vid supports_optional_data run =
     and_then (run_exit_reason run) (\<lambda>reason.
     if reason \<noteq> KVM_EXIT_INTERNAL_ERROR
     then Err (VmExit (Exit_InternalErrorPayloadUnavailable vid reason))
     else if \<not> supports_optional_data then
       and_then (debug_assert (INTERNAL_ERROR_BASE_PREFIX_SIZE \<le> length run)) (\<lambda>_.
       and_then (run_prefix INTERNAL_ERROR_BASE_PREFIX_SIZE run) (\<lambda>_.
       Ok (decode_internal_error_base (run_field 32 4 run))))
     else
       and_then (debug_assert (INTERNAL_ERROR_PREFIX_SIZE \<le> length run)) (\<lambda>_.
       and_then (run_prefix INTERNAL_ERROR_PREFIX_SIZE run) (\<lambda>_.
       decode_internal_error_with_data vid (run_field 32 4 run) (run_field 36 4 run)
         (run_words 40 KVM_INTERNAL_ERROR_DATA_CAPACITY run))))"

datatype (plugins only: code) system_event_type =
    Ev_Shutdown
  | Ev_Reset
  | Ev_Crash
  | Ev_Wakeup
  | Ev_Suspend
  | Ev_SevTerm
  | Ev_TdxFatal
  | Ev_Unknown u32

definition system_event_from_raw :: "u32 \<Rightarrow> system_event_type" where
  "system_event_from_raw raw =
     (if raw = 1 then Ev_Shutdown else if raw = 2 then Ev_Reset else if raw = 3 then Ev_Crash
      else if raw = 4 then Ev_Wakeup else if raw = 5 then Ev_Suspend else if raw = 6 then Ev_SevTerm
      else if raw = 7 then Ev_TdxFatal else Ev_Unknown raw)"

fun system_event_raw :: "system_event_type \<Rightarrow> u32" where
  "system_event_raw Ev_Shutdown = 1"
| "system_event_raw Ev_Reset = 2"
| "system_event_raw Ev_Crash = 3"
| "system_event_raw Ev_Wakeup = 4"
| "system_event_raw Ev_Suspend = 5"
| "system_event_raw Ev_SevTerm = 6"
| "system_event_raw Ev_TdxFatal = 7"
| "system_event_raw (Ev_Unknown raw) = raw"

record vcpu_system_event =
  sys_event_type :: system_event_type
  sys_event_data :: "u64 list"

definition decode_system_event :: "u16 \<Rightarrow> u32 \<Rightarrow> u32 \<Rightarrow> u64 list \<Rightarrow> (vcpu_system_event, vm_error) outcome" where
  "decode_system_event vid ev ndata data =
     and_then (expect (usize_try_from_u64 (ucast ndata))) (\<lambda>data_count.
     if KVM_SYSTEM_EVENT_DATA_CAPACITY < data_count
     then Err (VmExit (Exit_InvalidSystemEventDataCount vid ndata
       KVM_SYSTEM_EVENT_DATA_CAPACITY [KVM_EXIT_SYSTEM_EVENT]))
     else and_then (index_range data 0 data_count) (\<lambda>words.
     Ok \<lparr>sys_event_type = system_event_from_raw ev, sys_event_data = words\<rparr>))"

definition run_system_event :: "u16 \<Rightarrow> u8 list \<Rightarrow> (vcpu_system_event, vm_error) outcome" where
  "run_system_event vid run =
     and_then (run_exit_reason run) (\<lambda>reason.
     if reason \<noteq> KVM_EXIT_SYSTEM_EVENT then Err (VmExit (Exit_SystemEventPayloadUnavailable vid reason)) else
     and_then (debug_assert (SYSTEM_EVENT_PREFIX_SIZE \<le> length run)) (\<lambda>_.
     and_then (run_prefix SYSTEM_EVENT_PREFIX_SIZE run) (\<lambda>_.
     decode_system_event vid (run_field 32 4 run) (run_field 36 4 run)
       (run_words 40 KVM_SYSTEM_EVENT_DATA_CAPACITY run))))"

text \<open>The byte range of the page that a port I/O exit names, and a concrete page with such an exit.\<close>

definition io_extent :: "u8 list \<Rightarrow> nat \<times> nat" where
  "io_extent run = (let io = run_io run in
     (unat (raw_data_offset io), unat (raw_data_offset io) + unat (raw_size io) * unat (raw_count io)))"

definition example_io_page :: "u8 \<Rightarrow> u8 list" where
  "example_io_page direction =
     replicate 8 0 @ [2, 0, 0, 0] @ replicate 20 0
     @ [direction, 1, 0xE9, 0, 1, 0, 0, 0, 200, 0, 0, 0, 0, 0, 0, 0] @ replicate 152 0 @ [0x4B] @ replicate 55 0"

section \<open>Lemmas\<close>

lemmas prefix_size_defs =
  IO_PREFIX_SIZE_def MMIO_PREFIX_SIZE_def UNKNOWN_PREFIX_SIZE_def EXCEPTION_PREFIX_SIZE_def
  FAIL_ENTRY_PREFIX_SIZE_def INTERNAL_ERROR_BASE_PREFIX_SIZE_def INTERNAL_ERROR_PREFIX_SIZE_def
  SYSTEM_EVENT_PREFIX_SIZE_def


lemma required_prefix_size: "required_kvm_run_prefix_size = 168"
  by (simp add: required_kvm_run_prefix_size_def prefix_size_defs)

lemma exit_raw_round_trip: "exit_reason (exit_from_raw r) = r"
  by (simp add: exit_from_raw_def)

lemma raw_codes_round_trip:
  "suberror_raw (suberror_from_raw r) = r" "system_event_raw (system_event_from_raw r) = r"
  by (simp_all add: suberror_from_raw_def system_event_from_raw_def)

lemma run_prefix_Ok [simp]: "n \<le> length run \<Longrightarrow> run_prefix n run = Ok ()"
  by (simp add: run_prefix_def)

lemma run_exit_reason_Ok:
  "168 \<le> length run \<Longrightarrow> run_exit_reason run = Ok (run_field 8 4 run)"
  by (simp add: run_exit_reason_def prefix_size_defs)

lemma length_run_words [simp]: "length (run_words off n run) = n"
  by (simp add: run_words_def)

text \<open>The 64-bit product and sum of the range cannot wrap silently: the range is exact or refused.\<close>

lemma checked_io_data_range_eq:
  "checked_io_data_range vid io n =
     (let start = unat (raw_data_offset io); len = unat (raw_size io) * unat (raw_count io) in
      if start + len \<le> n \<and> start + len < 2 ^ 64 then Ok (start, start + len)
      else Err (VmExit (Exit_InvalidIoDataRange vid (raw_data_offset io) (raw_size io) (raw_count io) n)))"
proof -
  have "unat (ucast (raw_count io) :: u64) = unat (raw_count io)"
    using unat_lt [of "raw_count io"] by (simp add: unsigned_ucast_eq take_bit_nat_eq_self)
  then show ?thesis
    by (simp add: checked_io_data_range_def usize_checked_def USIZE_BITS_def Let_def not_less)
qed

lemma decode_direction_safe [simp]:
  "\<not> is_fault (decode_port_io_direction vid raw)" "\<not> is_fault (decode_mmio_direction vid w)"
  by (simp_all add: decode_port_io_direction_def decode_mmio_direction_def)

lemma checked_mmio_length_eq:
  "checked_mmio_length vid a n =
     (if 0 < unat n \<and> unat n \<le> 8 then Ok (unat n) else Err (VmExit (Exit_InvalidMmioLength vid a n 8)))"
proof -
  have "unat (ucast n :: u64) = unat n"
    using unat_lt [of n] by (simp add: unsigned_ucast_eq take_bit_nat_eq_self)
  then show ?thesis
    by (auto simp: checked_mmio_length_def Let_def not_less)
qed

lemma run_port_io_exit_safe: "168 \<le> length run \<Longrightarrow> \<not> is_fault (run_port_io_exit vid run)"
  by (auto simp: run_port_io_exit_def run_exit_reason_Ok Let_def checked_io_data_range_eq copy_from_run_def)

lemma run_port_io_exit_Ok:
  assumes "168 \<le> length run" and "run_port_io_exit vid run = Ok io"
  shows "pio_output_data io
      = (if pio_direction io = Io_Out then subslice run (fst (io_extent run)) (snd (io_extent run)) else [])"
    and "snd (io_extent run) \<le> length run"
    and "port_direction_raw (pio_direction io) = raw_direction (run_io run)"
    and "pio_size io = raw_size (run_io run)" "pio_port io = raw_port (run_io run)"
      "pio_count io = raw_count (run_io run)"
  using assms
  by (auto simp: run_port_io_exit_def run_exit_reason_Ok Let_def checked_io_data_range_eq outcome_simps
      copy_from_run_def io_extent_def subslice_def decode_port_io_direction_def split: if_splits)

lemma run_write_port_io_input_eq:
  assumes "168 \<le> length run"
  shows "run_write_port_io_input vid response run =
    (if run_field 8 4 run \<noteq> KVM_EXIT_IO
     then (Err (VmExit (Exit_IoPayloadUnavailable vid (run_field 8 4 run))), run)
     else case checked_io_response_range vid (run_io run) (length run) (length response) of
            Ok (start, end) \<Rightarrow> (Ok (), splice run start response)
          | Err e \<Rightarrow> (Err e, run) | Fault p \<Rightarrow> (Fault p, run))"
  using assms
  by (auto simp: run_write_port_io_input_def run_exit_reason_Ok checked_io_response_range_def
      checked_io_data_range_eq copy_to_run_def splice_def Let_def outcome_simps
      split: outcome.splits prod.splits if_splits)

lemma checked_io_response_range_Ok:
  "checked_io_response_range vid io n len = Ok (start, end) \<longleftrightarrow>
     raw_direction io = KVM_EXIT_IO_IN \<and> start = unat (raw_data_offset io) \<and> end = start + len
     \<and> len = unat (raw_size io) * unat (raw_count io) \<and> end \<le> n \<and> end < 2 ^ 64"
  by (auto simp: checked_io_response_range_def decode_port_io_direction_def checked_io_data_range_eq
      outcome_simps Let_def if_Err_Ok)

lemma checked_io_response_range_safe [simp]: "checked_io_response_range vid io n len \<noteq> Fault p"
proof -
  have "\<not> is_fault (checked_io_response_range vid io n len)"
    by (auto simp: checked_io_response_range_def checked_io_data_range_eq Let_def)
  then show ?thesis by auto
qed

lemma run_write_port_io_input_safe:
  assumes "168 \<le> length run" and "run_write_port_io_input vid response run = (r, run')"
  shows "\<not> is_fault r \<and> length run' = length run"
  using assms(2) unfolding run_write_port_io_input_eq [OF assms(1)]
  by (auto simp: checked_io_response_range_Ok length_splice split: if_splits outcome.splits)

lemma run_write_port_io_input_Ok:
  assumes "168 \<le> length run" and "run_write_port_io_input vid response run = (Ok u, run')"
  shows "raw_direction (run_io run) = KVM_EXIT_IO_IN"
    and "snd (io_extent run) = fst (io_extent run) + length response" "snd (io_extent run) \<le> length run"
    and "run' = splice run (fst (io_extent run)) response"
  using assms(2) unfolding run_write_port_io_input_eq [OF assms(1)]
  by (auto simp: checked_io_response_range_Ok io_extent_def Let_def split: if_splits outcome.splits)

lemma run_write_port_io_input_iff:
  assumes "168 \<le> length run" and "length run < 2 ^ 64"
  shows "fst (run_write_port_io_input vid response run) = Ok () \<longleftrightarrow>
    run_field 8 4 run = KVM_EXIT_IO \<and> raw_direction (run_io run) = KVM_EXIT_IO_IN
    \<and> fst (io_extent run) + length response \<le> length run
    \<and> length response = unat (raw_size (run_io run)) * unat (raw_count (run_io run))"
proof -
  let ?r = "checked_io_response_range vid (run_io run) (length run) (length response)"
  have "(\<exists>e. ?r = Ok e) \<longleftrightarrow> raw_direction (run_io run) = KVM_EXIT_IO_IN
      \<and> fst (io_extent run) + length response \<le> length run
      \<and> length response = unat (raw_size (run_io run)) * unat (raw_count (run_io run))"
    using assms(2) by (simp add: split_paired_Ex checked_io_response_range_Ok io_extent_def Let_def) linarith
  moreover have "fst (run_write_port_io_input vid response run) = Ok () \<longleftrightarrow>
      run_field 8 4 run = KVM_EXIT_IO \<and> (\<exists>e. ?r = Ok e)"
    by (cases ?r) (simp_all add: run_write_port_io_input_eq [OF assms(1)] split_def)
  ultimately show ?thesis by simp
qed

lemma length_run_mmio_data: "168 \<le> length run \<Longrightarrow> length (raw_data (run_mmio run)) = 8"
  by (simp add: run_mmio_def subslice_def)

lemma run_mmio_exit_safe: "168 \<le> length run \<Longrightarrow> \<not> is_fault (run_mmio_exit vid run)"
  by (auto simp: run_mmio_exit_def run_exit_reason_Ok prefix_size_defs decode_mmio_def
      checked_mmio_length_eq length_run_mmio_data)

lemma run_mmio_exit_Ok:
  assumes "168 \<le> length run" and "run_mmio_exit vid run = Ok x"
  shows "0 < unat (mx_length x) \<and> unat (mx_length x) \<le> 8"
    and "length (mx_write_data x) = (if mx_direction x = Mmio_Write then unat (mx_length x) else 0)"
    and "mx_write_data x
      = (if mx_direction x = Mmio_Write then subslice run 40 (40 + unat (mx_length x)) else [])"
    and "mx_address x = run_field 32 8 run" "mx_length x = run_field 48 4 run"
    and "mmio_direction_raw (mx_direction x) = run_field 52 1 run"
proof -
  from assms have d: "decode_mmio vid (run_mmio run) = Ok x"
    by (auto simp: run_mmio_exit_def run_exit_reason_Ok prefix_size_defs split: if_splits)
  then obtain dir where dir: "decode_mmio_direction vid (raw_is_write (run_mmio run)) = Ok dir"
    and len: "0 < unat (raw_len (run_mmio run))" "unat (raw_len (run_mmio run)) \<le> 8"
    and x: "x = \<lparr>mx_address = raw_phys_addr (run_mmio run), mx_direction = dir,
      mx_length = raw_len (run_mmio run), mx_write_data =
        (if dir = Mmio_Write then subslice (raw_data (run_mmio run)) 0 (unat (raw_len (run_mmio run))) else [])\<rparr>"
    by (auto simp: decode_mmio_def outcome_simps checked_mmio_length_eq index_range_def split: if_splits)
  from len x show "0 < unat (mx_length x) \<and> unat (mx_length x) \<le> 8" by simp
  from len x length_run_mmio_data [OF assms(1)]
  show "length (mx_write_data x) = (if mx_direction x = Mmio_Write then unat (mx_length x) else 0)"
    by (auto simp: subslice_def)
  from len x show "mx_write_data x
      = (if mx_direction x = Mmio_Write then subslice run 40 (40 + unat (mx_length x)) else [])"
    by (auto simp: run_mmio_def subslice_def min_def)
  from x show "mx_address x = run_field 32 8 run" "mx_length x = run_field 48 4 run"
    by (simp_all add: run_mmio_def)
  from x dir show "mmio_direction_raw (mx_direction x) = run_field 52 1 run"
    by (auto simp: run_mmio_def decode_mmio_direction_def split: if_splits)
qed

lemma run_write_mmio_read_response_wp:
  assumes "168 \<le> length run" and "run_write_mmio_read_response vid response run = (r, run')"
  shows "\<not> is_fault r \<and> (if r = Ok () then run' = splice run 40 response \<and> length response \<le> 8
      \<and> length response = unat (raw_len (run_mmio run)) \<and> raw_is_write (run_mmio run) = 0 else run' = run)"
  using assms length_run_mmio_data [OF assms(1)]
  by (auto simp: run_write_mmio_read_response_def run_exit_reason_Ok prefix_size_defs Let_def
      decode_mmio_direction_def checked_mmio_length_eq index_range_def split: if_splits)

lemma run_write_mmio_read_response_iff:
  assumes "168 \<le> length run"
  shows "fst (run_write_mmio_read_response vid response run) = Ok () \<longleftrightarrow>
    run_field 8 4 run = KVM_EXIT_MMIO \<and> raw_is_write (run_mmio run) = 0
    \<and> 0 < length response \<and> length response \<le> 8 \<and> length response = unat (raw_len (run_mmio run))"
  using assms length_run_mmio_data [OF assms]
  by (auto simp: run_write_mmio_read_response_def run_exit_reason_Ok prefix_size_defs Let_def
      decode_mmio_direction_def checked_mmio_length_eq index_range_def split: if_splits)

text \<open>What a response writer returns and leaves in the page.\<close>

lemma port_response_exact:
  assumes n: "168 \<le> length run" and "length run < 2 ^ 64" and w: "run_write_port_io_input vid response run = (r, run')"
  shows "\<not> is_fault r \<and> run' = (if r = Ok () then splice run (fst (io_extent run)) response else run)
    \<and> length run' = length run
    \<and> (r = Ok () \<longleftrightarrow> run_field 8 4 run = KVM_EXIT_IO \<and> raw_direction (run_io run) = KVM_EXIT_IO_IN
         \<and> fst (io_extent run) + length response \<le> length run
         \<and> length response = unat (raw_size (run_io run)) * unat (raw_count (run_io run)))"
proof -
  have "run' = (if r = Ok () then splice run (fst (io_extent run)) response else run)"
    using w run_write_port_io_input_Ok(4) [OF n, of vid response "()" run']
    by (auto simp: run_write_port_io_input_eq [OF n] split: if_splits outcome.splits)
  moreover note run_write_port_io_input_safe [OF n w]
    run_write_port_io_input_iff [OF n assms(2), of vid response, unfolded w fst_conv]
  ultimately show ?thesis by (intro conjI) (elim conjE; assumption)+
qed

lemma mmio_response_exact:
  assumes n: "168 \<le> length run" and w: "run_write_mmio_read_response vid response run = (r, run')"
  shows "\<not> is_fault r \<and> run' = (if r = Ok () then splice run 40 response else run) \<and> length run' = length run
    \<and> (r = Ok () \<longleftrightarrow> run_field 8 4 run = KVM_EXIT_MMIO \<and> raw_is_write (run_mmio run) = 0
         \<and> 0 < length response \<and> length response \<le> 8 \<and> length response = unat (raw_len (run_mmio run)))"
proof -
  have "\<not> is_fault r" "run' = (if r = Ok () then splice run 40 response else run)" "length run' = length run"
    using run_write_mmio_read_response_wp [OF n w] n by (auto split: if_splits)
  then show ?thesis
    using run_write_mmio_read_response_iff [OF n, of vid response, unfolded w fst_conv] by (intro conjI)
qed

lemma other_payloads_safe:
  assumes "168 \<le> length run"
  shows "\<not> is_fault (run_kvm_unknown_exit vid run)" "\<not> is_fault (run_exception vid run)"
    "\<not> is_fault (run_fail_entry vid run)" "\<not> is_fault (run_internal_error vid b run)"
    "\<not> is_fault (run_system_event vid run)"
  using assms
  by (auto simp: run_kvm_unknown_exit_def run_exception_def run_fail_entry_def run_internal_error_def
      run_system_event_def run_exit_reason_Ok prefix_size_defs decode_internal_error_with_data_def
      decode_system_event_def)

lemma example_io_page_fields:
  "length (example_io_page d) = 256" "run_field 8 4 (example_io_page d) = (KVM_EXIT_IO :: u32)"
  "run_io (example_io_page d) = \<lparr>raw_direction = d, raw_size = 1, raw_port = 0xE9, raw_count = 1,
     raw_data_offset = 200\<rparr>"
  by (simp_all add: example_io_page_def run_io_def run_field_def from_le_bytes_def subslice_def)

section \<open>Properties\<close>

text \<open>
  C23. Whatever KVM or the guest left in the shared page, decoding it is safe: on a mapping that
  \<open>KvmRunMapping::map\<close> accepted, no exit decoder panics or reads outside the mapping, and the two
  response writers neither panic nor write outside it.  A port response is accepted exactly for an
  input exit whose announced range, of size times count bytes, lies in the mapping and is as long as
  the response; an MMIO response exactly for a read exit whose announced length, one to eight bytes,
  is that of the response.  An accepted response replaces exactly the announced range, a refused one
  leaves the page unchanged.
\<close>

theorem kvm_run_page_safe:
  assumes "required_kvm_run_prefix_size \<le> length run" and "length run < 2 ^ 64"
  shows "\<not> is_fault (run_port_io_exit vid run) \<and> \<not> is_fault (run_mmio_exit vid run)
    \<and> \<not> is_fault (run_kvm_unknown_exit vid run) \<and> \<not> is_fault (run_exception vid run)
    \<and> \<not> is_fault (run_fail_entry vid run) \<and> \<not> is_fault (run_internal_error vid b run)
    \<and> \<not> is_fault (run_system_event vid run)
    \<and> (\<forall>r run'. run_write_port_io_input vid response run = (r, run') \<longrightarrow> \<not> is_fault r
        \<and> run' = (if r = Ok () then splice run (fst (io_extent run)) response else run)
        \<and> length run' = length run
        \<and> (r = Ok () \<longleftrightarrow> run_field 8 4 run = KVM_EXIT_IO \<and> raw_direction (run_io run) = KVM_EXIT_IO_IN
             \<and> fst (io_extent run) + length response \<le> length run
             \<and> length response = unat (raw_size (run_io run)) * unat (raw_count (run_io run))))
    \<and> (\<forall>r run'. run_write_mmio_read_response vid response run = (r, run') \<longrightarrow> \<not> is_fault r
        \<and> run' = (if r = Ok () then splice run 40 response else run) \<and> length run' = length run
        \<and> (r = Ok () \<longleftrightarrow> run_field 8 4 run = KVM_EXIT_MMIO \<and> raw_is_write (run_mmio run) = 0
             \<and> 0 < length response \<and> length response \<le> 8
             \<and> length response = unat (raw_len (run_mmio run))))"
proof -
  have n: "168 \<le> length run" using assms by (simp add: required_prefix_size)
  show ?thesis
    by (intro conjI run_port_io_exit_safe [OF n] run_mmio_exit_safe [OF n] other_payloads_safe [OF n])
      (intro allI impI, erule port_response_exact [OF n assms(2)] mmio_response_exact [OF n])+
qed

theorem kvm_run_page_safe_witness:
  "\<not> is_fault (run_port_io_exit 0 (replicate 200 0xFF))
   \<and> \<not> is_fault (run_system_event 0 (replicate 200 0xFF))"
  using kvm_run_page_safe [of "replicate 200 0xFF" 0 False "[]"] by (simp add: required_prefix_size)

text \<open>
  C24. What a port I/O exit contains: the decoder succeeds exactly when the page holds an I/O exit with
  a valid direction whose data range lies in the mapping, and it then returns the fields of the page
  and, for an output, exactly the bytes of that range.
\<close>

theorem port_io_exit_iff:
  assumes "required_kvm_run_prefix_size \<le> length run" and "length run < 2 ^ 64"
  shows "run_port_io_exit vid run = Ok io \<longleftrightarrow>
    run_field 8 4 run = KVM_EXIT_IO \<and> raw_direction (run_io run) \<in> {KVM_EXIT_IO_IN, KVM_EXIT_IO_OUT}
    \<and> snd (io_extent run) \<le> length run
    \<and> port_direction_raw (pio_direction io) = raw_direction (run_io run)
    \<and> pio_size io = raw_size (run_io run) \<and> pio_port io = raw_port (run_io run)
    \<and> pio_count io = raw_count (run_io run)
    \<and> pio_output_data io = (if pio_direction io = Io_Out
         then subslice run (fst (io_extent run)) (snd (io_extent run)) else [])"
    (is "?decoded \<longleftrightarrow> ?fields")
proof
  have n: "168 \<le> length run" using assms(1) by (simp add: required_prefix_size)
  { assume d: ?decoded
    then have "run_field 8 4 run = KVM_EXIT_IO" "raw_direction (run_io run) \<in> {KVM_EXIT_IO_IN, KVM_EXIT_IO_OUT}"
      using n by (auto simp: run_port_io_exit_def run_exit_reason_Ok Let_def outcome_simps
          decode_port_io_direction_def split: if_splits)
    with run_port_io_exit_Ok [OF n d] show ?fields by simp }
  { assume f: ?fields
    then have "decode_port_io_direction vid (raw_direction (run_io run)) = Ok (pio_direction io)"
      by (cases "pio_direction io") (auto simp: decode_port_io_direction_def)
    moreover have "checked_io_data_range vid (run_io run) (length run) = Ok (io_extent run)"
      using f assms(2) by (simp add: checked_io_data_range_eq io_extent_def Let_def)
    ultimately show ?decoded
      using f n
      by (cases io) (auto simp: run_port_io_exit_def run_exit_reason_Ok Let_def copy_from_run_def
          subslice_def split: prod.splits) }
qed

theorem port_io_exit_iff_witness:
  "run_port_io_exit 0 (example_io_page 1)
     = Ok \<lparr>pio_direction = Io_Out, pio_size = 1, pio_port = 0xE9, pio_count = 1, pio_output_data = [0x4B]\<rparr>"
  using port_io_exit_iff [of "example_io_page 1" 0
    "\<lparr>pio_direction = Io_Out, pio_size = 1, pio_port = 0xE9, pio_count = 1, pio_output_data = [0x4B]\<rparr>"]
  by (simp add: example_io_page_fields required_prefix_size io_extent_def)
    (simp add: example_io_page_def subslice_def)

end
