(* ===== verification/Guest_Memory.thy ===== *)
theory Guest_Memory
  imports Errors
begin

text \<open>
  Guest RAM (\<open>src/src/memory.rs\<close>): a page-aligned region of guest physical addresses, the host
  mapping behind it, and the checked reads and writes.  The mapping is a length and a byte for every
  offset.  The copies of the \<open>unsafe\<close> blocks have undefined behaviour outside the mapping, and the
  model says so; the safety theorems show that this branch is never taken.

  The locale \<open>guest_ram\<close> is the contract the device models rely on: what a read returns after a
  write, that a successful read of a range means a write of it succeeds, and that a failed access
  changes nothing.  It is interpreted on the definitions below.
\<close>

section \<open>Region and memory\<close>

definition KVM_MEMORY_ALIGNMENT :: u64 where
  "KVM_MEMORY_ALIGNMENT = 4096"

record guest_memory_region =
  region_base :: u64
  region_size :: u64

definition region_new :: "u64 \<Rightarrow> u64 \<Rightarrow> (guest_memory_region, vm_error) outcome" where
  "region_new base sz =
     (if sz = 0 then Err (GuestMemory ZeroSizedRegion)
      else if base mod KVM_MEMORY_ALIGNMENT \<noteq> 0 then
        Err (GuestMemory (MisalignedRegion ''guest physical base'' base KVM_MEMORY_ALIGNMENT))
      else if sz mod KVM_MEMORY_ALIGNMENT \<noteq> 0 then
        Err (GuestMemory (MisalignedRegion ''memory size'' sz KVM_MEMORY_ALIGNMENT))
      else and_then (ok_or (checked_add base sz) (GuestMemory (AddressSpaceOverflow base sz)))
        (\<lambda>_. Ok \<lparr>region_base = base, region_size = sz\<rparr>))"

definition region_end :: "guest_memory_region \<Rightarrow> (u64, 'e) outcome" where
  "region_end r = expect (checked_add (region_base r) (region_size r))"

definition region_overlaps ::
  "guest_memory_region \<Rightarrow> guest_memory_region \<Rightarrow> (bool, 'e) outcome" where
  "region_overlaps r other =
     and_then (region_end other) (\<lambda>other_end.
     if region_base r < other_end
     then and_then (region_end r) (\<lambda>self_end. Ok (region_base other < self_end))
     else Ok False)"

definition checked_offset ::
  "guest_memory_region \<Rightarrow> u64 \<Rightarrow> usize \<Rightarrow> (usize, vm_error) outcome" where
  "checked_offset r address len =
     and_then (ok_or (u64_try_from_usize len) (GuestMemory (AccessLengthTooLarge len))) (\<lambda>length_u64.
     and_then (ok_or (checked_add address length_u64) (GuestMemory (AccessOverflow address len)))
       (\<lambda>access_end.
     and_then (region_end r) (\<lambda>end_of_region.
     if address < region_base r \<or> access_end > end_of_region
        \<or> (len \<noteq> 0 \<and> address \<ge> end_of_region)
     then Err (GuestMemory (AccessOutOfBounds address len (region_base r) (region_size r)))
     else and_then (expect (checked_sub address (region_base r))) (\<lambda>offset.
       ok_or (usize_try_from_u64 offset) (GuestMemory (HostSizeOverflow offset))))))"

record ram_mapping =
  ram_len :: usize
  ram_bytes :: "nat \<Rightarrow> u8"

record guest_memory =
  mem_region :: guest_memory_region
  mem_mapping :: ram_mapping

text \<open>
  \<open>RamMapping::new\<close> is a call of \<open>mmap\<close>, a parameter here: it returns a mapping of the requested
  length or an error of the operating system.
\<close>

definition memory_new ::
  "(usize \<Rightarrow> (ram_mapping, io_error) outcome) \<Rightarrow> u64 \<Rightarrow> u64 \<Rightarrow> (guest_memory, vm_error) outcome"
where
  "memory_new mmap base sz =
     and_then (region_new base sz) (\<lambda>region.
     and_then (ok_or (usize_try_from_u64 sz) (GuestMemory (HostSizeOverflow sz))) (\<lambda>host_size.
     and_then (map_err (\<lambda>source. GuestMemory (Memory_Mapping source)) (mmap host_size)) (\<lambda>mapping.
     Ok \<lparr>mem_region = region, mem_mapping = mapping\<rparr>)))"

definition zeroed_mapping :: "usize \<Rightarrow> (ram_mapping, io_error) outcome" where
  "zeroed_mapping len = Ok \<lparr>ram_len = len, ram_bytes = (\<lambda>_. 0)\<rparr>"

text \<open>The two copies between a host buffer and the mapping.\<close>

definition copy_from_mapping :: "ram_mapping \<Rightarrow> nat \<Rightarrow> nat \<Rightarrow> (u8 list, 'e) outcome" where
  "copy_from_mapping m off len =
     (if off + len \<le> ram_len m then Ok (map (ram_bytes m) [off..<off + len])
      else Fault Undefined_Behaviour)"

definition copy_to_mapping :: "nat \<Rightarrow> u8 list \<Rightarrow> ram_mapping \<Rightarrow> (unit, 'e) outcome \<times> ram_mapping" where
  "copy_to_mapping off bs m =
     (if off + length bs \<le> ram_len m
      then (Ok (), m\<lparr>ram_bytes := (\<lambda>i. if off \<le> i \<and> i < off + length bs then bs ! (i - off)
                                       else ram_bytes m i)\<rparr>)
      else (Fault Undefined_Behaviour, m))"

definition mem_read :: "guest_memory \<Rightarrow> u64 \<Rightarrow> usize \<Rightarrow> (u8 list, vm_error) outcome" where
  "mem_read m address len =
     and_then (checked_offset (mem_region m) address len) (\<lambda>offset.
     if len = 0 then Ok [] else copy_from_mapping (mem_mapping m) offset len)"

definition mem_write :: "u64 \<Rightarrow> u8 list \<Rightarrow> (guest_memory, unit, vm_error) op" where
  "mem_write address source m =
     (case checked_offset (mem_region m) address (length source) of
        Err e \<Rightarrow> (Err e, m)
      | Fault p \<Rightarrow> (Fault p, m)
      | Ok offset \<Rightarrow>
          (if source = [] then (Ok (), m)
           else let (r, mapping) = copy_to_mapping offset source (mem_mapping m)
                in (r, m\<lparr>mem_mapping := mapping\<rparr>)))"

text \<open>The invariant that the constructors establish.\<close>

definition region_wf :: "guest_memory_region \<Rightarrow> bool" where
  "region_wf r \<longleftrightarrow>
     region_size r \<noteq> 0 \<and> region_base r mod KVM_MEMORY_ALIGNMENT = 0
     \<and> region_size r mod KVM_MEMORY_ALIGNMENT = 0
     \<and> unat (region_base r) + unat (region_size r) < 2 ^ 64"

definition memory_wf :: "guest_memory \<Rightarrow> bool" where
  "memory_wf m \<longleftrightarrow> region_wf (mem_region m) \<and> ram_len (mem_mapping m) = unat (region_size (mem_region m))"

text \<open>The addresses a region accepts, as a set of naturals: the abstract view of the checks.\<close>

definition in_region :: "guest_memory_region \<Rightarrow> u64 \<Rightarrow> nat \<Rightarrow> bool" where
  "in_region r address len \<longleftrightarrow>
     unat (region_base r) \<le> unat address
     \<and> unat address + len \<le> unat (region_base r) + unat (region_size r)"

text \<open>The byte of guest RAM at a guest physical address.\<close>

definition guest_byte :: "guest_memory \<Rightarrow> nat \<Rightarrow> u8" where
  "guest_byte m address = ram_bytes (mem_mapping m) (address - unat (region_base (mem_region m)))"

text \<open>The bytes of a range of guest physical addresses, if the range lies in guest RAM.\<close>

definition in_ram :: "guest_memory \<Rightarrow> nat \<Rightarrow> nat \<Rightarrow> bool" where
  "in_ram m a n \<longleftrightarrow>
     unat (region_base (mem_region m)) \<le> a
     \<and> a + n \<le> unat (region_base (mem_region m)) + unat (region_size (mem_region m))"

definition ram_slice :: "guest_memory \<Rightarrow> nat \<Rightarrow> nat \<Rightarrow> u8 list option" where
  "ram_slice m a n = (if in_ram m a n then Some (map (guest_byte m) [a..<a + n]) else None)"

text \<open>Guest RAM after a write that the region accepts.\<close>

definition poke :: "u64 \<Rightarrow> u8 list \<Rightarrow> guest_memory \<Rightarrow> guest_memory" where
  "poke address bs m =
     (if bs = [] then m
      else m\<lparr>mem_mapping := snd (copy_to_mapping (unat address - unat (region_base (mem_region m)))
                                   bs (mem_mapping m) :: (unit, vm_error) outcome \<times> ram_mapping)\<rparr>)"

text \<open>A page of guest RAM at address 0 with the given non-zero bytes, for concrete runs.\<close>

definition example_ram :: "(nat \<times> u8) list \<Rightarrow> guest_memory" where
  "example_ram content =
     \<lparr>mem_region = \<lparr>region_base = 0, region_size = 4096\<rparr>,
      mem_mapping = \<lparr>ram_len = 4096,
        ram_bytes = (\<lambda>i. case map_of content i of Some b \<Rightarrow> b | None \<Rightarrow> 0)\<rparr>\<rparr>"

section \<open>Region checks\<close>

lemma region_newE:
  assumes "region_new base sz = Ok r"
  obtains "sz \<noteq> 0" "base mod KVM_MEMORY_ALIGNMENT = 0" "sz mod KVM_MEMORY_ALIGNMENT = 0"
    "unat base + unat sz < 2 ^ 64" "r = \<lparr>region_base = base, region_size = sz\<rparr>"
  using assms by (simp add: region_new_def outcome_simps split: if_splits)

lemma region_new_Ok:
  "region_new base sz = Ok r \<Longrightarrow>
     region_wf r \<and> region_base r = base \<and> region_size r = sz"
  by (elim region_newE) (simp add: region_wf_def)

lemma region_new_complete:
  "region_wf \<lparr>region_base = base, region_size = sz\<rparr> \<Longrightarrow>
     region_new base sz = Ok \<lparr>region_base = base, region_size = sz\<rparr>"
  by (simp add: region_new_def region_wf_def checked_add_def)

lemma region_end_wf: "region_wf r \<Longrightarrow> region_end r = Ok (region_base r + region_size r)"
  by (simp add: region_end_def region_wf_def checked_add_def)

lemma unat_region_end:
  "region_wf r \<Longrightarrow> unat (region_base r + region_size r) = unat (region_base r) + unat (region_size r)"
  by (simp add: region_wf_def unat_add_small)

lemma checked_offset_iff:
  assumes "region_wf r"
  shows "checked_offset r address len = Ok off \<longleftrightarrow>
           in_region r address len \<and> off = unat address - unat (region_base r)"
proof -
  have bound: "unat (region_base r) + unat (region_size r) < 2 ^ 64"
    using assms by (simp add: region_wf_def)
  show ?thesis
  proof (cases "unat address + len < 2 ^ 64")
    case True
    then have "unat (of_nat len :: u64) = len"
      by (simp add: unat_of_nat take_bit_eq_mod)
    with True assms show ?thesis
      unfolding checked_offset_def
      by (auto simp: outcome_simps region_end_wf checked_add_def unat_add_small in_region_def
          u64_try_from_usize_def checked_sub_def word_le_nat_alt word_less_nat_alt unat_region_end
          unat_sub split: if_splits)
  next
    case False
    then have "\<not> in_region r address len"
      using bound by (simp add: in_region_def)
    moreover have "checked_offset r address len \<noteq> Ok off"
    proof
      assume "checked_offset r address len = Ok off"
      then have "len < 2 ^ 64" and "unat address + unat (of_nat len :: u64) < 2 ^ 64"
        by (auto simp: checked_offset_def outcome_simps u64_try_from_usize_def checked_add_def
            split: if_splits)
      with False show False
        by (simp add: unat_of_nat take_bit_eq_mod)
    qed
    ultimately show ?thesis by simp
  qed
qed

lemma checked_offset_no_fault: "region_wf r \<Longrightarrow> \<not> is_fault (checked_offset r address len)"
  by (auto simp: checked_offset_def region_end_wf outcome_simps checked_sub_def not_less)

lemma checked_offset_inside:
  "region_wf r \<Longrightarrow> in_region r address len \<Longrightarrow>
     checked_offset r address len = Ok (unat address - unat (region_base r))"
  by (simp add: checked_offset_iff)

lemma checked_offset_cases:
  assumes "region_wf r"
  obtains (inside) "in_region r address len"
      "checked_offset r address len = Ok (unat address - unat (region_base r))"
    | (outside) e where "\<not> in_region r address len" "checked_offset r address len = Err e"
proof (cases "checked_offset r address len")
  case (Ok off)
  then show ?thesis using checked_offset_iff [OF assms] inside by blast
next
  case (Err e)
  then show ?thesis
    using checked_offset_iff [OF assms, of address len] outside by (metis outcome.distinct(1))
next
  case (Fault p)
  then show ?thesis using checked_offset_no_fault [OF assms, of address len] by simp
qed

section \<open>Reads and writes\<close>

lemma in_region_offset:
  "memory_wf m \<Longrightarrow> in_region (mem_region m) address len \<Longrightarrow>
     unat address - unat (region_base (mem_region m)) + len \<le> ram_len (mem_mapping m)"
  by (auto simp: memory_wf_def in_region_def)

lemma mem_read_inside:
  assumes "memory_wf m" and "in_region (mem_region m) address len"
  shows "mem_read m address len = Ok (map (guest_byte m) [unat address..<unat address + len])"
proof -
  let ?b = "unat (region_base (mem_region m))"
  have wf: "region_wf (mem_region m)" and le: "?b \<le> unat address"
    using assms by (simp_all add: memory_wf_def in_region_def)
  have "map (ram_bytes (mem_mapping m)) [unat address - ?b..<unat address - ?b + len]
      = map (guest_byte m) [unat address..<unat address + len]"
    using le by (intro nth_equalityI) (auto simp: guest_byte_def)
  then show ?thesis
    using in_region_offset [OF assms] checked_offset_inside [OF wf assms(2)]
    by (simp add: mem_read_def copy_from_mapping_def)
qed

lemma mem_read_Ok_iff:
  assumes "memory_wf m"
  shows "mem_read m address len = Ok bs \<longleftrightarrow>
           in_region (mem_region m) address len
           \<and> bs = map (guest_byte m) [unat address..<unat address + len]"
proof -
  have wf: "region_wf (mem_region m)" using assms by (simp add: memory_wf_def)
  show ?thesis
    by (rule checked_offset_cases [OF wf, of address len])
      (auto simp: mem_read_inside [OF assms], simp add: mem_read_def)
qed

lemma mem_read_no_fault: "memory_wf m \<Longrightarrow> \<not> is_fault (mem_read m address len)"
proof -
  assume m: "memory_wf m"
  then have wf: "region_wf (mem_region m)" by (simp add: memory_wf_def)
  show ?thesis
    by (rule checked_offset_cases [OF wf, of address len])
      (simp_all add: mem_read_inside [OF m], simp add: mem_read_def)
qed

lemma mem_write_inside:
  assumes "memory_wf m" and "in_region (mem_region m) address (length bs)"
  shows "mem_write address bs m = (Ok (), poke address bs m)"
proof -
  have wf: "region_wf (mem_region m)" using assms by (simp add: memory_wf_def)
  then show ?thesis
    using in_region_offset [OF assms] checked_offset_inside [OF wf assms(2)]
    by (simp add: mem_write_def poke_def copy_to_mapping_def)
qed

lemma mem_write_outside:
  assumes "memory_wf m" and "\<not> in_region (mem_region m) address (length bs)"
  obtains e where "mem_write address bs m = (Err e, m)"
proof -
  have wf: "region_wf (mem_region m)" using assms by (simp add: memory_wf_def)
  show ?thesis
    by (rule checked_offset_cases [OF wf, of address "length bs"])
      (use assms that in \<open>auto simp: mem_write_def\<close>)
qed

lemma mem_write_Ok_iff:
  assumes "memory_wf m"
  shows "mem_write address bs m = (Ok u, m') \<longleftrightarrow>
           in_region (mem_region m) address (length bs) \<and> m' = poke address bs m"
proof (cases "in_region (mem_region m) address (length bs)")
  case True
  then show ?thesis by (auto simp: mem_write_inside [OF assms])
next
  case False
  then obtain e where "mem_write address bs m = (Err e, m)"
    using mem_write_outside [OF assms] by blast
  with False show ?thesis by simp
qed

lemma mem_write_Err:
  "memory_wf m \<Longrightarrow> mem_write address bs m = (Err e, m') \<Longrightarrow>
     m' = m \<and> \<not> in_region (mem_region m) address (length bs)"
  by (cases "in_region (mem_region m) address (length bs)")
    (auto simp: mem_write_inside elim: mem_write_outside)

lemma mem_write_no_fault: "memory_wf m \<Longrightarrow> \<not> is_fault (fst (mem_write address bs m))"
  by (cases "in_region (mem_region m) address (length bs)")
    (auto simp: mem_write_inside elim!: mem_write_outside)

lemma poke_region [simp]: "mem_region (poke address bs m) = mem_region m"
  by (simp add: poke_def)

lemma poke_len [simp]: "ram_len (mem_mapping (poke address bs m)) = ram_len (mem_mapping m)"
  by (simp add: poke_def copy_to_mapping_def)

lemma poke_wf [simp]: "memory_wf (poke address bs m) = memory_wf m"
  by (simp add: memory_wf_def)

lemma guest_byte_poke:
  assumes "memory_wf m" and "in_region (mem_region m) address (length bs)"
    and "unat (region_base (mem_region m)) \<le> x"
  shows "guest_byte (poke address bs m) x =
           (if unat address \<le> x \<and> x < unat address + length bs
            then bs ! (x - unat address) else guest_byte m x)"
proof -
  let ?b = "unat (region_base (mem_region m))"
  have "?b \<le> unat address" using assms(2) by (simp add: in_region_def)
  then have "(unat address - ?b \<le> x - ?b \<and> x - ?b < unat address - ?b + length bs)
      = (unat address \<le> x \<and> x < unat address + length bs)"
    and "x - ?b - (unat address - ?b) = x - unat address"
    using assms(3) by arith+
  then show ?thesis
    using in_region_offset [OF assms(1,2)]
    by (cases "bs = []") (auto simp: guest_byte_def poke_def copy_to_mapping_def)
qed

text \<open>
  The checked address arithmetic of the device models in front of an access: the access succeeds
  exactly when the range, computed without wrap-around, lies in guest RAM.
\<close>

lemma in_region_slice: "in_region (mem_region m) a n \<longleftrightarrow> in_ram m (unat a) n"
  by (simp add: in_region_def in_ram_def)

lemma in_ram_poke [simp]: "in_ram (poke a bs m) b n = in_ram m b n"
  by (simp add: in_ram_def)

lemma ram_slice_in_ram: "ram_slice m a n = Some bs \<Longrightarrow> in_ram m a n"
  by (simp add: ram_slice_def split: if_splits)

lemma mem_read_slice: "memory_wf m \<Longrightarrow> mem_read m a n = Ok bs \<longleftrightarrow> ram_slice m (unat a) n = Some bs"
  by (auto simp: mem_read_Ok_iff in_region_slice ram_slice_def)

lemma ram_slice_no_wrap:
  "memory_wf m \<Longrightarrow> in_ram m (unat (a :: u64) + unat (b :: u64)) n \<Longrightarrow>
     checked_add a b = Some (a + b)"
  by (auto simp: in_ram_def memory_wf_def region_wf_def checked_add_def split: if_splits)

lemma checked_read_slice:
  assumes "memory_wf m"
  shows "checked_add a b = Some (a + b) \<and> mem_read m (a + b) n = Ok bs \<longleftrightarrow>
           ram_slice m (unat a + unat b) n = Some bs"
proof (cases "checked_add a b")
  case None
  then have "\<not> in_ram m (unat a + unat b) n"
    using ram_slice_no_wrap [OF assms, of a b n] by auto
  then have "ram_slice m (unat a + unat b) n \<noteq> Some bs" by (simp add: ram_slice_def)
  with None show ?thesis by simp
next
  case (Some c)
  then have "c = a + b" and "unat (a + b) = unat a + unat b"
    by (auto simp: outcome_simps unat_add_small)
  with Some show ?thesis by (simp add: mem_read_slice [OF assms])
qed

lemma checked_write_slice:
  assumes "memory_wf m"
  shows "checked_add a b = Some (a + b) \<and> in_region (mem_region m) (a + b) n \<longleftrightarrow>
           in_ram m (unat a + unat b) n"
proof (cases "checked_add a b")
  case None
  then show ?thesis using ram_slice_no_wrap [OF assms, of a b n] by (metis option.distinct(1))
next
  case (Some c)
  then have "c = a + b" and "unat (a + b) = unat a + unat b"
    by (auto simp: outcome_simps unat_add_small)
  with Some show ?thesis by (simp add: in_region_slice)
qed

lemma and_then_checked_read:
  assumes "memory_wf m"
  shows "and_then (ok_or (checked_add a b) e) (\<lambda>x. and_then (map_err E (mem_read m x n)) k) = Ok y \<longleftrightarrow>
           (\<exists>bs. ram_slice m (unat a + unat b) n = Some bs \<and> k bs = Ok y)"
  unfolding checked_read_slice [OF assms, symmetric] and_then_Ok ok_or_Ok map_err_Ok
  by (metis checked_add_Some)

lemma op_write_slice:
  assumes "memory_wf m"
  shows "in_ram m (unat a) (length bs) \<Longrightarrow>
           op_then (op_map_err E (mem_write a bs)) k m = k () (poke a bs m)"
    and "\<not> in_ram m (unat a) (length bs) \<Longrightarrow>
           \<exists>e. op_then (op_map_err E (mem_write a bs)) k m = (Err e, m)"
proof -
  show "op_then (op_map_err E (mem_write a bs)) k m = k () (poke a bs m)"
    if "in_ram m (unat a) (length bs)"
    using that in_region_slice [of m a "length bs"] mem_write_inside [OF assms, of a bs]
    by (simp add: op_then_def op_map_err_def)
  show "\<exists>e. op_then (op_map_err E (mem_write a bs)) k m = (Err e, m)"
    if none: "\<not> in_ram m (unat a) (length bs)"
  proof -
    from none have "\<not> in_region (mem_region m) a (length bs)" by (simp add: in_region_slice)
    then obtain e where "mem_write a bs m = (Err e, m)" using mem_write_outside [OF assms] by blast
    then show ?thesis by (simp add: op_then_def op_map_err_def)
  qed
qed

lemma op_checked_write_slice:
  assumes "memory_wf m"
  shows "in_ram m (unat a + unat b) (length bs) \<Longrightarrow>
           op_then (op_lift (ok_or (checked_add a b) e))
             (\<lambda>x. op_then (op_map_err E (mem_write x bs)) k) m = k () (poke (a + b) bs m)"
    and "\<not> in_ram m (unat a + unat b) (length bs) \<Longrightarrow>
           \<exists>e'. op_then (op_lift (ok_or (checked_add a b) e))
             (\<lambda>x. op_then (op_map_err E (mem_write x bs)) k) m = (Err e', m)"
proof -
  assume s: "in_ram m (unat a + unat b) (length bs)"
  then have c: "checked_add a b = Some (a + b)" by (rule ram_slice_no_wrap [OF assms])
  then have "unat (a + b) = unat a + unat b" by (simp add: outcome_simps unat_add_small)
  with s c show "op_then (op_lift (ok_or (checked_add a b) e))
      (\<lambda>x. op_then (op_map_err E (mem_write x bs)) k) m = k () (poke (a + b) bs m)"
    using op_write_slice(1) [OF assms, of "a + b" bs E k] by (simp add: op_then_def op_lift_def)
next
  assume s: "\<not> in_ram m (unat a + unat b) (length bs)"
  show "\<exists>e'. op_then (op_lift (ok_or (checked_add a b) e))
      (\<lambda>x. op_then (op_map_err E (mem_write x bs)) k) m = (Err e', m)"
  proof (cases "checked_add a b")
    case None
    then show ?thesis by (simp add: op_then_def op_lift_def)
  next
    case (Some c)
    then have "c = a + b" "unat (a + b) = unat a + unat b"
      by (auto simp: outcome_simps unat_add_small)
    with s Some show ?thesis
      using op_write_slice(2) [OF assms, of "a + b" bs E k] by (simp add: op_then_def op_lift_def)
  qed
qed

lemma ram_slice_length: "ram_slice m a n = Some bs \<Longrightarrow> length bs = n"
  by (auto simp: ram_slice_def split: if_splits)

lemma ram_slice_poke_same:
  assumes "memory_wf m" and "in_region (mem_region m) a (length bs)"
  shows "ram_slice (poke a bs m) (unat a) (length bs) = Some bs"
proof -
  have "map (guest_byte (poke a bs m)) [unat a..<unat a + length bs] = bs"
    by (rule nth_equalityI) (use assms in \<open>auto simp: guest_byte_poke in_region_def\<close>)
  with assms show ?thesis by (simp add: ram_slice_def in_region_slice)
qed

lemma ram_slice_poke_other:
  assumes "memory_wf m" and "in_region (mem_region m) a (length bs)"
    and "unat a + length bs \<le> b \<or> b + n \<le> unat a"
  shows "ram_slice (poke a bs m) b n = ram_slice m b n"
  using assms by (auto simp: ram_slice_def in_ram_def guest_byte_poke)

lemma mem_write_wf:
  "memory_wf m \<Longrightarrow> mem_write address bs m = (r, m') \<Longrightarrow>
     memory_wf m' \<and> mem_region m' = mem_region m"
  using mem_write_Ok_iff [of m address bs "()" m'] mem_write_Err [of m address bs _ m']
    mem_write_no_fault [of m address bs]
  by (cases r) auto

lemma op_safe_mem_write: "op_safe memory_wf (op_map_err E (mem_write address bs))"
proof (rule op_safe_map_err, unfold op_safe_def, intro allI impI)
  fix m r m' assume m: "memory_wf m" and w: "mem_write address bs m = (r, m')"
  show "memory_wf m' \<and> \<not> is_fault r"
    using mem_write_wf [OF m w] mem_write_no_fault [OF m, of address bs] w by simp
qed

lemma example_ram_wf: "memory_wf (example_ram content)"
  by (simp add: memory_wf_def region_wf_def example_ram_def KVM_MEMORY_ALIGNMENT_def)

section \<open>The contract of guest RAM\<close>

text \<open>
  What a device model may rely on.  \<open>rd\<close> and \<open>wr\<close> are the checked accesses, \<open>wf\<close> the invariant
  and \<open>byte\<close> the content by guest physical address.
\<close>

locale guest_ram =
  fixes rd :: "'m \<Rightarrow> u64 \<Rightarrow> usize \<Rightarrow> (u8 list, 'e) outcome"
    and wr :: "u64 \<Rightarrow> u8 list \<Rightarrow> ('m, unit, 'e) op"
    and wf :: "'m \<Rightarrow> bool"
    and valid :: "'m \<Rightarrow> u64 \<Rightarrow> nat \<Rightarrow> bool"
    and byte :: "'m \<Rightarrow> nat \<Rightarrow> u8"
  assumes rd_Ok: "wf m \<Longrightarrow> rd m a n = Ok bs \<longleftrightarrow>
        valid m a n \<and> bs = map (byte m) [unat a..<unat a + n]"
    and rd_safe: "wf m \<Longrightarrow> \<not> is_fault (rd m a n)"
    and wr_safe: "wf m \<Longrightarrow> \<not> is_fault (fst (wr a xs m))"
    and wr_Ok: "wf m \<Longrightarrow> (\<exists>m'. wr a xs m = (Ok (), m')) \<longleftrightarrow> valid m a (length xs)"
    and wr_Err: "wf m \<Longrightarrow> wr a xs m = (Err e, m') \<Longrightarrow> m' = m"
    and wr_wf: "wf m \<Longrightarrow> wr a xs m = (r, m') \<Longrightarrow> wf m'"
    and wr_valid: "wf m \<Longrightarrow> wr a xs m = (r, m') \<Longrightarrow> valid m' b n = valid m b n"
    and wr_byte: "wf m \<Longrightarrow> wr a xs m = (Ok u, m') \<Longrightarrow> valid m b n \<Longrightarrow> unat b \<le> i \<Longrightarrow>
        i < unat b + n \<Longrightarrow>
        byte m' i = (if unat a \<le> i \<and> i < unat a + length xs then xs ! (i - unat a) else byte m i)"
begin

text \<open>A read of a range that succeeded proves that a write of the same range succeeds.\<close>

lemma preflight:
  assumes "wf m" and "rd m a (length xs) = Ok bs"
  obtains m' where "wr a xs m = (Ok (), m')" and "wf m'" and "\<And>b n. valid m' b n = valid m b n"
proof -
  have "valid m a (length xs)" using assms rd_Ok by blast
  then obtain m' where w: "wr a xs m = (Ok (), m')" using wr_Ok [OF assms(1)] by blast
  show ?thesis using that [OF w wr_wf [OF assms(1) w]] wr_valid [OF assms(1) w] by blast
qed

lemma rd_length: "wf m \<Longrightarrow> rd m a n = Ok bs \<Longrightarrow> length bs = n"
  by (simp add: rd_Ok)

lemma read_after_write:
  assumes "wf m" and w: "wr a xs m = (Ok u, m')"
  shows "rd m' a (length xs) = Ok xs"
proof -
  have v: "valid m a (length xs)" using wr_Ok [OF assms(1)] w by (metis (full_types) old.unit.exhaust)
  then have "valid m' a (length xs)" using wr_valid [OF assms(1) w] by simp
  moreover have "map (byte m') [unat a..<unat a + length xs] = xs"
    by (rule nth_equalityI) (use wr_byte [OF assms(1) w v] in auto)
  ultimately show ?thesis using rd_Ok [OF wr_wf [OF assms(1) w]] by simp
qed

lemma read_other:
  assumes "wf m" and w: "wr a xs m = (Ok u, m')"
    and "unat a + length xs \<le> unat b \<or> unat b + n \<le> unat a"
  shows "rd m' b n = Ok bs \<longleftrightarrow> rd m b n = Ok bs"
proof -
  have "valid m b n \<Longrightarrow> map (byte m') [unat b..<unat b + n] = map (byte m) [unat b..<unat b + n]"
    using wr_byte [OF assms(1) w, of b n] assms(3) by (intro map_cong) auto
  then show ?thesis
    using rd_Ok [OF wr_wf [OF assms(1) w]] rd_Ok [OF assms(1)] wr_valid [OF assms(1) w] by auto
qed

end

interpretation ram: guest_ram mem_read mem_write memory_wf "\<lambda>m. in_region (mem_region m)" guest_byte
proof (unfold_locales, goal_cases)
  case (1 m a n bs) then show ?case by (rule mem_read_Ok_iff)
next
  case (2 m a n) then show ?case by (rule mem_read_no_fault)
next
  case (3 m a xs) then show ?case by (rule mem_write_no_fault)
next
  case (4 m a xs) then show ?case by (simp add: mem_write_Ok_iff)
next
  case (5 m a xs e m') then show ?case by (simp add: mem_write_Err)
next
  case (6 m a xs r m') then show ?case by (simp add: mem_write_wf)
next
  case (7 m a xs r m' b n) then show ?case using mem_write_wf by auto
next
  case (8 m a xs u m' b n i)
  then show ?case by (auto simp: mem_write_Ok_iff in_region_def guest_byte_poke)
qed

section \<open>Properties\<close>

text \<open>
  C13. Every access of guest RAM is memory safe and exact.  For a memory with a well-formed region,
  neither a read nor a write reaches the undefined behaviour of the raw copies or a panic, whatever
  the address and the length.  A read succeeds exactly when the range lies in the region, and then
  returns the bytes there.  A write succeeds under the same condition, changes exactly the bytes of
  its range, and changes nothing when it fails.
\<close>

theorem guest_memory_access_safe:
  assumes "memory_wf m"
  shows "\<not> is_fault (mem_read m address len)
    \<and> \<not> is_fault (fst (mem_write address bs m))
    \<and> (mem_read m address len = Ok out \<longleftrightarrow> ram_slice m (unat address) len = Some out)
    \<and> (fst (mem_write address bs m) = Ok () \<longleftrightarrow> in_ram m (unat address) (length bs))
    \<and> (fst (mem_write address bs m) = Ok () \<longrightarrow>
         ram_slice (snd (mem_write address bs m)) (unat address) (length bs) = Some bs
         \<and> (unat address + length bs \<le> b \<or> b + n \<le> unat address \<longrightarrow>
              ram_slice (snd (mem_write address bs m)) b n = ram_slice m b n))
    \<and> (fst (mem_write address bs m) \<noteq> Ok () \<longrightarrow> snd (mem_write address bs m) = m)
    \<and> memory_wf (snd (mem_write address bs m))
    \<and> mem_region (snd (mem_write address bs m)) = mem_region m"
proof (cases "in_region (mem_region m) address (length bs)")
  case True
  then show ?thesis
    using assms ram.rd_safe [OF assms] mem_read_slice [OF assms] in_region_slice [of m address "length bs"]
    by (simp add: mem_write_inside ram_slice_poke_same ram_slice_poke_other)
next
  case False
  then obtain e where "mem_write address bs m = (Err e, m)"
    using mem_write_outside [OF assms] by blast
  then show ?thesis
    using False assms ram.rd_safe [OF assms] mem_read_slice [OF assms] in_region_slice [of m address "length bs"]
    by simp
qed

theorem guest_memory_access_safe_witness:
  "fst (mem_write 8 [1, 2] \<lparr>mem_region = \<lparr>region_base = 0, region_size = 4096\<rparr>,
       mem_mapping = \<lparr>ram_len = 4096, ram_bytes = (\<lambda>_. 0)\<rparr>\<rparr>) = Ok ()
   \<and> \<not> is_fault (mem_read \<lparr>mem_region = \<lparr>region_base = 0, region_size = 4096\<rparr>,
       mem_mapping = \<lparr>ram_len = 4096, ram_bytes = (\<lambda>_. 0)\<rparr>\<rparr> 8 8)"
  using guest_memory_access_safe [of "\<lparr>mem_region = \<lparr>region_base = 0, region_size = 4096\<rparr>,
       mem_mapping = \<lparr>ram_len = 4096, ram_bytes = (\<lambda>_. 0)\<rparr>\<rparr>" 8 8 "[1, 2]"]
  by (simp add: memory_wf_def region_wf_def KVM_MEMORY_ALIGNMENT_def in_ram_def)

end
