(* ===== verification/Virtio_Common.thy ===== *)
theory Virtio_Common
  imports Guest_Memory
begin

text \<open>
  What the two virtio device models share (\<open>src/src/pci/virtio.rs\<close> and
  \<open>src/src/pci/virtio_blk.rs\<close> define the same registers and constants): the offsets of the common
  configuration structure, the device-status bits, the virtqueue constants, the halves of a 64-bit
  queue address, and the contract \<open>virtio_transport\<close> of a device that a guest drives by register
  accesses and queue notifications.
\<close>

section \<open>Constants\<close>

abbreviation VIRTIO_F_VERSION_1 :: u64 where "VIRTIO_F_VERSION_1 \<equiv> 0x100000000"
abbreviation VIRTIO_QUEUE_MAX_SIZE :: u16 where "VIRTIO_QUEUE_MAX_SIZE \<equiv> 8"
abbreviation VIRTIO_NOTIFY_OFFSET :: u64 where "VIRTIO_NOTIFY_OFFSET \<equiv> 0x100"
abbreviation VIRTIO_ISR_OFFSET :: u64 where "VIRTIO_ISR_OFFSET \<equiv> 0x200"
abbreviation VIRTIO_ISR_QUEUE_INTERRUPT :: u8 where "VIRTIO_ISR_QUEUE_INTERRUPT \<equiv> 1"
abbreviation VIRTIO_PCI_VENDOR_ID :: u16 where "VIRTIO_PCI_VENDOR_ID \<equiv> 0x1af4"
abbreviation VIRTIO_PCI_CAP_VENDOR_ID :: u8 where "VIRTIO_PCI_CAP_VENDOR_ID \<equiv> 0x09"

abbreviation VIRTIO_STATUS_ACKNOWLEDGE :: u8 where "VIRTIO_STATUS_ACKNOWLEDGE \<equiv> 1"
abbreviation VIRTIO_STATUS_DRIVER :: u8 where "VIRTIO_STATUS_DRIVER \<equiv> 2"
abbreviation VIRTIO_STATUS_DRIVER_OK :: u8 where "VIRTIO_STATUS_DRIVER_OK \<equiv> 4"
abbreviation VIRTIO_STATUS_FEATURES_OK :: u8 where "VIRTIO_STATUS_FEATURES_OK \<equiv> 8"
abbreviation VIRTIO_STATUS_FAILED :: u8 where "VIRTIO_STATUS_FAILED \<equiv> 0x80"

definition VIRTIO_STATUS_KNOWN :: u8 where
  "VIRTIO_STATUS_KNOWN =
     VIRTIO_STATUS_ACKNOWLEDGE OR VIRTIO_STATUS_DRIVER OR VIRTIO_STATUS_DRIVER_OK
     OR VIRTIO_STATUS_FEATURES_OK OR VIRTIO_STATUS_FAILED"

abbreviation COMMON_DEVICE_FEATURE_SELECT :: u64 where "COMMON_DEVICE_FEATURE_SELECT \<equiv> 0x00"
abbreviation COMMON_DEVICE_FEATURE :: u64 where "COMMON_DEVICE_FEATURE \<equiv> 0x04"
abbreviation COMMON_DRIVER_FEATURE_SELECT :: u64 where "COMMON_DRIVER_FEATURE_SELECT \<equiv> 0x08"
abbreviation COMMON_DRIVER_FEATURE :: u64 where "COMMON_DRIVER_FEATURE \<equiv> 0x0c"
abbreviation COMMON_CONFIG_MSIX_VECTOR :: u64 where "COMMON_CONFIG_MSIX_VECTOR \<equiv> 0x10"
abbreviation COMMON_NUM_QUEUES :: u64 where "COMMON_NUM_QUEUES \<equiv> 0x12"
abbreviation COMMON_DEVICE_STATUS :: u64 where "COMMON_DEVICE_STATUS \<equiv> 0x14"
abbreviation COMMON_CONFIG_GENERATION :: u64 where "COMMON_CONFIG_GENERATION \<equiv> 0x15"
abbreviation COMMON_QUEUE_SELECT :: u64 where "COMMON_QUEUE_SELECT \<equiv> 0x16"
abbreviation COMMON_QUEUE_SIZE :: u64 where "COMMON_QUEUE_SIZE \<equiv> 0x18"
abbreviation COMMON_QUEUE_MSIX_VECTOR :: u64 where "COMMON_QUEUE_MSIX_VECTOR \<equiv> 0x1a"
abbreviation COMMON_QUEUE_ENABLE :: u64 where "COMMON_QUEUE_ENABLE \<equiv> 0x1c"
abbreviation COMMON_QUEUE_NOTIFY_OFF :: u64 where "COMMON_QUEUE_NOTIFY_OFF \<equiv> 0x1e"
abbreviation COMMON_QUEUE_DESC :: u64 where "COMMON_QUEUE_DESC \<equiv> 0x20"
abbreviation COMMON_QUEUE_DESC_HIGH :: u64 where "COMMON_QUEUE_DESC_HIGH \<equiv> 0x24"
abbreviation COMMON_QUEUE_DRIVER :: u64 where "COMMON_QUEUE_DRIVER \<equiv> 0x28"
abbreviation COMMON_QUEUE_DRIVER_HIGH :: u64 where "COMMON_QUEUE_DRIVER_HIGH \<equiv> 0x2c"
abbreviation COMMON_QUEUE_DEVICE :: u64 where "COMMON_QUEUE_DEVICE \<equiv> 0x30"
abbreviation COMMON_QUEUE_DEVICE_HIGH :: u64 where "COMMON_QUEUE_DEVICE_HIGH \<equiv> 0x34"

abbreviation VIRTQ_DESC_F_NEXT :: u16 where "VIRTQ_DESC_F_NEXT \<equiv> 1"
abbreviation VIRTQ_DESC_F_WRITE :: u16 where "VIRTQ_DESC_F_WRITE \<equiv> 2"
abbreviation VIRTQ_DESC_F_INDIRECT :: u16 where "VIRTQ_DESC_F_INDIRECT \<equiv> 4"

section \<open>Register helpers\<close>

definition replace_low_u32 :: "u64 \<Rightarrow> u32 \<Rightarrow> u64" where
  "replace_low_u32 original value = (original AND 0xffffffff00000000) OR ucast value"

definition replace_high_u32 :: "u64 \<Rightarrow> u32 \<Rightarrow> u64" where
  "replace_high_u32 original value = (original AND 0x00000000ffffffff) OR push_bit 32 (ucast value)"

definition low_u32 :: "u64 \<Rightarrow> u32" where
  "low_u32 x = ucast x"

definition high_u32 :: "u64 \<Rightarrow> u32" where
  "high_u32 x = ucast (drop_bit 32 x)"

definition capability_header :: "u8 \<Rightarrow> u8 \<Rightarrow> u8 \<Rightarrow> u32" where
  "capability_header next_cap len cfg_type =
     from_le_bytes [VIRTIO_PCI_CAP_VENDOR_ID, next_cap, len, cfg_type]"

text \<open>The 16 bytes of a virtqueue descriptor and its four fields.\<close>

definition descriptor_bytes :: "u64 \<Rightarrow> u32 \<Rightarrow> u16 \<Rightarrow> u16 \<Rightarrow> u8 list" where
  "descriptor_bytes address len flags next_index =
     to_le_bytes address @ to_le_bytes len @ to_le_bytes flags @ to_le_bytes next_index"

text \<open>A queue size the devices accept: a non-zero power of two up to the maximum.\<close>

definition valid_queue_size :: "u16 \<Rightarrow> bool" where
  "valid_queue_size sz \<longleftrightarrow> sz \<noteq> 0 \<and> sz \<le> VIRTIO_QUEUE_MAX_SIZE \<and> is_power_of_two sz"

text \<open>The condition that every reachable device status satisfies, given that the features are valid.\<close>

definition status_consistent :: "u8 \<Rightarrow> bool \<Rightarrow> bool" where
  "status_consistent s features_valid \<longleftrightarrow>
     s AND NOT VIRTIO_STATUS_KNOWN = 0
     \<and> (s AND VIRTIO_STATUS_DRIVER \<noteq> 0 \<longrightarrow> s AND VIRTIO_STATUS_ACKNOWLEDGE \<noteq> 0)
     \<and> (s AND VIRTIO_STATUS_FEATURES_OK \<noteq> 0 \<longrightarrow>
          s AND (VIRTIO_STATUS_ACKNOWLEDGE OR VIRTIO_STATUS_DRIVER)
            = VIRTIO_STATUS_ACKNOWLEDGE OR VIRTIO_STATUS_DRIVER
          \<and> features_valid)"

section \<open>Guest-driven runs\<close>

datatype guest_event =
    Register_Read u64 usize
  | Register_Write u64 "u8 list"
  | Process_Queue

text \<open>
  A run of a device: the events the guest causes, in order.  A run stops at a fault only; an error is
  returned to the vCPU loop and the device stays usable.
\<close>

fun run_events ::
  "(u64 \<Rightarrow> usize \<Rightarrow> ('d \<times> 'm, 'r, 'e) op) \<Rightarrow> (u64 \<Rightarrow> u8 list \<Rightarrow> ('d \<times> 'm, 'w, 'e) op)
     \<Rightarrow> ('d \<times> 'm, 'c, 'p) op \<Rightarrow> guest_event list \<Rightarrow> 'd \<times> 'm \<Rightarrow> ('d \<times> 'm, fault) outcome" where
  "run_events rd wr pr [] s = Ok s"
| "run_events rd wr pr (Register_Read off len # es) s =
     (case rd off len s of (Fault p, s') \<Rightarrow> Fault p | (_, s') \<Rightarrow> run_events rd wr pr es s')"
| "run_events rd wr pr (Register_Write off payload # es) s =
     (case wr off payload s of (Fault p, s') \<Rightarrow> Fault p | (_, s') \<Rightarrow> run_events rd wr pr es s')"
| "run_events rd wr pr (Process_Queue # es) s =
     (case pr s of (Fault p, s') \<Rightarrow> Fault p | (_, s') \<Rightarrow> run_events rd wr pr es s')"

section \<open>Register helpers: lemmas\<close>

lemma u64_half_masks:
  "(0xffffffff00000000 :: u64) = NOT (mask 32)" "(0x00000000ffffffff :: u64) = mask 32"
  by (simp_all add: mask_eq_exp_minus_1)

lemma low_replace_low [simp]: "low_u32 (replace_low_u32 x v) = v"
  unfolding low_u32_def replace_low_u32_def u64_half_masks
  by (rule bit_word_eqI) (auto simp: bit_simps)

lemma high_replace_low [simp]: "high_u32 (replace_low_u32 x v) = high_u32 x"
  unfolding high_u32_def replace_low_u32_def u64_half_masks
  by (rule bit_word_eqI) (auto simp: bit_simps dest: bit_imp_le_length)

lemma high_replace_high [simp]: "high_u32 (replace_high_u32 x v) = v"
  unfolding high_u32_def replace_high_u32_def u64_half_masks
  by (rule bit_word_eqI) (auto simp: bit_simps)

lemma low_replace_high [simp]: "low_u32 (replace_high_u32 x v) = low_u32 x"
  unfolding low_u32_def replace_high_u32_def u64_half_masks
  by (rule bit_word_eqI) (auto simp: bit_simps)

lemma u8_and_bits:
  "(x :: u8) AND 1 = 0 \<longleftrightarrow> \<not> bit x 0"
  "x AND 2 = 0 \<longleftrightarrow> \<not> bit x 1"
  "x AND 4 = 0 \<longleftrightarrow> \<not> bit x 2"
  "x AND 8 = 0 \<longleftrightarrow> \<not> bit x 3"
  using and_exp_eq_0_iff_not_bit [of x 0] and_exp_eq_0_iff_not_bit [of x 1]
    and_exp_eq_0_iff_not_bit [of x 2] and_exp_eq_0_iff_not_bit [of x 3]
  by simp_all

lemma VIRTIO_STATUS_KNOWN_val: "VIRTIO_STATUS_KNOWN = 0x8f"
  by (simp add: VIRTIO_STATUS_KNOWN_def)

lemma status_consistent_0 [simp]: "status_consistent 0 v"
  by (simp add: status_consistent_def)

lemma status_drop_features:
  assumes "s AND NOT VIRTIO_STATUS_KNOWN = 0"
    and "s AND VIRTIO_STATUS_DRIVER \<noteq> 0 \<longrightarrow> s AND VIRTIO_STATUS_ACKNOWLEDGE \<noteq> 0"
  shows "status_consistent (s AND NOT VIRTIO_STATUS_FEATURES_OK) v"
proof -
  have k: "(s AND NOT 8) AND NOT VIRTIO_STATUS_KNOWN = (s AND NOT VIRTIO_STATUS_KNOWN) AND NOT 8"
    by (simp add: ac_simps)
  have "(s AND NOT 8) AND 2 = s AND 2" and "(s AND NOT 8) AND 1 = s AND 1"
    and "(s AND NOT 8) AND 8 = 0"
    by (simp_all add: and.assoc)
  then show ?thesis
    unfolding status_consistent_def k using assms by simp
qed

lemma small_powers_of_two:
  "is_power_of_two (1 :: u16)" "is_power_of_two (2 :: u16)" "\<not> is_power_of_two (3 :: u16)"
  "is_power_of_two (4 :: u16)" "\<not> is_power_of_two (5 :: u16)" "\<not> is_power_of_two (6 :: u16)"
  "\<not> is_power_of_two (7 :: u16)" "is_power_of_two (8 :: u16)"
  by code_simp+

lemma valid_queue_size_cases: "valid_queue_size sz \<longleftrightarrow> sz = 1 \<or> sz = 2 \<or> sz = 4 \<or> sz = 8"
proof
  assume v: "valid_queue_size sz"
  then have "unat sz \<le> 8" and "unat sz \<noteq> 0"
    by (simp_all add: valid_queue_size_def word_le_nat_alt unat_eq_0)
  then have "unat sz \<in> {1, 2, 3, 4, 5, 6, 7, 8}" by auto
  then have "sz \<in> {1, 2, 3, 4, 5, 6, 7, 8}"
    by (simp add: word_unat_eq_iff)
  with v show "sz = 1 \<or> sz = 2 \<or> sz = 4 \<or> sz = 8"
    by (auto simp: valid_queue_size_def small_powers_of_two)
next
  assume "sz = 1 \<or> sz = 2 \<or> sz = 4 \<or> sz = 8"
  then show "valid_queue_size sz"
    by (auto simp: valid_queue_size_def small_powers_of_two)
qed

lemma valid_queue_size_unat: "valid_queue_size sz \<Longrightarrow> 0 < unat sz \<and> unat sz \<le> 8 \<and> sz \<noteq> 0"
  by (auto simp: valid_queue_size_cases)

lemma status_consistent_any:
  "status_consistent s v \<Longrightarrow> s AND VIRTIO_STATUS_FEATURES_OK = 0 \<Longrightarrow> status_consistent s v'"
  by (simp add: status_consistent_def)

lemma descriptor_fields [simp]:
  "from_le_bytes (subslice (descriptor_bytes a l f n) 0 8) = a"
  "from_le_bytes (subslice (descriptor_bytes a l f n) 8 12) = l"
  "from_le_bytes (subslice (descriptor_bytes a l f n) 12 14) = f"
  "from_le_bytes (subslice (descriptor_bytes a l f n) 14 16) = n"
  by (simp_all add: descriptor_bytes_def subslice_def)

lemma length_descriptor_bytes [simp]: "length (descriptor_bytes a l f n) = 16"
  by (simp add: descriptor_bytes_def)

lemma descriptor_bytes_of:
  assumes "length bs = 16"
  shows "descriptor_bytes (from_le_bytes (subslice bs 0 8)) (from_le_bytes (subslice bs 8 12))
           (from_le_bytes (subslice bs 12 14)) (from_le_bytes (subslice bs 14 16)) = bs"
proof -
  have "subslice bs 0 8 @ subslice bs 8 12 @ subslice bs 12 14 @ subslice bs 14 16 = bs"
    using assms take_add [of 8 4 bs] take_add [of 12 2 bs] take_add [of 14 2 bs]
    by (simp add: subslice_def)
  with assms show ?thesis by (simp add: descriptor_bytes_def to_from_le_bytes)
qed

lemma u16_bytes_eq: "length bs = 2 \<Longrightarrow> (from_le_bytes bs :: u16) = w \<longleftrightarrow> bs = to_le_bytes w"
  using to_from_le_bytes [where 'a = 16, of bs] by auto

lemma u16_bytes_inject: "to_le_bytes (a :: u16) = to_le_bytes b \<longleftrightarrow> a = b"
  by (metis from_to_le_words(2))

lemma descriptor_bytes_inject:
  "descriptor_bytes a l f n = descriptor_bytes a' l' f' n' \<longleftrightarrow> a = a' \<and> l = l' \<and> f = f' \<and> n = n'"
  by (metis descriptor_fields)

text \<open>A 16-bit ring field and a descriptor behind a checked address computation.\<close>

lemma and_then_checked_u16:
  assumes "memory_wf m"
  shows "and_then (ok_or (checked_add a b) e)
           (\<lambda>x. and_then (map_ok from_le_bytes (map_err E (mem_read m x 2))) k) = Ok y \<longleftrightarrow>
         (\<exists>w :: u16. ram_slice m (unat a + unat b) 2 = Some (to_le_bytes w) \<and> k w = Ok y)"
  unfolding and_then_map_ok and_then_checked_read [OF assms]
  using u16_bytes_eq ram_slice_length [of m _ 2] by metis

lemma and_then_checked_descriptor:
  assumes "memory_wf m"
  shows "and_then (ok_or (checked_add a b) e) (\<lambda>x. and_then (map_err E (mem_read m x 16)) k) = Ok y \<longleftrightarrow>
         (\<exists>address len flags next_index.
            ram_slice m (unat a + unat b) 16 = Some (descriptor_bytes address len flags next_index)
            \<and> k (descriptor_bytes address len flags next_index) = Ok y)"
  unfolding and_then_checked_read [OF assms]
  using descriptor_bytes_of ram_slice_length [of m _ 16] by metis

section \<open>The contract of a guest-driven device\<close>

locale virtio_transport =
  fixes rd :: "u64 \<Rightarrow> usize \<Rightarrow> ('d \<times> 'm, 'r, 'e) op"
    and wr :: "u64 \<Rightarrow> u8 list \<Rightarrow> ('d \<times> 'm, 'w, 'e) op"
    and pr :: "('d \<times> 'm, 'c, 'p) op"
    and inv :: "'d \<times> 'm \<Rightarrow> bool"
  assumes rd_inv: "inv s \<Longrightarrow> rd off len s = (r, s') \<Longrightarrow> inv s' \<and> \<not> is_fault r"
    and wr_inv: "inv s \<Longrightarrow> wr off payload s = (w, s') \<Longrightarrow> inv s' \<and> \<not> is_fault w"
    and pr_inv: "inv s \<Longrightarrow> pr s = (c, s') \<Longrightarrow> inv s' \<and> \<not> is_fault c"
begin

text \<open>No sequence of guest events makes the device model panic or breaks the invariant.\<close>

lemma run_safe: "inv s \<Longrightarrow> \<exists>s'. run_events rd wr pr es s = Ok s' \<and> inv s'"
proof (induction es arbitrary: s)
  case Nil
  then show ?case by simp
next
  case (Cons e es)
  show ?case
  proof (cases e)
    case (Register_Read off len)
    obtain r s' where step: "rd off len s = (r, s')" by (cases "rd off len s")
    with rd_inv [OF Cons.prems step] Cons.IH [of s'] show ?thesis
      by (cases r) (simp_all add: Register_Read)
  next
    case (Register_Write off payload)
    obtain w s' where step: "wr off payload s = (w, s')" by (cases "wr off payload s")
    with wr_inv [OF Cons.prems step] Cons.IH [of s'] show ?thesis
      by (cases w) (simp_all add: Register_Write)
  next
    case Process_Queue
    obtain c s' where step: "pr s = (c, s')" by (cases "pr s")
    with pr_inv [OF Cons.prems step] Cons.IH [of s'] show ?thesis
      by (cases c) (simp_all add: Process_Queue)
  qed
qed

end

end
