(* ===== verification/Virtio_Rng.thy ===== *)
theory Virtio_Rng
  imports Virtio_Common
begin

text \<open>
  The virtio-rng PCI function and device (\<open>src/src/pci/virtio.rs\<close>): the configuration space, the
  register file behind BAR 0, the device-status state machine, and the processing of a notified
  request queue over guest RAM.

  The device state is the record \<open>rng_dev\<close> with the fields of \<open>VirtioRngDevice\<close>.  A register access
  is an operation on it; queue processing is an operation on the device and the guest memory, since
  an error can be returned after guest memory was written.
\<close>

section \<open>PCI function\<close>

abbreviation VIRTIO_RNG_PCI_DEVICE_ID :: u16 where "VIRTIO_RNG_PCI_DEVICE_ID \<equiv> 0x1044"
abbreviation VIRTIO_RNG_BAR_SIZE :: u32 where "VIRTIO_RNG_BAR_SIZE \<equiv> 0x1000"
abbreviation VIRTIO_RNG_QUEUE_INDEX :: u16 where "VIRTIO_RNG_QUEUE_INDEX \<equiv> 0"

definition VIRTIO_RNG_TEST_PAYLOAD :: "u8 list" where
  "VIRTIO_RNG_TEST_PAYLOAD = [0x52, 0x4e, 0x47, 0x44, 0x41, 0x54, 0x41, 0x21]"

record rng_pci_function =
  rng_function_bar0 :: u32

definition rng_function_new :: "u32 \<Rightarrow> rng_pci_function" where
  "rng_function_new bar0 = \<lparr>rng_function_bar0 = bar0 AND 0xfffff000\<rparr>"

definition rng_function_read_dword :: "rng_pci_function \<Rightarrow> u8 \<Rightarrow> u32" where
  "rng_function_read_dword f offset =
     (if offset = 0x00 then push_bit 16 (ucast VIRTIO_RNG_PCI_DEVICE_ID) OR ucast VIRTIO_PCI_VENDOR_ID
      else if offset = 0x04 then push_bit 16 (ucast (push_bit 4 1 :: u16))
      else if offset = 0x08 then push_bit 24 0xff OR 1
      else if offset = 0x0c then 0
      else if offset = 0x10 then rng_function_bar0 f
      else if offset = 0x2c then push_bit 16 0x44 OR ucast VIRTIO_PCI_VENDOR_ID
      else if offset = 0x34 then 0x40
      else if offset = 0x40 then capability_header 0x50 16 1
      else if offset = 0x44 then 0
      else if offset = 0x48 then 0
      else if offset = 0x4c then 0x38
      else if offset = 0x50 then capability_header 0x64 20 2
      else if offset = 0x54 then 0
      else if offset = 0x58 then ucast VIRTIO_NOTIFY_OFFSET
      else if offset = 0x5c then 2
      else if offset = 0x60 then 2
      else if offset = 0x64 then capability_header 0 16 3
      else if offset = 0x68 then 0
      else if offset = 0x6c then ucast VIRTIO_ISR_OFFSET
      else if offset = 0x70 then 1
      else 0)"

section \<open>Device state\<close>

record rng_dev =
  rng_bar0 :: u64
  rng_device_feature_select :: u32
  rng_driver_feature_select :: u32
  rng_driver_features :: u64
  rng_status :: u8
  rng_queue_select :: u16
  rng_queue_size :: u16
  rng_queue_enabled :: bool
  rng_queue_desc :: u64
  rng_queue_driver :: u64
  rng_queue_device :: u64
  rng_notify_pending :: bool
  rng_last_avail_idx :: u16
  rng_last_used_idx :: u16
  rng_isr_status :: u8

definition rng_new :: "u64 \<Rightarrow> rng_dev" where
  "rng_new bar0 =
     \<lparr>rng_bar0 = bar0, rng_device_feature_select = 0, rng_driver_feature_select = 0,
      rng_driver_features = 0, rng_status = 0, rng_queue_select = 0,
      rng_queue_size = VIRTIO_QUEUE_MAX_SIZE, rng_queue_enabled = False, rng_queue_desc = 0,
      rng_queue_driver = 0, rng_queue_device = 0, rng_notify_pending = False,
      rng_last_avail_idx = 0, rng_last_used_idx = 0, rng_isr_status = 0\<rparr>"

definition rng_reset :: "rng_dev \<Rightarrow> rng_dev" where
  "rng_reset d =
     d\<lparr>rng_device_feature_select := 0, rng_driver_feature_select := 0,
       rng_driver_features := 0, rng_status := 0, rng_queue_select := 0,
       rng_queue_size := VIRTIO_QUEUE_MAX_SIZE, rng_queue_enabled := False, rng_queue_desc := 0,
       rng_queue_driver := 0, rng_queue_device := 0, rng_notify_pending := False,
       rng_last_avail_idx := 0, rng_last_used_idx := 0, rng_isr_status := 0\<rparr>"

datatype rng_event = Rng_QueueNotified u16

datatype rng_process_error = Rng_Device rng_error | Rng_Memory vm_error

record rng_completion =
  rng_descriptor_id :: u32
  rng_completion_length :: u32

section \<open>Register helpers\<close>

definition rng_read_u16 :: "u64 \<Rightarrow> u8 list \<Rightarrow> (u16, rng_error) outcome" where
  "rng_read_u16 offset payload =
     (if length payload = 2 then Ok (from_le_bytes payload)
      else Err (Rng_InvalidRegisterPayload offset 2 (length payload)))"

definition rng_read_u32 :: "u64 \<Rightarrow> u8 list \<Rightarrow> (u32, rng_error) outcome" where
  "rng_read_u32 offset payload =
     (if length payload = 4 then Ok (from_le_bytes payload)
      else Err (Rng_InvalidRegisterPayload offset 4 (length payload)))"

definition rng_device_feature_word :: "rng_dev \<Rightarrow> u32" where
  "rng_device_feature_word d =
     (if rng_device_feature_select d = 1 then high_u32 VIRTIO_F_VERSION_1 else 0)"

definition rng_driver_feature_word :: "rng_dev \<Rightarrow> u32" where
  "rng_driver_feature_word d =
     (if rng_driver_feature_select d = 0 then low_u32 (rng_driver_features d)
      else if rng_driver_feature_select d = 1 then high_u32 (rng_driver_features d)
      else 0)"

definition rng_write_driver_feature_word :: "u32 \<Rightarrow> rng_dev \<Rightarrow> (rng_dev, rng_error) outcome" where
  "rng_write_driver_feature_word value d =
     (if rng_status d AND VIRTIO_STATUS_FEATURES_OK \<noteq> 0
      then Err (Rng_InvalidDeviceStatus (rng_status d) (rng_status d))
      else if rng_driver_feature_select d = 0
      then Ok (d\<lparr>rng_driver_features := (rng_driver_features d AND NOT 0xffffffff) OR ucast value\<rparr>)
      else if rng_driver_feature_select d = 1
      then Ok (d\<lparr>rng_driver_features :=
             (rng_driver_features d AND 0xffffffff) OR push_bit 32 (ucast value)\<rparr>)
      else if value = 0 then Ok d
      else Err (Rng_InvalidDeviceStatus (rng_status d) (rng_status d)))"

definition rng_write_status :: "u8 \<Rightarrow> rng_dev \<Rightarrow> (rng_dev, rng_error) outcome" where
  "rng_write_status requested d =
     (if requested = 0 then Ok (rng_reset d)
      else if requested AND NOT VIRTIO_STATUS_KNOWN \<noteq> 0 \<or> requested AND rng_status d \<noteq> rng_status d
      then Err (Rng_InvalidDeviceStatus (rng_status d) requested)
      else if requested AND VIRTIO_STATUS_DRIVER \<noteq> 0 \<and> requested AND VIRTIO_STATUS_ACKNOWLEDGE = 0
      then Err (Rng_InvalidDeviceStatus (rng_status d) requested)
      else if requested AND VIRTIO_STATUS_FEATURES_OK \<noteq> 0
              \<and> requested AND (VIRTIO_STATUS_ACKNOWLEDGE OR VIRTIO_STATUS_DRIVER)
                \<noteq> VIRTIO_STATUS_ACKNOWLEDGE OR VIRTIO_STATUS_DRIVER
      then Err (Rng_InvalidDeviceStatus (rng_status d) requested)
      else if requested AND VIRTIO_STATUS_FEATURES_OK \<noteq> 0
              \<and> rng_driver_features d \<noteq> VIRTIO_F_VERSION_1
      then Ok (d\<lparr>rng_status := requested AND NOT VIRTIO_STATUS_FEATURES_OK\<rparr>)
      else if requested AND VIRTIO_STATUS_DRIVER_OK \<noteq> 0
              \<and> (requested AND VIRTIO_STATUS_FEATURES_OK = 0 \<or> \<not> rng_queue_enabled d)
      then Err (Rng_InvalidDeviceStatus (rng_status d) requested)
      else Ok (d\<lparr>rng_status := requested\<rparr>))"

definition rng_ensure_selected_queue :: "rng_dev \<Rightarrow> (unit, rng_error) outcome" where
  "rng_ensure_selected_queue d =
     (if rng_queue_select d \<noteq> VIRTIO_RNG_QUEUE_INDEX
      then Err (Rng_UnsupportedQueue (rng_queue_select d)) else Ok ())"

definition rng_ensure_queue_unlocked :: "rng_dev \<Rightarrow> (unit, rng_error) outcome" where
  "rng_ensure_queue_unlocked d =
     and_then (rng_ensure_selected_queue d)
       (\<lambda>_. if rng_queue_enabled d then Err Rng_QueueConfigurationLocked else Ok ())"

definition rng_ensure_queue_ready :: "rng_dev \<Rightarrow> (unit, rng_error) outcome" where
  "rng_ensure_queue_ready d =
     (if rng_status d AND VIRTIO_STATUS_DRIVER_OK = 0
         \<or> rng_status d AND VIRTIO_STATUS_FEATURES_OK = 0
         \<or> rng_driver_features d \<noteq> VIRTIO_F_VERSION_1
         \<or> \<not> rng_queue_enabled d
         \<or> rng_queue_desc d = 0 \<or> rng_queue_driver d = 0 \<or> rng_queue_device d = 0
      then Err Rng_QueueNotReady else Ok ())"

definition rng_write_queue_size :: "u16 \<Rightarrow> rng_dev \<Rightarrow> (rng_dev, rng_error) outcome" where
  "rng_write_queue_size sz d =
     and_then (rng_ensure_selected_queue d) (\<lambda>_.
     and_then (rng_ensure_queue_unlocked d) (\<lambda>_.
     if sz = 0 \<or> sz > VIRTIO_QUEUE_MAX_SIZE \<or> \<not> is_power_of_two sz
     then Err (Rng_InvalidQueueSize sz VIRTIO_QUEUE_MAX_SIZE)
     else Ok (d\<lparr>rng_queue_size := sz\<rparr>)))"

definition rng_write_queue_enable :: "u16 \<Rightarrow> rng_dev \<Rightarrow> (rng_dev, rng_error) outcome" where
  "rng_write_queue_enable value d =
     and_then (rng_ensure_selected_queue d) (\<lambda>_.
     if value = 0 then Ok (d\<lparr>rng_queue_enabled := False\<rparr>)
     else if value = 1
     then (if rng_queue_desc d = 0 \<or> rng_queue_driver d = 0 \<or> rng_queue_device d = 0
           then Err Rng_QueueNotReady
           else Ok (d\<lparr>rng_queue_enabled := True\<rparr>))
     else Err Rng_QueueNotReady)"

definition rng_selected_queue_size :: "rng_dev \<Rightarrow> u16" where
  "rng_selected_queue_size d =
     (if rng_queue_select d = VIRTIO_RNG_QUEUE_INDEX then rng_queue_size d else 0)"

section \<open>Register accesses\<close>

definition rng_read :: "u64 \<Rightarrow> usize \<Rightarrow> (rng_dev, u8 list, rng_error) op" where
  "rng_read offset len d =
     (if offset = COMMON_DEVICE_FEATURE_SELECT \<and> len = 4
      then (Ok (to_le_bytes (rng_device_feature_select d)), d)
      else if offset = COMMON_DEVICE_FEATURE \<and> len = 4
      then (Ok (to_le_bytes (rng_device_feature_word d)), d)
      else if offset = COMMON_DRIVER_FEATURE_SELECT \<and> len = 4
      then (Ok (to_le_bytes (rng_driver_feature_select d)), d)
      else if offset = COMMON_DRIVER_FEATURE \<and> len = 4
      then (Ok (to_le_bytes (rng_driver_feature_word d)), d)
      else if offset = COMMON_CONFIG_MSIX_VECTOR \<and> len = 2
      then (Ok (to_le_bytes (0xffff :: u16)), d)
      else if offset = COMMON_NUM_QUEUES \<and> len = 2 then (Ok (to_le_bytes (1 :: u16)), d)
      else if offset = COMMON_DEVICE_STATUS \<and> len = 1 then (Ok [rng_status d], d)
      else if offset = COMMON_CONFIG_GENERATION \<and> len = 1 then (Ok [0], d)
      else if offset = COMMON_QUEUE_SELECT \<and> len = 2
      then (Ok (to_le_bytes (rng_queue_select d)), d)
      else if offset = COMMON_QUEUE_SIZE \<and> len = 2
      then (Ok (to_le_bytes (rng_selected_queue_size d)), d)
      else if offset = COMMON_QUEUE_MSIX_VECTOR \<and> len = 2
      then (Ok (to_le_bytes (0xffff :: u16)), d)
      else if offset = COMMON_QUEUE_ENABLE \<and> len = 2
      then (Ok (to_le_bytes (of_bool (rng_queue_enabled d) :: u16)), d)
      else if offset = COMMON_QUEUE_NOTIFY_OFF \<and> len = 2 then (Ok (to_le_bytes (0 :: u16)), d)
      else if offset = COMMON_QUEUE_DESC \<and> len = 4
      then (Ok (to_le_bytes (low_u32 (rng_queue_desc d))), d)
      else if offset = COMMON_QUEUE_DESC_HIGH \<and> len = 4
      then (Ok (to_le_bytes (high_u32 (rng_queue_desc d))), d)
      else if offset = COMMON_QUEUE_DRIVER \<and> len = 4
      then (Ok (to_le_bytes (low_u32 (rng_queue_driver d))), d)
      else if offset = COMMON_QUEUE_DRIVER_HIGH \<and> len = 4
      then (Ok (to_le_bytes (high_u32 (rng_queue_driver d))), d)
      else if offset = COMMON_QUEUE_DEVICE \<and> len = 4
      then (Ok (to_le_bytes (low_u32 (rng_queue_device d))), d)
      else if offset = COMMON_QUEUE_DEVICE_HIGH \<and> len = 4
      then (Ok (to_le_bytes (high_u32 (rng_queue_device d))), d)
      else if offset = VIRTIO_ISR_OFFSET \<and> len = 1
      then (Ok [rng_isr_status d], d\<lparr>rng_isr_status := 0\<rparr>)
      else (Err (Rng_UnsupportedRegisterAccess offset len False), d))"

text \<open>
  The write of a queue-address half: refused while the queue is enabled or another queue is selected.
\<close>

definition rng_write_address ::
  "u64 \<Rightarrow> u8 list \<Rightarrow> (u32 \<Rightarrow> rng_dev) \<Rightarrow> rng_dev \<Rightarrow> (rng_event option \<times> rng_dev, rng_error) outcome" where
  "rng_write_address offset payload upd d =
     and_then (rng_ensure_queue_unlocked d) (\<lambda>_.
     and_then (rng_read_u32 offset payload) (\<lambda>v. Ok (None, upd v)))"

definition rng_write :: "u64 \<Rightarrow> u8 list \<Rightarrow> (rng_dev, rng_event option, rng_error) op" where
  "rng_write offset payload d = commit d
     (if offset = COMMON_DEVICE_FEATURE_SELECT \<and> length payload = 4
      then and_then (rng_read_u32 offset payload)
             (\<lambda>v. Ok (None, d\<lparr>rng_device_feature_select := v\<rparr>))
      else if offset = COMMON_DRIVER_FEATURE_SELECT \<and> length payload = 4
      then and_then (rng_read_u32 offset payload)
             (\<lambda>v. Ok (None, d\<lparr>rng_driver_feature_select := v\<rparr>))
      else if offset = COMMON_DRIVER_FEATURE \<and> length payload = 4
      then and_then (rng_read_u32 offset payload)
             (\<lambda>v. map_ok (Pair None) (rng_write_driver_feature_word v d))
      else if offset = COMMON_DEVICE_STATUS \<and> length payload = 1
      then map_ok (Pair None) (rng_write_status (payload ! 0) d)
      else if offset = COMMON_QUEUE_SELECT \<and> length payload = 2
      then and_then (rng_read_u16 offset payload) (\<lambda>v. Ok (None, d\<lparr>rng_queue_select := v\<rparr>))
      else if offset = COMMON_QUEUE_SIZE \<and> length payload = 2
      then and_then (rng_read_u16 offset payload)
             (\<lambda>v. map_ok (Pair None) (rng_write_queue_size v d))
      else if offset = COMMON_QUEUE_ENABLE \<and> length payload = 2
      then and_then (rng_read_u16 offset payload)
             (\<lambda>v. map_ok (Pair None) (rng_write_queue_enable v d))
      else if offset = COMMON_QUEUE_DESC \<and> length payload = 4
      then rng_write_address offset payload
             (\<lambda>v. d\<lparr>rng_queue_desc := replace_low_u32 (rng_queue_desc d) v\<rparr>) d
      else if offset = COMMON_QUEUE_DESC_HIGH \<and> length payload = 4
      then rng_write_address offset payload
             (\<lambda>v. d\<lparr>rng_queue_desc := replace_high_u32 (rng_queue_desc d) v\<rparr>) d
      else if offset = COMMON_QUEUE_DRIVER \<and> length payload = 4
      then rng_write_address offset payload
             (\<lambda>v. d\<lparr>rng_queue_driver := replace_low_u32 (rng_queue_driver d) v\<rparr>) d
      else if offset = COMMON_QUEUE_DRIVER_HIGH \<and> length payload = 4
      then rng_write_address offset payload
             (\<lambda>v. d\<lparr>rng_queue_driver := replace_high_u32 (rng_queue_driver d) v\<rparr>) d
      else if offset = COMMON_QUEUE_DEVICE \<and> length payload = 4
      then rng_write_address offset payload
             (\<lambda>v. d\<lparr>rng_queue_device := replace_low_u32 (rng_queue_device d) v\<rparr>) d
      else if offset = COMMON_QUEUE_DEVICE_HIGH \<and> length payload = 4
      then rng_write_address offset payload
             (\<lambda>v. d\<lparr>rng_queue_device := replace_high_u32 (rng_queue_device d) v\<rparr>) d
      else if offset = VIRTIO_NOTIFY_OFFSET \<and> length payload = 2
      then and_then (rng_read_u16 offset payload) (\<lambda>queue.
           if queue \<noteq> VIRTIO_RNG_QUEUE_INDEX then Err (Rng_UnexpectedQueueNotification queue)
           else and_then (rng_ensure_queue_ready d) (\<lambda>_.
             Ok (Some (Rng_QueueNotified queue), d\<lparr>rng_notify_pending := True\<rparr>)))
      else Err (Rng_UnsupportedRegisterAccess offset (length payload) True))"

section \<open>Queue processing\<close>

definition rng_checked_add :: "u64 \<Rightarrow> u64 \<Rightarrow> (u64, rng_process_error) outcome" where
  "rng_checked_add base offset =
     ok_or (checked_add base offset) (Rng_Device (Rng_AddressOverflow base offset))"

definition rng_read_guest_u16 :: "guest_memory \<Rightarrow> u64 \<Rightarrow> (u16, rng_process_error) outcome" where
  "rng_read_guest_u16 m address =
     map_ok from_le_bytes (map_err Rng_Memory (mem_read m address 2))"

record rng_request =
  rng_req_avail :: u16
  rng_req_head :: u16
  rng_req_buffer :: u64

text \<open>The checks of \<open>process_notified_queue\<close> before the first write to guest memory.\<close>

definition rng_validate :: "rng_dev \<Rightarrow> guest_memory \<Rightarrow> (rng_request, rng_process_error) outcome" where
  "rng_validate d m =
     and_then (map_err Rng_Device (rng_ensure_queue_ready d)) (\<lambda>_.
     if \<not> rng_notify_pending d then Err (Rng_Device Rng_QueueNotReady) else
     and_then (rng_checked_add (rng_queue_driver d) 2) (\<lambda>avail_idx_address.
     and_then (rng_read_guest_u16 m avail_idx_address) (\<lambda>avail_idx.
     if avail_idx \<noteq> rng_last_avail_idx d + 1
     then Err (Rng_Device (Rng_UnexpectedAvailIndex (rng_last_avail_idx d + 1) avail_idx)) else
     and_then (rem_ov (rng_last_avail_idx d) (rng_queue_size d)) (\<lambda>slot.
     and_then (mul_ov 2 (ucast slot)) (\<lambda>twice_slot.
     and_then (add_ov 4 twice_slot) (\<lambda>ring_offset.
     and_then (rng_checked_add (rng_queue_driver d) ring_offset) (\<lambda>ring_address.
     and_then (rng_read_guest_u16 m ring_address) (\<lambda>head.
     if head \<ge> rng_queue_size d
     then Err (Rng_Device (Rng_DescriptorIndexOutOfRange head (rng_queue_size d))) else
     and_then (mul_ov 16 (ucast head)) (\<lambda>descriptor_offset.
     and_then (rng_checked_add (rng_queue_desc d) descriptor_offset) (\<lambda>descriptor_address.
     and_then (map_err Rng_Memory (mem_read m descriptor_address 16)) (\<lambda>descriptor.
     let buffer_address = from_le_bytes (subslice descriptor 0 8) :: u64;
         buffer_length = from_le_bytes (subslice descriptor 8 12) :: u32;
         flags = from_le_bytes (subslice descriptor 12 14) :: u16 in
     if flags \<noteq> VIRTQ_DESC_F_WRITE
     then Err (Rng_Device (Rng_UnsupportedDescriptorFlags flags))
     else if buffer_length < 8
     then Err (Rng_Device (Rng_DescriptorTooSmall buffer_length 8)) else
     and_then (rng_checked_add (rng_queue_device d) 2) (\<lambda>used_idx_address.
     and_then (rng_read_guest_u16 m used_idx_address) (\<lambda>used_idx.
     if used_idx \<noteq> rng_last_used_idx d
     then Err (Rng_Device (Rng_UnexpectedUsedIndex (rng_last_used_idx d) used_idx))
     else Ok \<lparr>rng_req_avail = avail_idx, rng_req_head = head, rng_req_buffer = buffer_address\<rparr>)))))))))))))"

text \<open>The writes: the payload, the used element and the used index, in this order.\<close>

definition rng_complete :: "rng_dev \<Rightarrow> rng_request \<Rightarrow> (guest_memory, u16, rng_process_error) op" where
  "rng_complete d req =
     op_then (op_map_err Rng_Memory (mem_write (rng_req_buffer req) VIRTIO_RNG_TEST_PAYLOAD)) (\<lambda>_.
     op_then (op_lift (rem_ov (rng_last_used_idx d) (rng_queue_size d))) (\<lambda>used_slot.
     op_then (op_lift (mul_ov 8 (ucast used_slot))) (\<lambda>eight_slots.
     op_then (op_lift (add_ov 4 eight_slots)) (\<lambda>element_offset.
     op_then (op_lift (rng_checked_add (rng_queue_device d) element_offset)) (\<lambda>used_element.
     op_then (op_map_err Rng_Memory (mem_write used_element
       (to_le_bytes (ucast (rng_req_head req) :: u32) @ to_le_bytes (8 :: u32)))) (\<lambda>_.
     op_then (op_lift (rng_checked_add (rng_queue_device d) 2)) (\<lambda>used_idx_address.
     op_then (op_map_err Rng_Memory
       (mem_write used_idx_address (to_le_bytes (rng_last_used_idx d + 1)))) (\<lambda>_.
     op_return (rng_last_used_idx d + 1)))))))))"

definition rng_process_notified_queue ::
  "(rng_dev \<times> guest_memory, rng_completion, rng_process_error) op" where
  "rng_process_notified_queue = (\<lambda>(d, m).
     case rng_validate d m of
       Err e \<Rightarrow> (Err e, (d, m))
     | Fault p \<Rightarrow> (Fault p, (d, m))
     | Ok req \<Rightarrow>
         (case rng_complete d req m of
            (Err e, m') \<Rightarrow> (Err e, (d, m'))
          | (Fault p, m') \<Rightarrow> (Fault p, (d, m'))
          | (Ok next_used, m') \<Rightarrow>
              (Ok \<lparr>rng_descriptor_id = ucast (rng_req_head req), rng_completion_length = 8\<rparr>,
               (d\<lparr>rng_last_avail_idx := rng_req_avail req, rng_last_used_idx := next_used,
                  rng_notify_pending := False,
                  rng_isr_status := rng_isr_status d OR VIRTIO_ISR_QUEUE_INTERRUPT\<rparr>, m'))))"

section \<open>Invariant\<close>

definition rng_inv :: "rng_dev \<Rightarrow> bool" where
  "rng_inv d \<longleftrightarrow>
     valid_queue_size (rng_queue_size d)
     \<and> (rng_queue_enabled d \<longrightarrow>
          rng_queue_desc d \<noteq> 0 \<and> rng_queue_driver d \<noteq> 0 \<and> rng_queue_device d \<noteq> 0)
     \<and> status_consistent (rng_status d) (rng_driver_features d = VIRTIO_F_VERSION_1)
     \<and> rng_last_avail_idx d = rng_last_used_idx d
     \<and> (rng_isr_status d = 0 \<or> rng_isr_status d = VIRTIO_ISR_QUEUE_INTERRUPT)"

text \<open>The register accesses as operations on the device and the guest memory it is used with.\<close>

definition rng_state_read :: "u64 \<Rightarrow> usize \<Rightarrow> (rng_dev \<times> guest_memory, u8 list, rng_error) op" where
  "rng_state_read offset len = (\<lambda>(d, m). case rng_read offset len d of (r, d') \<Rightarrow> (r, (d', m)))"

definition rng_state_write ::
  "u64 \<Rightarrow> u8 list \<Rightarrow> (rng_dev \<times> guest_memory, rng_event option, rng_error) op" where
  "rng_state_write offset payload =
     (\<lambda>(d, m). case rng_write offset payload d of (r, d') \<Rightarrow> (r, (d', m)))"

text \<open>
  The specification of a request that the device can serve, in terms of the virtqueue layout over
  unbounded addresses: the next available entry, its descriptor, and the used index.
\<close>

definition rng_request_at :: "rng_dev \<Rightarrow> guest_memory \<Rightarrow> u16 \<Rightarrow> u64 \<Rightarrow> bool" where
  "rng_request_at d m head buffer \<longleftrightarrow>
     rng_ensure_queue_ready d = Ok () \<and> rng_notify_pending d
     \<and> ram_slice m (unat (rng_queue_driver d) + 2) 2 = Some (to_le_bytes (rng_last_avail_idx d + 1))
     \<and> ram_slice m (unat (rng_queue_driver d)
           + (4 + 2 * (unat (rng_last_avail_idx d) mod unat (rng_queue_size d)))) 2
         = Some (to_le_bytes head)
     \<and> head < rng_queue_size d
     \<and> (\<exists>len next_index. 8 \<le> len
          \<and> ram_slice m (unat (rng_queue_desc d) + 16 * unat head) 16
            = Some (descriptor_bytes buffer len VIRTQ_DESC_F_WRITE next_index))
     \<and> ram_slice m (unat (rng_queue_device d) + 2) 2 = Some (to_le_bytes (rng_last_used_idx d))"

text \<open>The ranges of the completion besides the used index: the buffer and the used element.\<close>

definition rng_targets_ok :: "rng_dev \<Rightarrow> guest_memory \<Rightarrow> u64 \<Rightarrow> bool" where
  "rng_targets_ok d m buffer \<longleftrightarrow>
     in_ram m (unat buffer) 8
     \<and> in_ram m (unat (rng_queue_device d)
           + (4 + 8 * (unat (rng_last_used_idx d) mod unat (rng_queue_size d)))) 8"

definition rng_served :: "rng_dev \<Rightarrow> u16 \<Rightarrow> u64 \<Rightarrow> guest_memory \<Rightarrow> guest_memory" where
  "rng_served d head buffer m =
     poke (rng_queue_device d + 2) (to_le_bytes (rng_last_used_idx d + 1))
      (poke (rng_queue_device d + (4 + 8 * ucast (rng_last_used_idx d mod rng_queue_size d)))
         (to_le_bytes (ucast head :: u32) @ to_le_bytes (8 :: u32))
        (poke buffer VIRTIO_RNG_TEST_PAYLOAD m))"

definition rng_dev_served :: "rng_dev \<Rightarrow> rng_dev" where
  "rng_dev_served d =
     d\<lparr>rng_last_avail_idx := rng_last_avail_idx d + 1, rng_last_used_idx := rng_last_used_idx d + 1,
       rng_notify_pending := False,
       rng_isr_status := rng_isr_status d OR VIRTIO_ISR_QUEUE_INTERRUPT\<rparr>"

definition rng_state_inv :: "rng_dev \<times> guest_memory \<Rightarrow> bool" where
  "rng_state_inv s \<longleftrightarrow> rng_inv (fst s) \<and> memory_wf (snd s)"

text \<open>A driver that has set up its queue and published one eight-byte request.\<close>

definition example_rng_ram :: guest_memory where
  "example_rng_ram = example_ram [(0x101, 4), (0x108, 8), (0x10c, 2), (0x202, 1)]"

definition example_rng_dev :: rng_dev where
  "example_rng_dev =
     (rng_new 0x10000)\<lparr>rng_driver_features := VIRTIO_F_VERSION_1, rng_status := 0x0f,
        rng_queue_enabled := True, rng_queue_desc := 0x100, rng_queue_driver := 0x200,
        rng_queue_device := 0x300, rng_notify_pending := True\<rparr>"

section \<open>Register accesses keep the invariant\<close>

lemma rng_inv_new: "rng_inv (rng_new bar0)"
  by (simp add: rng_inv_def rng_new_def valid_queue_size_cases)

lemma rng_inv_reset: "rng_inv (rng_reset d)"
  by (simp add: rng_inv_def rng_reset_def valid_queue_size_cases)

lemma rng_queue_size_pos: "rng_inv d \<Longrightarrow> rng_queue_size d \<noteq> 0"
  by (simp add: rng_inv_def valid_queue_size_def)

lemma rng_read_inv:
  assumes "rng_inv d" and "rng_read off len d = (r, d')"
  shows "rng_inv d' \<and> \<not> is_fault r"
proof -
  have "rng_inv (d\<lparr>rng_isr_status := 0\<rparr>)" using assms(1) by (simp add: rng_inv_def)
  with assms(1) have "rng_inv (snd (rng_read off len d)) \<and> \<not> is_fault (fst (rng_read off len d))"
    by (simp add: rng_read_def)
  with assms(2) show ?thesis by simp
qed

lemma rng_write_status_inv:
  assumes "rng_inv d" and "rng_write_status req d = Ok d'"
  shows "rng_inv d'"
proof -
  consider "d' = rng_reset d"
    | "d' = d\<lparr>rng_status := req AND NOT VIRTIO_STATUS_FEATURES_OK\<rparr>" "req AND NOT VIRTIO_STATUS_KNOWN = 0"
      "req AND VIRTIO_STATUS_DRIVER \<noteq> 0 \<longrightarrow> req AND VIRTIO_STATUS_ACKNOWLEDGE \<noteq> 0"
    | "d' = d\<lparr>rng_status := req\<rparr>" "status_consistent req (rng_driver_features d = VIRTIO_F_VERSION_1)"
    using assms(2) unfolding rng_write_status_def status_consistent_def
    by (simp split: if_splits; blast)
  then show ?thesis
  proof cases
    case 1
    then show ?thesis by (simp add: rng_inv_reset)
  next
    case 2
    with assms(1) status_drop_features [OF 2(2,3)] show ?thesis by (simp add: rng_inv_def)
  next
    case 3
    with assms(1) show ?thesis by (simp add: rng_inv_def)
  qed
qed

lemma rng_inv_select [simp]:
  "rng_inv (d\<lparr>rng_device_feature_select := a\<rparr>) = rng_inv d"
  "rng_inv (d\<lparr>rng_driver_feature_select := a\<rparr>) = rng_inv d"
  "rng_inv (d\<lparr>rng_queue_select := b\<rparr>) = rng_inv d"
  "rng_inv (d\<lparr>rng_notify_pending := c\<rparr>) = rng_inv d"
  by (simp_all add: rng_inv_def)

lemma rng_inv_unlocked [simp]:
  assumes "\<not> rng_queue_enabled d"
  shows "rng_inv (d\<lparr>rng_queue_desc := a\<rparr>) = rng_inv d"
    and "rng_inv (d\<lparr>rng_queue_driver := a\<rparr>) = rng_inv d"
    and "rng_inv (d\<lparr>rng_queue_device := a\<rparr>) = rng_inv d"
  using assms by (simp_all add: rng_inv_def)

lemma rng_no_fault [simp]:
  "\<not> is_fault (rng_read_u16 off p)" "\<not> is_fault (rng_read_u32 off p)"
  "\<not> is_fault (rng_ensure_selected_queue d)" "\<not> is_fault (rng_ensure_queue_unlocked d)"
  "\<not> is_fault (rng_ensure_queue_ready d)" "\<not> is_fault (rng_write_status s d)"
  by (simp_all add: rng_read_u16_def rng_read_u32_def rng_ensure_selected_queue_def
      rng_ensure_queue_unlocked_def rng_ensure_queue_ready_def rng_write_status_def)

lemma rng_write_feature_wp [simp]:
  "rng_inv d \<Longrightarrow> wp (rng_write_driver_feature_word v d) rng_inv"
  by (auto simp: rng_write_driver_feature_word_def rng_inv_def intro: status_consistent_any)

lemma rng_write_status_wp [simp]: "rng_inv d \<Longrightarrow> wp (rng_write_status s d) rng_inv"
  using rng_write_status_inv by (simp add: wp_iff)

lemma rng_write_queue_size_wp [simp]: "rng_inv d \<Longrightarrow> wp (rng_write_queue_size v d) rng_inv"
  by (auto simp: rng_write_queue_size_def rng_inv_def rng_ensure_queue_unlocked_def
      rng_ensure_selected_queue_def valid_queue_size_def)

lemma rng_write_queue_enable_wp [simp]: "rng_inv d \<Longrightarrow> wp (rng_write_queue_enable v d) rng_inv"
  by (auto simp: rng_write_queue_enable_def rng_inv_def rng_ensure_selected_queue_def)

lemma rng_write_address_wp [simp]:
  "(\<And>v. \<not> rng_queue_enabled d \<Longrightarrow> rng_inv (upd v)) \<Longrightarrow>
     wp (rng_write_address off p upd d) (\<lambda>(ev, d'). rng_inv d')"
  by (simp add: rng_write_address_def rng_ensure_queue_unlocked_def rng_ensure_selected_queue_def)

lemma rng_write_inv:
  assumes "rng_inv d" and "rng_write off p d = (r, d')"
  shows "rng_inv d' \<and> \<not> is_fault r"
  by (rule wp_commit [where I = rng_inv, OF _ assms(1) assms(2) [unfolded rng_write_def]]) (simp add: assms(1))

lemma rng_write_Err: "rng_write off p d = (Err e, d') \<Longrightarrow> d' = d"
  by (simp add: rng_write_def outcome_simps)

section \<open>Queue processing meets its specification\<close>

lemma rng_validate_iff:
  assumes m: "memory_wf m" and d: "rng_inv d"
  shows "rng_validate d m = Ok req \<longleftrightarrow>
           rng_request_at d m (rng_req_head req) (rng_req_buffer req)
           \<and> rng_req_avail req = rng_last_avail_idx d + 1"
proof -
  have q: "rem_ov (rng_last_avail_idx d) (rng_queue_size d)
      = Ok (rng_last_avail_idx d mod rng_queue_size d)"
    using rng_queue_size_pos [OF d] by (simp add: rem_ov_def)
  have ready: "and_then (map_err Rng_Device (rng_ensure_queue_ready d)) k = Ok y
      \<longleftrightarrow> rng_ensure_queue_ready d = Ok () \<and> k () = Ok y" for k and y :: rng_request
    by (auto simp: outcome_simps)
  show ?thesis
    unfolding rng_validate_def rng_checked_add_def rng_read_guest_u16_def q
    by (cases req)
      (auto simp: ready if_Err_Ok and_then_checked_u16 [OF m] and_then_checked_descriptor [OF m]
        rng_request_at_def
        unat_ring_offset unat_scaled_index unat_u16_mod Let_def not_le not_less)
qed

lemma rng_validate_safe:
  assumes "memory_wf m" and "rng_inv d"
  shows "\<not> is_fault (rng_validate d m)"
proof -
  have "wp (rng_validate d m) (\<lambda>_. True)"
    unfolding rng_validate_def rng_checked_add_def rng_read_guest_u16_def
    using assms rng_queue_size_pos by (simp add: wp_simps mem_read_no_fault Let_def)
  then show ?thesis by simp
qed

lemma rng_complete_run:
  assumes m: "memory_wf m" and d: "rng_inv d"
    and used: "in_ram m (unat (rng_queue_device d) + 2) 2"
  shows "rng_targets_ok d m (rng_req_buffer req) \<Longrightarrow>
           rng_complete d req m
           = (Ok (rng_last_used_idx d + 1), rng_served d (rng_req_head req) (rng_req_buffer req) m)"
    and "\<not> rng_targets_ok d m (rng_req_buffer req) \<Longrightarrow>
           \<exists>e m'. rng_complete d req m = (Err e, m')
             \<and> (m' = m \<or> m' = poke (rng_req_buffer req) VIRTIO_RNG_TEST_PAYLOAD m)"
proof -
  have q: "rem_ov (rng_last_used_idx d) (rng_queue_size d)
      = Ok (rng_last_used_idx d mod rng_queue_size d)"
    using rng_queue_size_pos [OF d] by (simp add: rem_ov_def)
  have l: "length VIRTIO_RNG_TEST_PAYLOAD = 8" by (simp add: VIRTIO_RNG_TEST_PAYLOAD_def)
  show "rng_complete d req m
      = (Ok (rng_last_used_idx d + 1), rng_served d (rng_req_head req) (rng_req_buffer req) m)"
    if "rng_targets_ok d m (rng_req_buffer req)"
    using that used m unfolding rng_complete_def rng_checked_add_def rng_targets_ok_def
    by (simp add: op_write_slice(1) op_checked_write_slice(1) l q
        unat_ring_offset unat_u16_mod op_return_def rng_served_def)
  show "\<exists>e m'. rng_complete d req m = (Err e, m')
      \<and> (m' = m \<or> m' = poke (rng_req_buffer req) VIRTIO_RNG_TEST_PAYLOAD m)"
    if "\<not> rng_targets_ok d m (rng_req_buffer req)"
  proof (cases "in_ram m (unat (rng_req_buffer req)) 8")
    case False
    then have "\<not> in_ram m (unat (rng_req_buffer req)) (length VIRTIO_RNG_TEST_PAYLOAD)" by (simp add: l)
    then have "\<exists>e. rng_complete d req m = (Err e, m)"
      unfolding rng_complete_def by (rule op_write_slice(2) [OF m])
    then show ?thesis by auto
  next
    case True
    let ?m = "poke (rng_req_buffer req) VIRTIO_RNG_TEST_PAYLOAD m"
    have "\<not> in_ram ?m (unat (rng_queue_device d)
        + unat (4 + 8 * ucast (rng_last_used_idx d mod rng_queue_size d) :: u64))
        (length (to_le_bytes (ucast (rng_req_head req) :: u32) @ to_le_bytes (8 :: u32)))"
      using that True by (simp add: rng_targets_ok_def unat_ring_offset unat_u16_mod)
    note fails = op_checked_write_slice(2) [OF _ this]
    have "\<exists>e. rng_complete d req m = (Err e, ?m)"
      unfolding rng_complete_def rng_checked_add_def
      by (simp add: op_write_slice(1) [OF m] True l q) (rule fails, simp add: m)
    then show ?thesis by auto
  qed
qed

lemma rng_request_used:
  "rng_request_at d m head buffer \<Longrightarrow> in_ram m (unat (rng_queue_device d) + 2) 2"
  by (auto simp: rng_request_at_def dest: ram_slice_in_ram)

lemma rng_process_cases [consumes 2, case_names invalid served failed]:
  assumes m: "memory_wf m" and d: "rng_inv d"
  obtains (invalid) e where "rng_process_notified_queue (d, m) = (Err e, (d, m))"
      "\<nexists>head buffer. rng_request_at d m head buffer"
    | (served) head buffer where "rng_request_at d m head buffer" "rng_targets_ok d m buffer"
      "rng_process_notified_queue (d, m) =
         (Ok \<lparr>rng_descriptor_id = ucast head, rng_completion_length = 8\<rparr>,
          (rng_dev_served d, rng_served d head buffer m))"
    | (failed) head buffer e m' where "rng_request_at d m head buffer" "\<not> rng_targets_ok d m buffer"
      "rng_process_notified_queue (d, m) = (Err e, (d, m'))"
      "m' = m \<or> m' = poke buffer VIRTIO_RNG_TEST_PAYLOAD m"
proof (cases "rng_validate d m")
  case (Ok req)
  then have req: "rng_request_at d m (rng_req_head req) (rng_req_buffer req)"
    "rng_req_avail req = rng_last_avail_idx d + 1"
    using rng_validate_iff [OF m d] by auto
  note run = rng_complete_run [OF m d rng_request_used [OF req(1)], of req]
  show ?thesis
  proof (cases "rng_targets_ok d m (rng_req_buffer req)")
    case True
    with served [OF req(1)] run(1) Ok req(2) show ?thesis
      by (simp add: rng_process_notified_queue_def rng_dev_served_def)
  next
    case False
    with run(2) obtain e m' where c: "rng_complete d req m = (Err e, m')"
      "m' = m \<or> m' = poke (rng_req_buffer req) VIRTIO_RNG_TEST_PAYLOAD m" by blast
    have "rng_process_notified_queue (d, m) = (Err e, (d, m'))"
      by (simp add: rng_process_notified_queue_def Ok c(1))
    from failed [OF req(1) False this c(2)] show ?thesis .
  qed
next
  case (Err e)
  have "\<not> rng_request_at d m head buffer" for head buffer
    using rng_validate_iff [OF m d, of "\<lparr>rng_req_avail = rng_last_avail_idx d + 1,
        rng_req_head = head, rng_req_buffer = buffer\<rparr>"] Err by simp
  with invalid Err show ?thesis by (simp add: rng_process_notified_queue_def)
next
  case (Fault p)
  then show ?thesis using rng_validate_safe [OF m d] by simp
qed

lemma rng_request_unique:
  "rng_request_at d m head buffer \<Longrightarrow>
     rng_request_at d m head' buffer' \<longleftrightarrow> head' = head \<and> buffer' = buffer"
  by (auto simp: rng_request_at_def u16_bytes_inject descriptor_bytes_inject)

lemma rng_dev_served_inv: "rng_inv d \<Longrightarrow> rng_inv (rng_dev_served d)"
  by (auto simp: rng_inv_def rng_dev_served_def)

lemma rng_served_wf [simp]: "memory_wf (rng_served d head buffer m) = memory_wf m"
  by (simp add: rng_served_def)

interpretation rng: virtio_transport rng_state_read rng_state_write rng_process_notified_queue
  rng_state_inv
proof (unfold_locales, goal_cases)
  case (1 s off len r s')
  then show ?case
    by (auto simp: rng_state_read_def rng_state_inv_def split: prod.splits dest: rng_read_inv)
next
  case (2 s off payload w s')
  then show ?case
    by (auto simp: rng_state_write_def rng_state_inv_def split: prod.splits dest: rng_write_inv)
next
  case (3 s c s')
  obtain d m where s: "s = (d, m)" by (cases s)
  with 3 have "memory_wf m" "rng_inv d" by (simp_all add: rng_state_inv_def)
  then show ?case
    using 3 s by (cases rule: rng_process_cases)
      (auto simp: rng_state_inv_def rng_dev_served_inv)
qed

section \<open>The concrete queue\<close>

lemma example_rng_dev_inv: "rng_inv example_rng_dev"
  by (simp add: rng_inv_def example_rng_dev_def rng_new_def valid_queue_size_cases
      status_consistent_def VIRTIO_STATUS_KNOWN_def)

lemma example_rng_slices:
  "ram_slice example_rng_ram 0x202 2 = Some (to_le_bytes (1 :: u16))"
  "ram_slice example_rng_ram 0x204 2 = Some (to_le_bytes (0 :: u16))"
  "ram_slice example_rng_ram 0x100 16 = Some (descriptor_bytes 0x400 8 VIRTQ_DESC_F_WRITE 0)"
  "ram_slice example_rng_ram 0x302 2 = Some (to_le_bytes (0 :: u16))"
  "ram_slice example_rng_ram 0xffe 2 = Some (to_le_bytes (0 :: u16))"
  by code_simp+

lemma example_rng_request: "rng_request_at example_rng_dev example_rng_ram 0 0x400"
  using example_rng_slices
  by (auto simp: rng_request_at_def example_rng_dev_def rng_new_def rng_ensure_queue_ready_def
      descriptor_bytes_inject)

lemma example_rng_targets:
  "rng_targets_ok example_rng_dev example_rng_ram 0x400"
  by (simp add: rng_targets_ok_def example_rng_dev_def rng_new_def in_ram_def example_rng_ram_def
      example_ram_def)

text \<open>
  Writing the whole initialisation status at once with features that were never accepted sets
  \<open>DRIVER_OK\<close> without \<open>FEATURES_OK\<close> and without an enabled queue: the early return for rejected
  features skips the readiness check below it.
\<close>

lemma rng_status_skips_ready_check:
  "rng_write COMMON_DEVICE_STATUS [0x0f] (rng_new bar0)
     = (Ok None, (rng_new bar0)\<lparr>rng_status := 0x07\<rparr>)
   \<and> (0x07 :: u8) AND VIRTIO_STATUS_DRIVER_OK \<noteq> 0
   \<and> (0x07 :: u8) AND VIRTIO_STATUS_FEATURES_OK = 0
   \<and> \<not> rng_queue_enabled (rng_new bar0)"
  by (simp add: rng_write_def rng_write_status_def VIRTIO_STATUS_KNOWN_def rng_new_def)

section \<open>Properties\<close>

text \<open>
  C14. No guest can make the virtio-rng model panic or leave its invariant: from a fresh device and
  any well-formed guest RAM, every sequence of register reads, register writes and queue
  notifications, with any offsets, payloads and queue contents, runs to the end (every step returns
  a value or an error) and keeps the device invariant and the well-formedness of guest RAM.
\<close>

theorem rng_guest_cannot_break_device:
  assumes "memory_wf m"
  shows "\<exists>d' m'. run_events rng_state_read rng_state_write rng_process_notified_queue events
                   (rng_new bar, m) = Ok (d', m')
                 \<and> rng_inv d' \<and> memory_wf m'"
  using rng.run_safe [of "(rng_new bar, m)" events] assms rng_inv_new
  by (auto simp: rng_state_inv_def)

theorem rng_guest_cannot_break_device_witness:
  "\<exists>d' m'. run_events rng_state_read rng_state_write rng_process_notified_queue
       [Register_Write 0x14 [1], Process_Queue, Register_Read 0x200 1]
       (rng_new 0x10000, example_rng_ram) = Ok (d', m') \<and> rng_inv d' \<and> memory_wf m'"
  using rng_guest_cannot_break_device [where m = example_rng_ram and bar = "0x10000"
      and events = "[Register_Write 0x14 [1], Process_Queue, Register_Read 0x200 1]"]
  by (simp add: example_rng_ram_def example_ram_wf)

text \<open>
  C15. Processing a notified virtio-rng queue completes exactly when the virtqueue holds a servable
  request (the queue is ready and notified, the available index is one ahead, the head is in range,
  the descriptor is device-writable and holds at least eight bytes, the used index matches) and the
  buffer and the used element lie in guest RAM.  It then writes the payload, the used element and
  the used index, advances both indices by one modulo 2^16, clears the notification and raises the
  interrupt status bit.
\<close>

theorem rng_process_complete_iff:
  assumes "memory_wf m" and "rng_inv d"
  shows "rng_process_notified_queue (d, m) = (Ok c, s') \<longleftrightarrow>
    (\<exists>head buffer. rng_request_at d m head buffer \<and> rng_targets_ok d m buffer
       \<and> c = \<lparr>rng_descriptor_id = ucast head, rng_completion_length = 8\<rparr>
       \<and> s' = (rng_dev_served d, rng_served d head buffer m))"
  using assms
proof (cases rule: rng_process_cases)
  case (invalid e)
  then show ?thesis by auto
next
  case (served head buffer)
  then show ?thesis by (auto simp: rng_request_unique [OF served(1)])
next
  case (failed head buffer e m')
  then show ?thesis by (auto simp: rng_request_unique [OF failed(1)])
qed

theorem rng_process_complete_iff_witness:
  "rng_process_notified_queue (example_rng_dev, example_rng_ram)
     = (Ok \<lparr>rng_descriptor_id = 0, rng_completion_length = 8\<rparr>,
        (rng_dev_served example_rng_dev, rng_served example_rng_dev 0 0x400 example_rng_ram))"
proof (rule iffD2 [OF rng_process_complete_iff])
  show "memory_wf example_rng_ram" by (simp add: example_rng_ram_def example_ram_wf)
  show "rng_inv example_rng_dev" by (rule example_rng_dev_inv)
qed (rule exI [of _ 0], rule exI [of _ "0x400"], simp add: example_rng_request example_rng_targets)

text \<open>
  C16. A failed virtio-rng queue processing never changes the device (indices, notification and
  interrupt status stay), and changes guest RAM only when the request itself was valid but the used
  element was not in guest RAM; then exactly the payload was written to the request's buffer.
\<close>

theorem rng_process_error_effect:
  assumes "memory_wf m" and "rng_inv d"
    and "rng_process_notified_queue (d, m) = (Err e, (d', m'))"
  shows "d' = d \<and> (m' = m \<or> (\<exists>head buffer. rng_request_at d m head buffer
           \<and> \<not> rng_targets_ok d m buffer \<and> m' = poke buffer VIRTIO_RNG_TEST_PAYLOAD m))"
  using assms by (cases rule: rng_process_cases) auto

theorem rng_process_error_effect_witness:
  "\<exists>e m'. rng_process_notified_queue (example_rng_dev\<lparr>rng_queue_device := 0xffc\<rparr>, example_rng_ram)
     = (Err e, (example_rng_dev\<lparr>rng_queue_device := 0xffc\<rparr>, m'))"
proof -
  let ?d = "example_rng_dev\<lparr>rng_queue_device := 0xffc\<rparr>"
  have wf: "memory_wf example_rng_ram" by (simp add: example_rng_ram_def example_ram_wf)
  have inv: "rng_inv ?d" using example_rng_dev_inv by (simp add: rng_inv_def)
  have req: "rng_request_at ?d example_rng_ram 0 0x400"
    using example_rng_slices
    by (auto simp: rng_request_at_def example_rng_dev_def rng_new_def rng_ensure_queue_ready_def
        descriptor_bytes_inject)
  have "\<not> rng_targets_ok ?d example_rng_ram 0x400"
    by (simp add: rng_targets_ok_def example_rng_dev_def rng_new_def in_ram_def example_rng_ram_def
        example_ram_def)
  with wf inv req obtain e d' m'
    where r: "rng_process_notified_queue (?d, example_rng_ram) = (Err e, (d', m'))"
    by (cases rule: rng_process_cases) (auto simp: rng_request_unique [OF req])
  with rng_process_error_effect [OF wf inv r] show ?thesis by blast
qed

end
