(* ===== verification/Virtio_Blk.thy ===== *)
theory Virtio_Blk
  imports Virtio_Common
begin

text \<open>
  The virtio-blk PCI function and the register side of the device (\<open>src/src/pci/virtio_blk.rs\<close>): the
  configuration space, the register file behind BAR 0, feature negotiation and the device-status
  state machine, with the invariant that every register access keeps.  The record \<open>blk_dev\<close> has the
  fields of \<open>VirtioBlkDevice\<close>, the four backing sectors and the path of a backing file included.
\<close>

section \<open>PCI function\<close>

abbreviation VIRTIO_BLK_PCI_DEVICE_ID :: u16 where "VIRTIO_BLK_PCI_DEVICE_ID \<equiv> 0x1042"
abbreviation VIRTIO_BLK_BAR_SIZE :: u32 where "VIRTIO_BLK_BAR_SIZE \<equiv> 0x1000"
abbreviation VIRTIO_BLK_QUEUE_INDEX :: u16 where "VIRTIO_BLK_QUEUE_INDEX \<equiv> 0"
abbreviation VIRTIO_BLK_SECTOR_SIZE :: usize where "VIRTIO_BLK_SECTOR_SIZE \<equiv> 512"
abbreviation VIRTIO_BLK_CAPACITY_SECTORS :: u64 where "VIRTIO_BLK_CAPACITY_SECTORS \<equiv> 4"
abbreviation VIRTIO_BLK_BACKING_SIZE :: usize where "VIRTIO_BLK_BACKING_SIZE \<equiv> 2048"
abbreviation VIRTIO_BLK_CONFIG_OFFSET :: u64 where "VIRTIO_BLK_CONFIG_OFFSET \<equiv> 0x300"
abbreviation VIRTIO_BLK_T_IN :: u32 where "VIRTIO_BLK_T_IN \<equiv> 0"
abbreviation VIRTIO_BLK_T_OUT :: u32 where "VIRTIO_BLK_T_OUT \<equiv> 1"
abbreviation VIRTIO_BLK_S_OK :: u8 where "VIRTIO_BLK_S_OK \<equiv> 0"
abbreviation VIRTIO_RING_F_INDIRECT_DESC :: u64 where "VIRTIO_RING_F_INDIRECT_DESC \<equiv> 0x10000000"

definition VIRTIO_BLK_SUPPORTED_FEATURES :: u64 where
  "VIRTIO_BLK_SUPPORTED_FEATURES = VIRTIO_F_VERSION_1 OR VIRTIO_RING_F_INDIRECT_DESC"

record blk_pci_function =
  blk_function_bar0 :: u32

definition blk_function_new :: "u32 \<Rightarrow> blk_pci_function" where
  "blk_function_new bar0 = \<lparr>blk_function_bar0 = bar0 AND 0xfffff000\<rparr>"

definition blk_function_read_dword :: "blk_pci_function \<Rightarrow> u8 \<Rightarrow> u32" where
  "blk_function_read_dword f offset =
     (if offset = 0x00 then push_bit 16 (ucast VIRTIO_BLK_PCI_DEVICE_ID) OR ucast VIRTIO_PCI_VENDOR_ID
      else if offset = 0x04 then push_bit 16 (ucast (push_bit 4 1 :: u16))
      else if offset = 0x08 then push_bit 24 0x01 OR 1
      else if offset = 0x0c then 0
      else if offset = 0x10 then blk_function_bar0 f
      else if offset = 0x2c then push_bit 16 0x02 OR ucast VIRTIO_PCI_VENDOR_ID
      else if offset = 0x34 then 0x40
      else if offset = 0x40 then capability_header 0x50 16 1
      else if offset = 0x44 then 0
      else if offset = 0x48 then 0
      else if offset = 0x4c then 0x38
      else if offset = 0x50 then capability_header 0x64 20 2
      else if offset = 0x54 then 0
      else if offset = 0x58 then ucast VIRTIO_NOTIFY_OFFSET
      else if offset = 0x5c then 2
      else if offset = 0x60 then 2
      else if offset = 0x64 then capability_header 0x74 16 3
      else if offset = 0x68 then 0
      else if offset = 0x6c then ucast VIRTIO_ISR_OFFSET
      else if offset = 0x70 then 1
      else if offset = 0x74 then capability_header 0 16 4
      else if offset = 0x78 then 0
      else if offset = 0x7c then ucast VIRTIO_BLK_CONFIG_OFFSET
      else if offset = 0x80 then 8
      else 0)"

section \<open>Backing store\<close>

definition deterministic_sector :: "u8 list" where
  "deterministic_sector =
     splice
       (splice (map (\<lambda>index. of_nat index * 17 + 3) [0..<VIRTIO_BLK_SECTOR_SIZE]) 0
          [0x42, 0x4c, 0x4b, 0x2d, 0x53, 0x45, 0x43, 0x54,
           0x4f, 0x52, 0x2d, 0x30, 0x30, 0x30, 0x30, 0x21])
       (VIRTIO_BLK_SECTOR_SIZE - 8) [0x42, 0x4c, 0x4b, 0x45, 0x4e, 0x44, 0x21, 0x21]"

definition deterministic_backing :: "u8 list" where
  "deterministic_backing =
     deterministic_sector
     @ concat (map (\<lambda>sector. map (\<lambda>index. of_nat index * 17 + 3 + of_nat sector * 41)
                                [0..<VIRTIO_BLK_SECTOR_SIZE])
                [1..<unat VIRTIO_BLK_CAPACITY_SECTORS])"

text \<open>The features a driver may accept: version 1 is required, indirect descriptors are optional.\<close>

definition blk_features_valid :: "u64 \<Rightarrow> bool" where
  "blk_features_valid features \<longleftrightarrow>
     features AND VIRTIO_F_VERSION_1 = VIRTIO_F_VERSION_1
     \<and> features AND NOT VIRTIO_BLK_SUPPORTED_FEATURES = 0"

section \<open>Device state\<close>

record blk_dev =
  blk_bar0 :: u64
  blk_device_feature_select :: u32
  blk_driver_feature_select :: u32
  blk_driver_features :: u64
  blk_status :: u8
  blk_queue_select :: u16
  blk_queue_size :: u16
  blk_queue_enabled :: bool
  blk_queue_desc :: u64
  blk_queue_driver :: u64
  blk_queue_device :: u64
  blk_notify_pending :: bool
  blk_last_avail_idx :: u16
  blk_last_used_idx :: u16
  blk_isr_status :: u8
  blk_backing :: "u8 list"
  blk_persistent_backing :: "string option"

definition blk_new :: "u64 \<Rightarrow> blk_dev" where
  "blk_new bar0 =
     \<lparr>blk_bar0 = bar0, blk_device_feature_select = 0, blk_driver_feature_select = 0,
      blk_driver_features = 0, blk_status = 0, blk_queue_select = 0,
      blk_queue_size = VIRTIO_QUEUE_MAX_SIZE, blk_queue_enabled = False, blk_queue_desc = 0,
      blk_queue_driver = 0, blk_queue_device = 0, blk_notify_pending = False,
      blk_last_avail_idx = 0, blk_last_used_idx = 0, blk_isr_status = 0,
      blk_backing = deterministic_backing, blk_persistent_backing = None\<rparr>"

definition blk_reset :: "blk_dev \<Rightarrow> blk_dev" where
  "blk_reset d =
     d\<lparr>blk_device_feature_select := 0, blk_driver_feature_select := 0,
       blk_driver_features := 0, blk_status := 0, blk_queue_select := 0,
       blk_queue_size := VIRTIO_QUEUE_MAX_SIZE, blk_queue_enabled := False, blk_queue_desc := 0,
       blk_queue_driver := 0, blk_queue_device := 0, blk_notify_pending := False,
       blk_last_avail_idx := 0, blk_last_used_idx := 0, blk_isr_status := 0\<rparr>"

datatype blk_event = Blk_QueueNotified u16

section \<open>Register helpers\<close>

definition blk_read_u16 :: "u64 \<Rightarrow> u8 list \<Rightarrow> (u16, blk_error) outcome" where
  "blk_read_u16 offset payload =
     (if length payload = 2 then Ok (from_le_bytes payload)
      else Err (Blk_InvalidRegisterPayload offset 2 (length payload)))"

definition blk_read_u32 :: "u64 \<Rightarrow> u8 list \<Rightarrow> (u32, blk_error) outcome" where
  "blk_read_u32 offset payload =
     (if length payload = 4 then Ok (from_le_bytes payload)
      else Err (Blk_InvalidRegisterPayload offset 4 (length payload)))"

definition blk_device_feature_word :: "blk_dev \<Rightarrow> u32" where
  "blk_device_feature_word d =
     (if blk_device_feature_select d = 0 then low_u32 VIRTIO_BLK_SUPPORTED_FEATURES
      else if blk_device_feature_select d = 1 then high_u32 VIRTIO_BLK_SUPPORTED_FEATURES
      else 0)"

definition blk_driver_feature_word :: "blk_dev \<Rightarrow> u32" where
  "blk_driver_feature_word d =
     (if blk_driver_feature_select d = 0 then low_u32 (blk_driver_features d)
      else if blk_driver_feature_select d = 1 then high_u32 (blk_driver_features d)
      else 0)"

definition blk_write_driver_feature_word :: "u32 \<Rightarrow> blk_dev \<Rightarrow> (blk_dev, blk_error) outcome" where
  "blk_write_driver_feature_word value d =
     (if blk_status d AND VIRTIO_STATUS_FEATURES_OK \<noteq> 0
      then Err (Blk_InvalidDeviceStatus (blk_status d) (blk_status d))
      else if blk_driver_feature_select d = 0
      then Ok (d\<lparr>blk_driver_features := (blk_driver_features d AND NOT 0xffffffff) OR ucast value\<rparr>)
      else if blk_driver_feature_select d = 1
      then Ok (d\<lparr>blk_driver_features :=
             (blk_driver_features d AND 0xffffffff) OR push_bit 32 (ucast value)\<rparr>)
      else if value = 0 then Ok d
      else Err (Blk_InvalidDeviceStatus (blk_status d) (blk_status d)))"

definition blk_negotiated_features_valid :: "blk_dev \<Rightarrow> bool" where
  "blk_negotiated_features_valid d \<longleftrightarrow> blk_features_valid (blk_driver_features d)"

definition blk_write_status :: "u8 \<Rightarrow> blk_dev \<Rightarrow> (blk_dev, blk_error) outcome" where
  "blk_write_status requested d =
     (if requested = 0 then Ok (blk_reset d)
      else if requested AND NOT VIRTIO_STATUS_KNOWN \<noteq> 0 \<or> requested AND blk_status d \<noteq> blk_status d
      then Err (Blk_InvalidDeviceStatus (blk_status d) requested)
      else if requested AND VIRTIO_STATUS_DRIVER \<noteq> 0 \<and> requested AND VIRTIO_STATUS_ACKNOWLEDGE = 0
      then Err (Blk_InvalidDeviceStatus (blk_status d) requested)
      else if requested AND VIRTIO_STATUS_FEATURES_OK \<noteq> 0
              \<and> requested AND (VIRTIO_STATUS_ACKNOWLEDGE OR VIRTIO_STATUS_DRIVER)
                \<noteq> VIRTIO_STATUS_ACKNOWLEDGE OR VIRTIO_STATUS_DRIVER
      then Err (Blk_InvalidDeviceStatus (blk_status d) requested)
      else if requested AND VIRTIO_STATUS_FEATURES_OK \<noteq> 0
              \<and> \<not> blk_negotiated_features_valid d
      then Ok (d\<lparr>blk_status := requested AND NOT VIRTIO_STATUS_FEATURES_OK\<rparr>)
      else if requested AND VIRTIO_STATUS_DRIVER_OK \<noteq> 0
              \<and> (requested AND VIRTIO_STATUS_FEATURES_OK = 0 \<or> \<not> blk_queue_enabled d)
      then Err (Blk_InvalidDeviceStatus (blk_status d) requested)
      else Ok (d\<lparr>blk_status := requested\<rparr>))"

definition blk_ensure_selected_queue :: "blk_dev \<Rightarrow> (unit, blk_error) outcome" where
  "blk_ensure_selected_queue d =
     (if blk_queue_select d = VIRTIO_BLK_QUEUE_INDEX
      then Ok () else Err (Blk_UnsupportedQueue (blk_queue_select d)))"

definition blk_ensure_queue_unlocked :: "blk_dev \<Rightarrow> (unit, blk_error) outcome" where
  "blk_ensure_queue_unlocked d =
     and_then (blk_ensure_selected_queue d)
       (\<lambda>_. if blk_queue_enabled d then Err Blk_QueueConfigurationLocked else Ok ())"

definition blk_ensure_queue_ready :: "blk_dev \<Rightarrow> (unit, blk_error) outcome" where
  "blk_ensure_queue_ready d =
     (if blk_status d AND VIRTIO_STATUS_DRIVER_OK = 0
         \<or> blk_status d AND VIRTIO_STATUS_FEATURES_OK = 0
         \<or> \<not> blk_negotiated_features_valid d
         \<or> \<not> blk_queue_enabled d
         \<or> blk_queue_desc d = 0 \<or> blk_queue_driver d = 0 \<or> blk_queue_device d = 0
      then Err Blk_QueueNotReady else Ok ())"

definition blk_write_queue_size :: "u16 \<Rightarrow> blk_dev \<Rightarrow> (blk_dev, blk_error) outcome" where
  "blk_write_queue_size sz d =
     and_then (blk_ensure_selected_queue d) (\<lambda>_.
     and_then (blk_ensure_queue_unlocked d) (\<lambda>_.
     if sz = 0 \<or> sz > VIRTIO_QUEUE_MAX_SIZE \<or> \<not> is_power_of_two sz
     then Err (Blk_InvalidQueueSize sz VIRTIO_QUEUE_MAX_SIZE)
     else Ok (d\<lparr>blk_queue_size := sz\<rparr>)))"

definition blk_write_queue_enable :: "u16 \<Rightarrow> blk_dev \<Rightarrow> (blk_dev, blk_error) outcome" where
  "blk_write_queue_enable value d =
     and_then (blk_ensure_selected_queue d) (\<lambda>_.
     if value = 0 then Ok (d\<lparr>blk_queue_enabled := False\<rparr>)
     else if value = 1 \<and> blk_queue_desc d \<noteq> 0 \<and> blk_queue_driver d \<noteq> 0 \<and> blk_queue_device d \<noteq> 0
     then Ok (d\<lparr>blk_queue_enabled := True\<rparr>)
     else Err Blk_QueueNotReady)"

definition blk_selected_queue_size :: "blk_dev \<Rightarrow> u16" where
  "blk_selected_queue_size d =
     (if blk_queue_select d = VIRTIO_BLK_QUEUE_INDEX then blk_queue_size d else 0)"

section \<open>Register accesses\<close>

definition blk_read :: "u64 \<Rightarrow> usize \<Rightarrow> (blk_dev, u8 list, blk_error) op" where
  "blk_read offset len d =
     (if offset = COMMON_DEVICE_FEATURE_SELECT \<and> len = 4
      then (Ok (to_le_bytes (blk_device_feature_select d)), d)
      else if offset = COMMON_DEVICE_FEATURE \<and> len = 4
      then (Ok (to_le_bytes (blk_device_feature_word d)), d)
      else if offset = COMMON_DRIVER_FEATURE_SELECT \<and> len = 4
      then (Ok (to_le_bytes (blk_driver_feature_select d)), d)
      else if offset = COMMON_DRIVER_FEATURE \<and> len = 4
      then (Ok (to_le_bytes (blk_driver_feature_word d)), d)
      else if offset = COMMON_CONFIG_MSIX_VECTOR \<and> len = 2
      then (Ok (to_le_bytes (0xffff :: u16)), d)
      else if offset = COMMON_NUM_QUEUES \<and> len = 2 then (Ok (to_le_bytes (1 :: u16)), d)
      else if offset = COMMON_DEVICE_STATUS \<and> len = 1 then (Ok [blk_status d], d)
      else if offset = COMMON_CONFIG_GENERATION \<and> len = 1 then (Ok [0], d)
      else if offset = COMMON_QUEUE_SELECT \<and> len = 2
      then (Ok (to_le_bytes (blk_queue_select d)), d)
      else if offset = COMMON_QUEUE_SIZE \<and> len = 2
      then (Ok (to_le_bytes (blk_selected_queue_size d)), d)
      else if offset = COMMON_QUEUE_MSIX_VECTOR \<and> len = 2
      then (Ok (to_le_bytes (0xffff :: u16)), d)
      else if offset = COMMON_QUEUE_ENABLE \<and> len = 2
      then (Ok (to_le_bytes (of_bool (blk_queue_enabled d) :: u16)), d)
      else if offset = COMMON_QUEUE_NOTIFY_OFF \<and> len = 2 then (Ok (to_le_bytes (0 :: u16)), d)
      else if offset = COMMON_QUEUE_DESC \<and> len = 4
      then (Ok (to_le_bytes (low_u32 (blk_queue_desc d))), d)
      else if offset = COMMON_QUEUE_DESC_HIGH \<and> len = 4
      then (Ok (to_le_bytes (high_u32 (blk_queue_desc d))), d)
      else if offset = COMMON_QUEUE_DRIVER \<and> len = 4
      then (Ok (to_le_bytes (low_u32 (blk_queue_driver d))), d)
      else if offset = COMMON_QUEUE_DRIVER_HIGH \<and> len = 4
      then (Ok (to_le_bytes (high_u32 (blk_queue_driver d))), d)
      else if offset = COMMON_QUEUE_DEVICE \<and> len = 4
      then (Ok (to_le_bytes (low_u32 (blk_queue_device d))), d)
      else if offset = COMMON_QUEUE_DEVICE_HIGH \<and> len = 4
      then (Ok (to_le_bytes (high_u32 (blk_queue_device d))), d)
      else if offset = VIRTIO_ISR_OFFSET \<and> len = 1
      then (Ok [blk_isr_status d], d\<lparr>blk_isr_status := 0\<rparr>)
      else if offset = VIRTIO_BLK_CONFIG_OFFSET \<and> len = 8
      then (Ok (to_le_bytes VIRTIO_BLK_CAPACITY_SECTORS), d)
      else (Err (Blk_UnsupportedRegisterAccess offset len False), d))"

text \<open>
  The write of a queue-address half: refused while the queue is enabled or another queue is selected.
\<close>

definition blk_write_address ::
  "u64 \<Rightarrow> u8 list \<Rightarrow> (u32 \<Rightarrow> blk_dev) \<Rightarrow> blk_dev \<Rightarrow> (blk_event option \<times> blk_dev, blk_error) outcome" where
  "blk_write_address offset payload upd d =
     and_then (blk_ensure_queue_unlocked d) (\<lambda>_.
     and_then (blk_read_u32 offset payload) (\<lambda>v. Ok (None, upd v)))"

definition blk_write :: "u64 \<Rightarrow> u8 list \<Rightarrow> (blk_dev, blk_event option, blk_error) op" where
  "blk_write offset payload d = commit d
     (if offset = COMMON_DEVICE_FEATURE_SELECT \<and> length payload = 4
      then and_then (blk_read_u32 offset payload)
             (\<lambda>v. Ok (None, d\<lparr>blk_device_feature_select := v\<rparr>))
      else if offset = COMMON_DRIVER_FEATURE_SELECT \<and> length payload = 4
      then and_then (blk_read_u32 offset payload)
             (\<lambda>v. Ok (None, d\<lparr>blk_driver_feature_select := v\<rparr>))
      else if offset = COMMON_DRIVER_FEATURE \<and> length payload = 4
      then and_then (blk_read_u32 offset payload)
             (\<lambda>v. map_ok (Pair None) (blk_write_driver_feature_word v d))
      else if offset = COMMON_DEVICE_STATUS \<and> length payload = 1
      then map_ok (Pair None) (blk_write_status (payload ! 0) d)
      else if offset = COMMON_QUEUE_SELECT \<and> length payload = 2
      then and_then (blk_read_u16 offset payload) (\<lambda>v. Ok (None, d\<lparr>blk_queue_select := v\<rparr>))
      else if offset = COMMON_QUEUE_SIZE \<and> length payload = 2
      then and_then (blk_read_u16 offset payload)
             (\<lambda>v. map_ok (Pair None) (blk_write_queue_size v d))
      else if offset = COMMON_QUEUE_ENABLE \<and> length payload = 2
      then and_then (blk_read_u16 offset payload)
             (\<lambda>v. map_ok (Pair None) (blk_write_queue_enable v d))
      else if offset = COMMON_QUEUE_DESC \<and> length payload = 4
      then blk_write_address offset payload
             (\<lambda>v. d\<lparr>blk_queue_desc := replace_low_u32 (blk_queue_desc d) v\<rparr>) d
      else if offset = COMMON_QUEUE_DESC_HIGH \<and> length payload = 4
      then blk_write_address offset payload
             (\<lambda>v. d\<lparr>blk_queue_desc := replace_high_u32 (blk_queue_desc d) v\<rparr>) d
      else if offset = COMMON_QUEUE_DRIVER \<and> length payload = 4
      then blk_write_address offset payload
             (\<lambda>v. d\<lparr>blk_queue_driver := replace_low_u32 (blk_queue_driver d) v\<rparr>) d
      else if offset = COMMON_QUEUE_DRIVER_HIGH \<and> length payload = 4
      then blk_write_address offset payload
             (\<lambda>v. d\<lparr>blk_queue_driver := replace_high_u32 (blk_queue_driver d) v\<rparr>) d
      else if offset = COMMON_QUEUE_DEVICE \<and> length payload = 4
      then blk_write_address offset payload
             (\<lambda>v. d\<lparr>blk_queue_device := replace_low_u32 (blk_queue_device d) v\<rparr>) d
      else if offset = COMMON_QUEUE_DEVICE_HIGH \<and> length payload = 4
      then blk_write_address offset payload
             (\<lambda>v. d\<lparr>blk_queue_device := replace_high_u32 (blk_queue_device d) v\<rparr>) d
      else if offset = VIRTIO_NOTIFY_OFFSET \<and> length payload = 2
      then and_then (blk_read_u16 offset payload) (\<lambda>queue.
           if queue \<noteq> VIRTIO_BLK_QUEUE_INDEX then Err (Blk_UnexpectedQueueNotification queue)
           else and_then (blk_ensure_queue_ready d) (\<lambda>_.
             Ok (Some (Blk_QueueNotified queue), d\<lparr>blk_notify_pending := True\<rparr>)))
      else Err (Blk_UnsupportedRegisterAccess offset (length payload) True))"

section \<open>Invariant\<close>

definition blk_inv :: "blk_dev \<Rightarrow> bool" where
  "blk_inv d \<longleftrightarrow>
     valid_queue_size (blk_queue_size d)
     \<and> (blk_queue_enabled d \<longrightarrow>
          blk_queue_desc d \<noteq> 0 \<and> blk_queue_driver d \<noteq> 0 \<and> blk_queue_device d \<noteq> 0)
     \<and> status_consistent (blk_status d) (blk_features_valid (blk_driver_features d))
     \<and> blk_last_avail_idx d = blk_last_used_idx d
     \<and> (blk_isr_status d = 0 \<or> blk_isr_status d = VIRTIO_ISR_QUEUE_INTERRUPT)
     \<and> length (blk_backing d) = VIRTIO_BLK_BACKING_SIZE"

text \<open>Two devices with the same sectors and the same file behind them.\<close>

definition same_backing :: "blk_dev \<Rightarrow> blk_dev \<Rightarrow> bool" where
  "same_backing d d' \<longleftrightarrow>
     blk_backing d' = blk_backing d \<and> blk_persistent_backing d' = blk_persistent_backing d"

section \<open>Register accesses keep the invariant\<close>

lemma length_deterministic_sector [simp]: "length deterministic_sector = 512"
  by (simp add: deterministic_sector_def)

lemma length_deterministic_backing [simp]: "length deterministic_backing = 2048"
  by (simp add: deterministic_backing_def length_concat comp_def sum_list_triv)

lemma blk_inv_new: "blk_inv (blk_new bar0)"
  by (simp add: blk_inv_def blk_new_def valid_queue_size_cases)

lemma blk_inv_reset: "blk_inv d \<Longrightarrow> blk_inv (blk_reset d)"
  by (simp add: blk_inv_def blk_reset_def valid_queue_size_cases)

lemma blk_queue_size_pos: "blk_inv d \<Longrightarrow> blk_queue_size d \<noteq> 0"
  by (simp add: blk_inv_def valid_queue_size_def)

lemma blk_read_inv:
  assumes "blk_inv d" and "blk_read off len d = (r, d')"
  shows "blk_inv d' \<and> \<not> is_fault r"
proof -
  have "blk_inv (d\<lparr>blk_isr_status := 0\<rparr>)" using assms(1) by (simp add: blk_inv_def)
  with assms(1) have "blk_inv (snd (blk_read off len d)) \<and> \<not> is_fault (fst (blk_read off len d))"
    by (simp add: blk_read_def)
  with assms(2) show ?thesis by simp
qed

lemma blk_write_status_inv:
  assumes "blk_inv d" and "blk_write_status req d = Ok d'"
  shows "blk_inv d'"
proof -
  consider "d' = blk_reset d"
    | "d' = d\<lparr>blk_status := req AND NOT VIRTIO_STATUS_FEATURES_OK\<rparr>" "req AND NOT VIRTIO_STATUS_KNOWN = 0"
      "req AND VIRTIO_STATUS_DRIVER \<noteq> 0 \<longrightarrow> req AND VIRTIO_STATUS_ACKNOWLEDGE \<noteq> 0"
    | "d' = d\<lparr>blk_status := req\<rparr>" "status_consistent req (blk_features_valid (blk_driver_features d))"
    using assms(2) unfolding blk_write_status_def blk_negotiated_features_valid_def status_consistent_def
    by (simp split: if_splits; blast)
  then show ?thesis
  proof cases
    case 1
    with assms(1) show ?thesis by (simp add: blk_inv_reset)
  next
    case 2
    with assms(1) status_drop_features [OF 2(2,3)] show ?thesis by (simp add: blk_inv_def)
  next
    case 3
    with assms(1) show ?thesis by (simp add: blk_inv_def)
  qed
qed

lemma blk_inv_select [simp]:
  "blk_inv (d\<lparr>blk_device_feature_select := a\<rparr>) = blk_inv d"
  "blk_inv (d\<lparr>blk_driver_feature_select := a\<rparr>) = blk_inv d"
  "blk_inv (d\<lparr>blk_queue_select := b\<rparr>) = blk_inv d"
  "blk_inv (d\<lparr>blk_notify_pending := c\<rparr>) = blk_inv d"
  by (simp_all add: blk_inv_def)

lemma blk_inv_unlocked [simp]:
  assumes "\<not> blk_queue_enabled d"
  shows "blk_inv (d\<lparr>blk_queue_desc := a\<rparr>) = blk_inv d"
    and "blk_inv (d\<lparr>blk_queue_driver := a\<rparr>) = blk_inv d"
    and "blk_inv (d\<lparr>blk_queue_device := a\<rparr>) = blk_inv d"
  using assms by (simp_all add: blk_inv_def)

lemma blk_no_fault [simp]:
  "\<not> is_fault (blk_read_u16 off p)" "\<not> is_fault (blk_read_u32 off p)"
  "\<not> is_fault (blk_ensure_selected_queue d)" "\<not> is_fault (blk_ensure_queue_unlocked d)"
  "\<not> is_fault (blk_ensure_queue_ready d)" "\<not> is_fault (blk_write_status s d)"
  by (simp_all add: blk_read_u16_def blk_read_u32_def blk_ensure_selected_queue_def
      blk_ensure_queue_unlocked_def blk_ensure_queue_ready_def blk_write_status_def)

lemma blk_write_feature_wp [simp]:
  "blk_inv d \<Longrightarrow> wp (blk_write_driver_feature_word v d) blk_inv"
  by (auto simp: blk_write_driver_feature_word_def blk_inv_def intro: status_consistent_any)

lemma blk_write_status_wp [simp]: "blk_inv d \<Longrightarrow> wp (blk_write_status s d) blk_inv"
  using blk_write_status_inv by (simp add: wp_iff)

lemma blk_write_queue_size_wp [simp]: "blk_inv d \<Longrightarrow> wp (blk_write_queue_size v d) blk_inv"
  by (auto simp: blk_write_queue_size_def blk_inv_def blk_ensure_queue_unlocked_def
      blk_ensure_selected_queue_def valid_queue_size_def)

lemma blk_write_queue_enable_wp [simp]: "blk_inv d \<Longrightarrow> wp (blk_write_queue_enable v d) blk_inv"
  by (auto simp: blk_write_queue_enable_def blk_inv_def blk_ensure_selected_queue_def)

lemma blk_write_address_wp [simp]:
  "(\<And>v. \<not> blk_queue_enabled d \<Longrightarrow> blk_inv (upd v)) \<Longrightarrow>
     wp (blk_write_address off p upd d) (\<lambda>(ev, d'). blk_inv d')"
  by (simp add: blk_write_address_def blk_ensure_queue_unlocked_def blk_ensure_selected_queue_def)

lemma blk_write_inv:
  assumes "blk_inv d" and "blk_write off p d = (r, d')"
  shows "blk_inv d' \<and> \<not> is_fault r"
  by (rule wp_commit [where I = blk_inv, OF _ assms(1) assms(2) [unfolded blk_write_def]]) (simp add: assms(1))

lemma blk_write_Err: "blk_write off p d = (Err e, d') \<Longrightarrow> d' = d"
  by (simp add: blk_write_def outcome_simps)

text \<open>No register access touches the sectors or the file behind them.\<close>

lemma blk_read_backing: "blk_read off len d = (r, d') \<Longrightarrow> same_backing d d'"
proof -
  assume r: "blk_read off len d = (r, d')"
  have "same_backing d (snd (blk_read off len d))" by (simp add: blk_read_def same_backing_def)
  with r show ?thesis by simp
qed

lemma blk_write_backing_wp [simp]:
  "wp (blk_write_driver_feature_word v d) (same_backing d)"
  "wp (blk_write_status s d) (same_backing d)"
  "wp (blk_write_queue_size w d) (same_backing d)"
  "wp (blk_write_queue_enable w d) (same_backing d)"
  by (simp_all add: same_backing_def blk_write_driver_feature_word_def blk_write_status_def
      blk_write_queue_size_def blk_write_queue_enable_def blk_reset_def)

lemma blk_write_address_backing [simp]:
  "(\<And>v. same_backing d (upd v)) \<Longrightarrow>
     wp (blk_write_address off p upd d) (\<lambda>(ev, d'). same_backing d d')"
  by (simp add: blk_write_address_def)

lemma same_backing_updates [simp]:
  "same_backing d d"
  "same_backing d (d\<lparr>blk_device_feature_select := a\<rparr>)" "same_backing d (d\<lparr>blk_driver_feature_select := a\<rparr>)"
  "same_backing d (d\<lparr>blk_queue_select := b\<rparr>)" "same_backing d (d\<lparr>blk_notify_pending := c\<rparr>)"
  "same_backing d (d\<lparr>blk_queue_desc := x\<rparr>)" "same_backing d (d\<lparr>blk_queue_driver := x\<rparr>)"
  "same_backing d (d\<lparr>blk_queue_device := x\<rparr>)"
  by (simp_all add: same_backing_def)

lemma blk_write_backing:
  assumes "blk_write off p d = (r, d')"
  shows "same_backing d d'"
  using wp_commit [where I = "same_backing d", OF _ _ assms [unfolded blk_write_def]] by simp

end
