(* ===== verification/Port_Io.thy ===== *)
theory Port_Io
  imports Vcpu_Exits Virtio_Rng Virtio_Blk
begin

text \<open>
  Port I/O: PCI configuration mechanism 1 with its single function (\<open>src/src/pci.rs\<close>) and the port
  bus with the debug port (\<open>src/src/portio.rs\<close>).

  The main results: the guest sees exactly the configuration space of the selected function and
  all-ones elsewhere, an MSI message is the one the guest programmed, and the debug port logs the
  bytes of the successful one-byte outputs in order.
\<close>

section \<open>PCI configuration space\<close>

abbreviation PCI_CONFIG_ADDRESS_PORT :: u16 where "PCI_CONFIG_ADDRESS_PORT \<equiv> 0x0cf8"
abbreviation PCI_CONFIG_DATA_PORT :: u16 where "PCI_CONFIG_DATA_PORT \<equiv> 0x0cfc"
abbreviation SYNTHETIC_PCI_BUS :: u8 where "SYNTHETIC_PCI_BUS \<equiv> 0"
abbreviation SYNTHETIC_PCI_DEVICE :: u8 where "SYNTHETIC_PCI_DEVICE \<equiv> 1"
abbreviation SYNTHETIC_PCI_FUNCTION :: u8 where "SYNTHETIC_PCI_FUNCTION \<equiv> 0"
abbreviation SYNTHETIC_PCI_VENDOR_ID :: u16 where "SYNTHETIC_PCI_VENDOR_ID \<equiv> 0xcafe"
abbreviation SYNTHETIC_PCI_DEVICE_ID :: u16 where "SYNTHETIC_PCI_DEVICE_ID \<equiv> 0x0001"
abbreviation SYNTHETIC_PCI_CLASS_CODE :: u8 where "SYNTHETIC_PCI_CLASS_CODE \<equiv> 0xff"
abbreviation SYNTHETIC_PCI_REVISION :: u8 where "SYNTHETIC_PCI_REVISION \<equiv> 1"
abbreviation PCI_CONFIG_ENABLE :: u32 where "PCI_CONFIG_ENABLE \<equiv> 0x80000000"
abbreviation PCI_CONFIG_REGISTER_MASK :: u32 where "PCI_CONFIG_REGISTER_MASK \<equiv> 0xfc"
abbreviation PCI_CAP_ID_MSI :: u8 where "PCI_CAP_ID_MSI \<equiv> 0x05"
abbreviation VIRTIO_MSI_CAPABILITY_OFFSET :: u8 where "VIRTIO_MSI_CAPABILITY_OFFSET \<equiv> 0x74"
abbreviation VIRTIO_MSI_ADDRESS_OFFSET :: u8 where "VIRTIO_MSI_ADDRESS_OFFSET \<equiv> 0x78"
abbreviation VIRTIO_MSI_DATA_OFFSET :: u8 where "VIRTIO_MSI_DATA_OFFSET \<equiv> 0x7c"
abbreviation PCI_MSI_ENABLE :: u16 where "PCI_MSI_ENABLE \<equiv> 1"

datatype (plugins only: code) pci_config_service = Config_Output | Config_Input "u8 list"

record pci_msi_message =
  message_address :: u32
  message_data :: u16

record pci_msi =
  msi_control :: u16
  msi_address :: u32
  msi_data :: u16

definition msi_new :: pci_msi where
  "msi_new = \<lparr>msi_control = 0, msi_address = 0, msi_data = 0\<rparr>"

definition msi_read_dword :: "pci_msi \<Rightarrow> u8 \<Rightarrow> u32 option" where
  "msi_read_dword m offset =
     (if offset = VIRTIO_MSI_CAPABILITY_OFFSET then
        Some (from_le_bytes [PCI_CAP_ID_MSI, 0, ucast (msi_control m), ucast (drop_bit 8 (msi_control m))])
      else if offset = VIRTIO_MSI_ADDRESS_OFFSET then Some (msi_address m)
      else if offset = VIRTIO_MSI_DATA_OFFSET then Some (ucast (msi_data m))
      else None)"

definition msi_write_dword :: "u8 \<Rightarrow> u32 \<Rightarrow> pci_msi \<Rightarrow> bool \<times> pci_msi" where
  "msi_write_dword offset v m =
     (if offset = VIRTIO_MSI_CAPABILITY_OFFSET then
        if (ucast v :: u16) \<noteq> from_le_bytes [PCI_CAP_ID_MSI, 0] then (False, m)
        else let control = ucast (drop_bit 16 v) :: u16 in
          if control AND NOT PCI_MSI_ENABLE \<noteq> 0 then (False, m)
          else (True, m\<lparr>msi_control := control\<rparr>)
      else if offset = VIRTIO_MSI_ADDRESS_OFFSET then (True, m\<lparr>msi_address := v\<rparr>)
      else if offset = VIRTIO_MSI_DATA_OFFSET then
        if drop_bit 16 v \<noteq> 0 then (False, m) else (True, m\<lparr>msi_data := ucast v\<rparr>)
      else (False, m))"

definition msi_message :: "pci_msi \<Rightarrow> pci_msi_message option" where
  "msi_message m =
     (if msi_control m AND PCI_MSI_ENABLE = 0 then None
      else Some \<lparr>message_address = msi_address m, message_data = msi_data m\<rparr>)"

record synthetic_function =
  synthetic_bar0 :: u32

definition synthetic_new :: "u32 \<Rightarrow> synthetic_function" where
  "synthetic_new bar = \<lparr>synthetic_bar0 = bar AND 0xfffffff0\<rparr>"

definition synthetic_read_dword :: "synthetic_function \<Rightarrow> u8 \<Rightarrow> u32" where
  "synthetic_read_dword f offset =
     (if offset = 0x00 then push_bit 16 (ucast SYNTHETIC_PCI_DEVICE_ID) OR ucast SYNTHETIC_PCI_VENDOR_ID
      else if offset = 0x04 then 0
      else if offset = 0x08 then push_bit 24 (ucast SYNTHETIC_PCI_CLASS_CODE) OR ucast SYNTHETIC_PCI_REVISION
      else if offset = 0x0c then 0
      else if offset = 0x10 then synthetic_bar0 f
      else 0)"

record rng_endpoint =
  endpoint_function :: rng_pci_function
  endpoint_msi :: "pci_msi option"

definition endpoint_new :: "rng_pci_function \<Rightarrow> rng_endpoint" where
  "endpoint_new f = \<lparr>endpoint_function = f, endpoint_msi = None\<rparr>"

definition endpoint_with_msi :: "rng_pci_function \<Rightarrow> rng_endpoint" where
  "endpoint_with_msi f = \<lparr>endpoint_function = f, endpoint_msi = Some msi_new\<rparr>"

definition endpoint_read_dword :: "rng_endpoint \<Rightarrow> u8 \<Rightarrow> u32" where
  "endpoint_read_dword e offset =
     (case Option.bind (endpoint_msi e) (\<lambda>m. msi_read_dword m offset) of
        Some v \<Rightarrow> v
      | None \<Rightarrow>
          let v = rng_function_read_dword (endpoint_function e) offset in
          if offset = 0x64 \<and> endpoint_msi e \<noteq> None
          then from_le_bytes ((to_le_bytes v)[1 := VIRTIO_MSI_CAPABILITY_OFFSET]) else v)"

definition endpoint_write_dword :: "u8 \<Rightarrow> u32 \<Rightarrow> rng_endpoint \<Rightarrow> bool \<times> rng_endpoint" where
  "endpoint_write_dword offset v e =
     (case endpoint_msi e of
        None \<Rightarrow> (False, e)
      | Some m \<Rightarrow> (case msi_write_dword offset v m of (ok, m') \<Rightarrow> (ok, e\<lparr>endpoint_msi := Some m'\<rparr>)))"

definition endpoint_msi_message :: "rng_endpoint \<Rightarrow> pci_msi_message option" where
  "endpoint_msi_message e = Option.bind (endpoint_msi e) msi_message"

datatype (plugins only: code) pci_function =
    Pci_Synthetic synthetic_function
  | Pci_VirtioRng rng_endpoint
  | Pci_VirtioBlk blk_pci_function

fun pci_read_dword :: "pci_function \<Rightarrow> u8 \<Rightarrow> u32" where
  "pci_read_dword (Pci_Synthetic f) offset = synthetic_read_dword f offset"
| "pci_read_dword (Pci_VirtioRng f) offset = endpoint_read_dword f offset"
| "pci_read_dword (Pci_VirtioBlk f) offset = blk_function_read_dword f offset"

fun pci_write_dword :: "u8 \<Rightarrow> u32 \<Rightarrow> pci_function \<Rightarrow> bool \<times> pci_function" where
  "pci_write_dword offset v (Pci_Synthetic f) = (False, Pci_Synthetic f)"
| "pci_write_dword offset v (Pci_VirtioBlk f) = (False, Pci_VirtioBlk f)"
| "pci_write_dword offset v (Pci_VirtioRng f) =
     (case endpoint_write_dword offset v f of (ok, f') \<Rightarrow> (ok, Pci_VirtioRng f'))"

fun pci_msi_message_of :: "pci_function \<Rightarrow> pci_msi_message option" where
  "pci_msi_message_of (Pci_Synthetic f) = None"
| "pci_msi_message_of (Pci_VirtioBlk f) = None"
| "pci_msi_message_of (Pci_VirtioRng f) = endpoint_msi_message f"

section \<open>Configuration mechanism 1\<close>

record pci_config =
  config_address :: u32
  config_function :: pci_function

definition config_new :: "synthetic_function \<Rightarrow> pci_config" where
  "config_new f = \<lparr>config_address = 0, config_function = Pci_Synthetic f\<rparr>"

definition config_with_virtio_rng :: "rng_pci_function \<Rightarrow> pci_config" where
  "config_with_virtio_rng f = \<lparr>config_address = 0, config_function = Pci_VirtioRng (endpoint_new f)\<rparr>"

definition config_with_virtio_rng_msi :: "rng_pci_function \<Rightarrow> pci_config" where
  "config_with_virtio_rng_msi f =
     \<lparr>config_address = 0, config_function = Pci_VirtioRng (endpoint_with_msi f)\<rparr>"

definition config_with_virtio_blk :: "blk_pci_function \<Rightarrow> pci_config" where
  "config_with_virtio_blk f = \<lparr>config_address = 0, config_function = Pci_VirtioBlk f\<rparr>"

definition config_handles_port :: "u16 \<Rightarrow> bool" where
  "config_handles_port port \<longleftrightarrow> port = PCI_CONFIG_ADDRESS_PORT \<or> port = PCI_CONFIG_DATA_PORT"

definition config_msi_message :: "pci_config \<Rightarrow> pci_msi_message option" where
  "config_msi_message c = pci_msi_message_of (config_function c)"

definition unhandled_port :: "port_io_exit \<Rightarrow> port_io_error" where
  "unhandled_port io =
     UnhandledPort (pio_port io) (port_direction_raw (pio_direction io)) (pio_size io) (pio_count io)"

definition selected_offset :: "pci_config \<Rightarrow> u8 option" where
  "selected_offset c =
     (if config_address c AND PCI_CONFIG_ENABLE = 0 then None
      else let bus = ucast (drop_bit 16 (config_address c) AND 0xff) :: u8;
               device = ucast (drop_bit 11 (config_address c) AND 0x1f) :: u8;
               function = ucast (drop_bit 8 (config_address c) AND 0x07) :: u8 in
        if bus \<noteq> SYNTHETIC_PCI_BUS \<or> device \<noteq> SYNTHETIC_PCI_DEVICE \<or> function \<noteq> SYNTHETIC_PCI_FUNCTION
        then None else Some (ucast (config_address c AND PCI_CONFIG_REGISTER_MASK)))"

definition read_selected_dword :: "pci_config \<Rightarrow> u32" where
  "read_selected_dword c =
     (case selected_offset c of None \<Rightarrow> - 1 | Some offset \<Rightarrow> pci_read_dword (config_function c) offset)"

definition write_selected_dword :: "u32 \<Rightarrow> pci_config \<Rightarrow> bool \<times> pci_config" where
  "write_selected_dword v c =
     (case selected_offset c of None \<Rightarrow> (False, c)
      | Some offset \<Rightarrow>
          (case pci_write_dword offset v (config_function c) of (ok, f) \<Rightarrow> (ok, c\<lparr>config_function := f\<rparr>)))"

definition config_dispatch :: "port_io_exit \<Rightarrow> (pci_config, pci_config_service, port_io_error) op" where
  "config_dispatch io c =
     (if pio_size io \<noteq> 4 \<or> pio_count io \<noteq> 1 then (Err (unhandled_port io), c)
      else if pio_port io = PCI_CONFIG_ADDRESS_PORT then
        (case pio_direction io of
           Io_Out \<Rightarrow>
             if length (pio_output_data io) \<noteq> 4 then (Err (unhandled_port io), c)
             else (Ok Config_Output, c\<lparr>config_address := from_le_bytes (pio_output_data io)\<rparr>)
         | Io_In \<Rightarrow> (Ok (Config_Input (to_le_bytes (config_address c))), c))
      else if pio_port io = PCI_CONFIG_DATA_PORT then
        (case pio_direction io of
           Io_In \<Rightarrow> (Ok (Config_Input (to_le_bytes (read_selected_dword c))), c)
         | Io_Out \<Rightarrow>
             if length (pio_output_data io) \<noteq> 4 then (Err (unhandled_port io), c)
             else (case write_selected_dword (from_le_bytes (pio_output_data io)) c of
                     (True, c') \<Rightarrow> (Ok Config_Output, c') | (False, c') \<Rightarrow> (Err (unhandled_port io), c')))
      else (Err (unhandled_port io), c))"

definition config_selector :: "u8 \<Rightarrow> u32" where
  "config_selector offset =
     PCI_CONFIG_ENABLE OR push_bit 16 (ucast SYNTHETIC_PCI_BUS) OR push_bit 11 (ucast SYNTHETIC_PCI_DEVICE)
     OR push_bit 8 (ucast SYNTHETIC_PCI_FUNCTION) OR (ucast offset AND PCI_CONFIG_REGISTER_MASK)"

section \<open>The port bus\<close>

abbreviation DEBUG_PORT :: u16 where "DEBUG_PORT \<equiv> 0x00e9"

datatype (plugins only: code) port_io_service = Port_Output | Port_Input "u8 list"

record debug_port =
  debug_bytes :: "u8 list"
  debug_input_byte :: u8

record port_io_bus =
  bus_debug_port :: "debug_port option"
  bus_pci_config :: "pci_config option"

definition port_bus_empty :: port_io_bus where
  "port_bus_empty = \<lparr>bus_debug_port = None, bus_pci_config = None\<rparr>"

definition port_bus_with_debug_port :: port_io_bus where
  "port_bus_with_debug_port =
     \<lparr>bus_debug_port = Some \<lparr>debug_bytes = [], debug_input_byte = 0\<rparr>, bus_pci_config = None\<rparr>"

definition port_bus_with_debug_port_input :: "u8 \<Rightarrow> port_io_bus" where
  "port_bus_with_debug_port_input b =
     \<lparr>bus_debug_port = Some \<lparr>debug_bytes = [], debug_input_byte = b\<rparr>, bus_pci_config = None\<rparr>"

definition port_bus_with_debug_port_and_pci_config :: "pci_config \<Rightarrow> port_io_bus" where
  "port_bus_with_debug_port_and_pci_config c =
     \<lparr>bus_debug_port = Some \<lparr>debug_bytes = [], debug_input_byte = 0\<rparr>, bus_pci_config = Some c\<rparr>"

definition debug_handle :: "port_io_exit \<Rightarrow> (debug_port, port_io_service, port_io_error) op" where
  "debug_handle io d =
     (if pio_size io \<noteq> 1 \<or> pio_count io \<noteq> 1
      then (Err (UnsupportedDebugAccess (pio_port io) (port_direction_raw (pio_direction io)) (pio_size io)
        (pio_count io)), d)
      else case pio_direction io of
        Io_Out \<Rightarrow>
          if length (pio_output_data io) \<noteq> 1
          then (Err (InvalidOutputPayload (pio_port io) 1 (length (pio_output_data io))), d)
          else (case pio_output_data io of
                  b # _ \<Rightarrow> (Ok Port_Output, d\<lparr>debug_bytes := debug_bytes d @ [b]\<rparr>)
                | [] \<Rightarrow> (Fault Index_Out_Of_Range, d))
      | Io_In \<Rightarrow> (Ok (Port_Input [debug_input_byte d]), d))"

fun convert_pci_service :: "pci_config_service \<Rightarrow> port_io_service" where
  "convert_pci_service Config_Output = Port_Output"
| "convert_pci_service (Config_Input bytes) = Port_Input bytes"

definition port_dispatch :: "port_io_exit \<Rightarrow> (port_io_bus, port_io_service, vm_error) op" where
  "port_dispatch io bus =
     (if pio_port io = DEBUG_PORT then
        (case bus_debug_port bus of
           Some d \<Rightarrow> (case debug_handle io d of
                        (r, d') \<Rightarrow> (map_err PortIo r, bus\<lparr>bus_debug_port := Some d'\<rparr>))
         | None \<Rightarrow> (Err (PortIo (unhandled_port io)), bus))
      else if config_handles_port (pio_port io) then
        (case bus_pci_config bus of
           Some c \<Rightarrow> (case config_dispatch io c of
                        (r, c') \<Rightarrow> (map_err PortIo (map_ok convert_pci_service r), bus\<lparr>bus_pci_config := Some c'\<rparr>))
         | None \<Rightarrow> (Err (PortIo (unhandled_port io)), bus))
      else (Err (PortIo (unhandled_port io)), bus))"

definition debug_output :: "port_io_bus \<Rightarrow> u8 list option" where
  "debug_output bus = map_option debug_bytes (bus_debug_port bus)"

definition port_bus_msi_message :: "port_io_bus \<Rightarrow> pci_msi_message option" where
  "port_bus_msi_message bus = Option.bind (bus_pci_config bus) config_msi_message"

section \<open>Specification\<close>

text \<open>The accesses of a guest driver, and a sequence of exits through the bus.\<close>

definition port_out :: "u16 \<Rightarrow> u32 \<Rightarrow> port_io_exit" where
  "port_out port v = \<lparr>pio_direction = Io_Out, pio_size = 4, pio_port = port, pio_count = 1,
     pio_output_data = to_le_bytes v\<rparr>"

definition port_in :: "u16 \<Rightarrow> port_io_exit" where
  "port_in port = \<lparr>pio_direction = Io_In, pio_size = 4, pio_port = port, pio_count = 1,
     pio_output_data = []\<rparr>"

text \<open>A driver's write of a configuration dword: the address register, then the data register.\<close>

definition config_access :: "u8 \<Rightarrow> u32 \<Rightarrow> (pci_config, pci_config_service, port_io_error) op" where
  "config_access offset v c =
     config_dispatch (port_out PCI_CONFIG_DATA_PORT v)
       (snd (config_dispatch (port_out PCI_CONFIG_ADDRESS_PORT (config_selector offset)) c))"

fun port_run :: "port_io_exit list \<Rightarrow> port_io_bus \<Rightarrow> (port_io_service, vm_error) outcome list \<times> port_io_bus" where
  "port_run [] bus = ([], bus)"
| "port_run (io # ios) bus =
     (case port_dispatch io bus of (r, bus') \<Rightarrow>
      case port_run ios bus' of (rs, bus'') \<Rightarrow> (r # rs, bus''))"

definition debug_bytes_of :: "port_io_exit \<Rightarrow> u8 list" where
  "debug_bytes_of io =
     (if pio_port io = DEBUG_PORT \<and> pio_size io = 1 \<and> pio_count io = 1 \<and> pio_direction io = Io_Out
         \<and> length (pio_output_data io) = 1
      then pio_output_data io else [])"

definition selects_function :: "u32 \<Rightarrow> bool" where
  "selects_function v \<longleftrightarrow> bit v 31 \<and> drop_bit 16 v AND 0xff = 0 \<and> drop_bit 11 v AND 0x1f = 1
     \<and> drop_bit 8 v AND 0x07 = 0"

section \<open>Lemmas\<close>

subsection \<open>Selecting a register\<close>

lemma unat_and_le: "unat (v AND m) \<le> unat (m :: 'a::len word)"
  by (metis word_and_le1 word_le_nat_alt)

lemma ucast_u8_small: "unat (x :: u32) < 256 \<Longrightarrow> unat (ucast x :: u8) = unat x"
  by (simp add: unsigned_ucast_eq take_bit_nat_eq_self)

lemma ucast_masked:
  fixes v :: u32
  shows "(ucast (v AND 0xff) :: u8) = 0 \<longleftrightarrow> v AND 0xff = 0"
    and "(ucast (v AND 0x1f) :: u8) = 1 \<longleftrightarrow> v AND 0x1f = 1"
    and "(ucast (v AND 0x07) :: u8) = 0 \<longleftrightarrow> v AND 0x07 = 0"
  using unat_and_le [of v "0xff"] unat_and_le [of v "0x1f"] unat_and_le [of v "7"]
  by (simp_all add: word_unat_eq_iff ucast_u8_small)

lemma drop_bit_small: "unat (w :: 'a::len word) < 2 ^ n \<Longrightarrow> drop_bit n w = 0"
  using unat_lt [of w]
  by (simp add: word_unat_eq_iff unsigned_drop_bit_eq take_bit_nat_eq_self del: div_less)
    (simp add: drop_bit_eq_div)

lemma drop_bit_register:
  assumes "8 \<le> n"
  shows "drop_bit n (ucast (offset :: u8) AND 0xfc :: u32) = 0"
proof -
  have "unat (ucast offset AND 0xfc :: u32) < 2 ^ 8"
    using unat_and_le [of "ucast offset" "0xfc :: u32"] by simp
  also have "2 ^ 8 \<le> (2::nat) ^ n" using assms by (intro power_increasing) simp_all
  finally show ?thesis by (rule drop_bit_small)
qed

lemma and_or_distrib_word: "(a OR b) AND c = (a AND c) OR (b AND (c :: 'a::len word))"
  by (rule bit_word_eqI) (auto simp: bit_simps)

lemma ucast_register: "(ucast (ucast (offset :: u8) AND 0xfc :: u32) :: u8) = offset AND 0xfc"
  by (rule bit_word_eqI) (auto simp: bit_simps)

lemma and_sign_bit: "(v :: u32) AND 0x80000000 = 0 \<longleftrightarrow> \<not> bit v 31"
  using and_exp_eq_0_iff_not_bit [of v 31] by simp

lemma selected_offset_eq:
  "selected_offset c =
     (if selects_function (config_address c) then Some (ucast (config_address c AND 0xfc)) else None)"
  by (simp add: selected_offset_def selects_function_def and_sign_bit ucast_masked Let_def)

lemma config_selector_selects:
  "selects_function (config_selector offset)"
  "(ucast (config_selector offset AND 0xfc) :: u8) = offset AND 0xfc"
  by (simp_all add: selects_function_def config_selector_def drop_bit_or drop_bit_register
      and_or_distrib_word ucast_register bit_or_iff flip: and_sign_bit)

subsection \<open>MSI registers\<close>

lemma msi_write_False: "msi_write_dword offset v m = (False, m') \<Longrightarrow> m' = m"
  by (auto simp: msi_write_dword_def Let_def split: if_splits)

lemma endpoint_write_False: "endpoint_write_dword offset v e = (False, e') \<Longrightarrow> e' = e"
  by (auto simp: endpoint_write_dword_def split: option.splits prod.splits dest: msi_write_False)

lemma pci_write_False: "pci_write_dword offset v f = (False, f') \<Longrightarrow> f' = f"
  by (cases f) (auto split: prod.splits dest: endpoint_write_False)

lemma config_dispatch_error: "config_dispatch io c = (Err e, c') \<Longrightarrow> c' = c"
  by (auto simp: config_dispatch_def write_selected_dword_def
      split: if_splits port_io_direction.splits prod.splits bool.splits option.splits
      dest: pci_write_False)

lemma config_dispatch_no_fault: "\<not> is_fault (fst (config_dispatch io c))"
  by (auto simp: config_dispatch_def split: port_io_direction.splits prod.splits bool.splits)

lemma config_access_msi:
  assumes "config_function c = Pci_VirtioRng e" and "endpoint_msi e = Some m" and "offset AND 0xfc = offset"
    and "msi_write_dword offset v m = (True, m')"
  shows "config_access offset v c = (Ok Config_Output, c\<lparr>config_address := config_selector offset,
    config_function := Pci_VirtioRng (e\<lparr>endpoint_msi := Some m'\<rparr>)\<rparr>)"
  using assms config_selector_selects [of offset]
  by (simp add: config_access_def config_dispatch_def port_out_def write_selected_dword_def
      selected_offset_eq endpoint_write_dword_def)

lemma ucast_u16_u32:
  "(ucast (ucast (d :: u16) :: u32) :: u16) = d" "drop_bit 16 (ucast (d :: u16) :: u32) = 0"
  by (rule bit_word_eqI; auto simp: bit_simps dest: bit_imp_le_length)+

subsection \<open>The bus\<close>

lemma debug_handle_eq:
  "debug_handle io d = (r, d') \<Longrightarrow> pio_port io = DEBUG_PORT \<Longrightarrow>
     \<not> is_fault r \<and> d' = d\<lparr>debug_bytes := debug_bytes d @ debug_bytes_of io\<rparr>
     \<and> (\<forall>e. r = Err e \<longrightarrow> d' = d)"
  by (auto simp: debug_handle_def debug_bytes_of_def length_Suc_conv
      split: if_splits port_io_direction.splits list.splits)

lemma port_dispatch_step:
  assumes "port_dispatch io bus = (r, bus')"
  shows "\<not> is_fault r \<and> (\<forall>e. r = Err e \<longrightarrow> bus' = bus)
    \<and> debug_output bus' = map_option (\<lambda>bs. bs @ debug_bytes_of io) (debug_output bus)"
proof (cases "pio_port io = DEBUG_PORT")
  case port: True
  show ?thesis
  proof (cases "bus_debug_port bus")
    case None with port assms show ?thesis by (auto simp: port_dispatch_def debug_output_def)
  next
    case (Some d)
    obtain q d' where q: "debug_handle io d = (q, d')" by (cases "debug_handle io d")
    with Some port assms have "r = map_err PortIo q" "bus' = bus\<lparr>bus_debug_port := Some d'\<rparr>"
      by (auto simp: port_dispatch_def)
    with Some debug_handle_eq [OF q port] show ?thesis
      by (auto simp: debug_output_def outcome_simps)
  qed
next
  case other: False
  then have none: "debug_bytes_of io = []" by (simp add: debug_bytes_of_def)
  show ?thesis
  proof (cases "config_handles_port (pio_port io) \<and> bus_pci_config bus \<noteq> None")
    case False with other assms none show ?thesis
      by (auto simp: port_dispatch_def debug_output_def option.map_ident split: option.splits if_splits)
  next
    case True
    then obtain c where c: "bus_pci_config bus = Some c" by auto
    obtain q c' where q: "config_dispatch io c = (q, c')" by (cases "config_dispatch io c")
    with True other c assms have "r = map_err PortIo (map_ok convert_pci_service q)"
      "bus' = bus\<lparr>bus_pci_config := Some c'\<rparr>"
      by (auto simp: port_dispatch_def)
    with c q none config_dispatch_no_fault [of io c] show ?thesis
      by (auto simp: debug_output_def outcome_simps option.map_ident dest: config_dispatch_error)
  qed
qed

lemma port_run_log:
  "port_run ios bus = (rs, bus') \<Longrightarrow> (\<forall>r \<in> set rs. \<not> is_fault r) \<and> length rs = length ios
     \<and> debug_output bus' = map_option (\<lambda>bs. bs @ concat (map debug_bytes_of ios)) (debug_output bus)"
proof (induction ios arbitrary: bus rs)
  case Nil then show ?case by (simp add: option.map_ident)
next
  case (Cons io ios)
  obtain r mid where d: "port_dispatch io bus = (r, mid)" by (cases "port_dispatch io bus")
  obtain qs where q: "port_run ios mid = (qs, bus')" "rs = r # qs"
    using Cons.prems d by (auto split: prod.splits)
  from Cons.IH [OF q(1)] port_dispatch_step [OF d] q show ?case
    by (auto simp: option.map_comp comp_def)
qed

section \<open>Properties\<close>

text \<open>
  C25. Configuration reads: after a write of the address register, the data register returns the dword
  of the selected function when the address is enabled and names bus 0, device 1, function 0, and
  all ones otherwise; the selector that the driver code computes for an offset selects that offset
  rounded down to a dword.
\<close>

theorem pci_config_read_selected:
  assumes "config_dispatch (port_out PCI_CONFIG_ADDRESS_PORT v) c = (r, c')"
  shows "r = Ok Config_Output
    \<and> config_dispatch (port_in PCI_CONFIG_DATA_PORT) c'
        = (Ok (Config_Input (to_le_bytes
             (if selects_function v then pci_read_dword (config_function c) (ucast (v AND 0xfc)) else - 1))), c')
    \<and> (v = config_selector offset \<longrightarrow> selects_function v \<and> (ucast (v AND 0xfc) :: u8) = offset AND 0xfc)"
  using assms config_selector_selects [of offset]
  by (auto simp: config_dispatch_def port_out_def port_in_def read_selected_dword_def selected_offset_eq)

theorem pci_config_read_selected_witness:
  "config_dispatch (port_in PCI_CONFIG_DATA_PORT)
     (snd (config_dispatch (port_out PCI_CONFIG_ADDRESS_PORT (config_selector 0x10))
        (config_new (synthetic_new 0x10000007))))
   = (Ok (Config_Input [0, 0, 0, 0x10]),
      snd (config_dispatch (port_out PCI_CONFIG_ADDRESS_PORT (config_selector 0x10))
        (config_new (synthetic_new 0x10000007))))"
  using pci_config_read_selected [where v = "config_selector 0x10" and c = "config_new (synthetic_new 0x10000007)"
      and offset = "0x10", OF surjective_pairing]
  by (simp add: config_new_def synthetic_new_def synthetic_read_dword_def to_le_bytes_def byte_simps)

text \<open>
  C26. MSI programming: from an MSI-capable function, writing an address, a 16-bit data value and the
  enable bit through the configuration ports is accepted in every step, makes exactly this message the
  one the interrupt code sends, and reads back as written; a write of the control dword without the
  enable bit silences it again.
\<close>

theorem msi_programming_round_trip:
  assumes "config_function c = Pci_VirtioRng e" and "endpoint_msi e = Some m"
    and "config_access 0x78 addr c = (r1, c1)"
    and "config_access 0x7c (ucast (data :: u16)) c1 = (r2, c2)"
    and "config_access 0x74 0x00010005 c2 = (r3, c3)"
    and "config_access 0x74 0x00000005 c3 = (r4, c4)"
  shows "r1 = Ok Config_Output \<and> r2 = Ok Config_Output \<and> r3 = Ok Config_Output \<and> r4 = Ok Config_Output
    \<and> config_msi_message c3 = Some \<lparr>message_address = addr, message_data = data\<rparr>
    \<and> pci_read_dword (config_function c3) 0x78 = addr
    \<and> pci_read_dword (config_function c3) 0x7c = ucast data
    \<and> pci_read_dword (config_function c3) 0x74 = 0x00010005
    \<and> config_msi_message c4 = None"
proof -
  define m1 m2 m3 m4 where m: "m1 = m\<lparr>msi_address := addr\<rparr>" "m2 = m1\<lparr>msi_data := data\<rparr>"
    "m3 = m2\<lparr>msi_control := 1\<rparr>" "m4 = m3\<lparr>msi_control := 0\<rparr>"
  have w: "msi_write_dword 0x78 addr m = (True, m1)" "msi_write_dword 0x7c (ucast data) m1 = (True, m2)"
    "msi_write_dword 0x74 0x00010005 m2 = (True, m3)" "msi_write_dword 0x74 0x00000005 m3 = (True, m4)"
    by (simp_all add: msi_write_dword_def m ucast_u16_u32 from_le_bytes_def)
  have 1: "(r1, c1) = (Ok Config_Output, c\<lparr>config_address := config_selector 0x78,
      config_function := Pci_VirtioRng (e\<lparr>endpoint_msi := Some m1\<rparr>)\<rparr>)"
    using assms(3) config_access_msi [OF assms(1,2) _ w(1)] by simp
  have 2: "(r2, c2) = (Ok Config_Output, c1\<lparr>config_address := config_selector 0x7c,
      config_function := Pci_VirtioRng (e\<lparr>endpoint_msi := Some m2\<rparr>)\<rparr>)"
    using assms(4) config_access_msi [OF _ _ _ w(2), of c1] 1 by simp
  have 3: "(r3, c3) = (Ok Config_Output, c2\<lparr>config_address := config_selector 0x74,
      config_function := Pci_VirtioRng (e\<lparr>endpoint_msi := Some m3\<rparr>)\<rparr>)"
    using assms(5) config_access_msi [OF _ _ _ w(3), of c2] 2 by simp
  have 4: "(r4, c4) = (Ok Config_Output, c3\<lparr>config_address := config_selector 0x74,
      config_function := Pci_VirtioRng (e\<lparr>endpoint_msi := Some m4\<rparr>)\<rparr>)"
    using assms(6) config_access_msi [OF _ _ _ w(4), of c3] 3 by simp
  from 1 2 3 4 show ?thesis
    by (simp add: config_msi_message_def endpoint_msi_message_def msi_message_def endpoint_read_dword_def
        msi_read_dword_def m from_le_bytes_def)
qed

theorem msi_programming_round_trip_witness:
  "\<exists>c3. config_msi_message c3 = Some \<lparr>message_address = 0xfee00000, message_data = 0x41\<rparr>
     \<and> snd (config_access 0x74 0x00010005 (snd (config_access 0x7c (ucast (0x41 :: u16))
         (snd (config_access 0x78 0xfee00000 (config_with_virtio_rng_msi (rng_function_new 0x10000000))))))) = c3"
  using msi_programming_round_trip [where c = "config_with_virtio_rng_msi (rng_function_new 0x10000000)"
      and e = "endpoint_with_msi (rng_function_new 0x10000000)" and m = msi_new and addr = "0xfee00000"
      and data = "0x41", OF _ _ surjective_pairing surjective_pairing surjective_pairing surjective_pairing]
  by (simp add: config_with_virtio_rng_msi_def endpoint_with_msi_def)

text \<open>
  C27. The port bus under any sequence of exits: no dispatch panics, and the debug output of a bus with
  a debug port is extended by exactly the bytes of the one-byte outputs to that port, in order; a
  refused access changes nothing.
\<close>

theorem port_bus_debug_log:
  assumes "port_run ios bus = (rs, bus')"
  shows "(\<forall>r \<in> set rs. \<not> is_fault r) \<and> length rs = length ios
    \<and> debug_output bus' = map_option (\<lambda>bs. bs @ concat (map debug_bytes_of ios)) (debug_output bus)
    \<and> (\<forall>io e. fst (port_dispatch io bus) = Err e \<longrightarrow> snd (port_dispatch io bus) = bus)"
  using port_run_log [OF assms] port_dispatch_step [OF surjective_pairing, of io bus for io] by blast

theorem port_bus_debug_log_witness:
  "debug_output (snd (port_run
     [\<lparr>pio_direction = Io_Out, pio_size = 1, pio_port = DEBUG_PORT, pio_count = 1, pio_output_data = [0x4b]\<rparr>,
      port_in 0x70] port_bus_with_debug_port)) = Some [0x4b]"
  using port_bus_debug_log [OF surjective_pairing, of "[\<lparr>pio_direction = Io_Out, pio_size = 1,
      pio_port = DEBUG_PORT, pio_count = 1, pio_output_data = [0x4b]\<rparr>, port_in 0x70]" port_bus_with_debug_port]
  by (simp add: debug_output_def port_bus_with_debug_port_def debug_bytes_of_def port_in_def)

end
