(* ===== verification/Virtio_Blk_Queue.thy ===== *)
theory Virtio_Blk_Queue
  imports Virtio_Blk
begin

text \<open>
  Request processing of the virtio-blk device: backing ranges
  (\<open>src/src/pci/virtio_blk_backing.rs\<close>), resolution of direct and indirect descriptor
  chains (\<open>virtio_blk_indirect.rs\<close>), writes to a backing file (\<open>virtio_blk_file_backed.rs\<close>), the
  read-only processing of \<open>virtio_blk.rs\<close> and the atomic read/write processing of
  \<open>virtio_blk_write_readback.rs\<close>.

  The host's files are a function from paths to contents.  Which host calls fail, and how much of a
  failing write reached the file, is the parameter \<open>host_io\<close>.
\<close>

section \<open>Backing ranges\<close>

definition blk_request_backing_range :: "u64 \<Rightarrow> u32 \<Rightarrow> (usize \<times> usize, blk_error) outcome" where
  "blk_request_backing_range sector data_length =
     (if data_length = 0 \<or> data_length mod of_nat VIRTIO_BLK_SECTOR_SIZE \<noteq> 0
      then Err (Blk_InvalidDataLength data_length (of_nat VIRTIO_BLK_SECTOR_SIZE))
      else if sector \<ge> VIRTIO_BLK_CAPACITY_SECTORS
      then Err (Blk_SectorOutOfRange sector VIRTIO_BLK_CAPACITY_SECTORS)
      else
        and_then (ok_or (checked_mul sector (of_nat VIRTIO_BLK_SECTOR_SIZE))
          (Blk_RequestRangeOutOfRange sector data_length VIRTIO_BLK_CAPACITY_SECTORS)) (\<lambda>start.
        and_then (ok_or (checked_add start (ucast data_length))
          (Blk_RequestRangeOutOfRange sector data_length VIRTIO_BLK_CAPACITY_SECTORS)) (\<lambda>end_offset.
        if end_offset > of_nat VIRTIO_BLK_BACKING_SIZE
        then Err (Blk_RequestRangeOutOfRange sector data_length VIRTIO_BLK_CAPACITY_SECTORS)
        else and_then (expect (usize_try_from_u64 start)) (\<lambda>start_index.
             and_then (expect (usize_try_from_u64 end_offset)) (\<lambda>end_index.
             Ok (start_index, end_index))))))"

definition blk_backing_range :: "u64 \<Rightarrow> u32 \<Rightarrow> blk_dev \<Rightarrow> (u8 list option, 'e) outcome" where
  "blk_backing_range sector data_length d =
     (case blk_request_backing_range sector data_length of
        Ok (a, b) \<Rightarrow> map_ok Some (index_range (blk_backing d) a b)
      | Err _ \<Rightarrow> Ok None
      | Fault p \<Rightarrow> Fault p)"

section \<open>Descriptor chains\<close>

datatype blk_process_error = Blk_Device blk_error | Blk_Memory vm_error | Blk_Backing vm_error

record blk_descriptor =
  desc_address :: u64
  desc_length :: u32
  desc_flags :: u16
  desc_next :: u16

record resolved_chain =
  chain_header :: blk_descriptor
  chain_data :: blk_descriptor
  chain_data_index :: u16
  chain_status :: blk_descriptor

definition blk_checked_add :: "u64 \<Rightarrow> u64 \<Rightarrow> (u64, blk_process_error) outcome" where
  "blk_checked_add base offset =
     ok_or (checked_add base offset) (Blk_Device (Blk_AddressOverflow base offset))"

definition blk_read_guest_u16 :: "guest_memory \<Rightarrow> u64 \<Rightarrow> (u16, blk_process_error) outcome" where
  "blk_read_guest_u16 m address =
     map_ok from_le_bytes (map_err Blk_Memory (mem_read m address 2))"

definition parse_descriptor :: "u8 list \<Rightarrow> blk_descriptor" where
  "parse_descriptor bytes =
     \<lparr>desc_address = from_le_bytes (subslice bytes 0 8),
      desc_length = from_le_bytes (subslice bytes 8 12),
      desc_flags = from_le_bytes (subslice bytes 12 14),
      desc_next = from_le_bytes (subslice bytes 14 16)\<rparr>"

definition blk_read_descriptor ::
  "blk_dev \<Rightarrow> guest_memory \<Rightarrow> u16 \<Rightarrow> (blk_descriptor, blk_process_error) outcome" where
  "blk_read_descriptor d m index =
     and_then (mul_ov 16 (ucast index)) (\<lambda>offset.
     and_then (blk_checked_add (blk_queue_desc d) offset) (\<lambda>address.
     and_then (map_err Blk_Memory (mem_read m address 16)) (\<lambda>bytes.
     Ok (parse_descriptor bytes))))"

definition blk_ensure_descriptor_index :: "blk_dev \<Rightarrow> u16 \<Rightarrow> (unit, blk_process_error) outcome" where
  "blk_ensure_descriptor_index d index =
     (if index \<ge> blk_queue_size d
      then Err (Blk_Device (Blk_DescriptorIndexOutOfRange index (blk_queue_size d))) else Ok ())"

definition blk_require_flags :: "u16 \<Rightarrow> u16 \<Rightarrow> u16 \<Rightarrow> (unit, blk_process_error) outcome" where
  "blk_require_flags index actual expected =
     (if actual = expected then Ok ()
      else Err (Blk_Device (Blk_InvalidDescriptorFlags index expected actual)))"

definition blk_require_length :: "u16 \<Rightarrow> u32 \<Rightarrow> u32 \<Rightarrow> (unit, blk_process_error) outcome" where
  "blk_require_length index len required =
     (if len \<ge> required then Ok ()
      else Err (Blk_Device (Blk_DescriptorTooSmall index len required)))"

definition blk_reject_nested_indirect :: "u16 \<Rightarrow> u16 \<Rightarrow> (unit, blk_process_error) outcome" where
  "blk_reject_nested_indirect index flags =
     (if flags AND VIRTQ_DESC_F_INDIRECT \<noteq> 0
      then Err (Blk_Device (Blk_NestedIndirectDescriptor index)) else Ok ())"

definition blk_read_indirect_descriptor ::
  "guest_memory \<Rightarrow> u64 \<Rightarrow> u32 \<Rightarrow> u16 \<Rightarrow> (blk_descriptor, blk_process_error) outcome" where
  "blk_read_indirect_descriptor m table entries index =
     (if ucast index \<ge> entries
      then Err (Blk_Device (Blk_IndirectDescriptorIndexOutOfRange index entries))
      else
        and_then (mul_ov 16 (ucast index)) (\<lambda>offset.
        and_then (blk_checked_add table offset) (\<lambda>address.
        and_then (map_err Blk_Memory (mem_read m address 16)) (\<lambda>bytes.
        Ok (parse_descriptor bytes)))))"

definition resolve_direct_request_chain ::
  "blk_dev \<Rightarrow> guest_memory \<Rightarrow> u16 \<Rightarrow> blk_descriptor \<Rightarrow> (resolved_chain, blk_process_error) outcome"
where
  "resolve_direct_request_chain d m head header =
     and_then (blk_require_flags head (desc_flags header) VIRTQ_DESC_F_NEXT) (\<lambda>_.
     and_then (blk_require_length head (desc_length header) 16) (\<lambda>_.
     let data_index = desc_next header in
     and_then (blk_ensure_descriptor_index d data_index) (\<lambda>_.
     if data_index = head then Err (Blk_Device (Blk_DescriptorChainCycle data_index)) else
     and_then (blk_read_descriptor d m data_index) (\<lambda>data.
     let status_index = desc_next data in
     and_then (blk_ensure_descriptor_index d status_index) (\<lambda>_.
     if status_index = head \<or> status_index = data_index
     then Err (Blk_Device (Blk_DescriptorChainCycle status_index)) else
     and_then (blk_read_descriptor d m status_index) (\<lambda>status.
     and_then (blk_require_flags status_index (desc_flags status) VIRTQ_DESC_F_WRITE) (\<lambda>_.
     and_then (blk_require_length status_index (desc_length status) 1) (\<lambda>_.
     Ok \<lparr>chain_header = header, chain_data = data, chain_data_index = data_index,
         chain_status = status\<rparr>))))))))"

definition resolve_indirect_request_chain ::
  "blk_dev \<Rightarrow> guest_memory \<Rightarrow> u16 \<Rightarrow> blk_descriptor \<Rightarrow> (resolved_chain, blk_process_error) outcome"
where
  "resolve_indirect_request_chain d m head outer =
     (if blk_driver_features d AND VIRTIO_RING_F_INDIRECT_DESC = 0
      then Err (Blk_Device Blk_IndirectFeatureNotNegotiated) else
     and_then (blk_require_flags head (desc_flags outer) VIRTQ_DESC_F_INDIRECT) (\<lambda>_.
     if desc_length outer < 3 * 16 \<or> desc_length outer mod 16 \<noteq> 0
     then Err (Blk_Device (Blk_InvalidIndirectTableLength (desc_length outer) 16)) else
     let entries = desc_length outer div 16; table = desc_address outer in
     if entries > 0xffff + 1
     then Err (Blk_Device (Blk_IndirectTableTooLarge entries (0xffff + 1))) else
     and_then (blk_read_indirect_descriptor m table entries 0) (\<lambda>header.
     and_then (blk_reject_nested_indirect 0 (desc_flags header)) (\<lambda>_.
     and_then (blk_require_flags 0 (desc_flags header) VIRTQ_DESC_F_NEXT) (\<lambda>_.
     and_then (blk_require_length 0 (desc_length header) 16) (\<lambda>_.
     let data_index = desc_next header in
     if data_index = 0 then Err (Blk_Device (Blk_DescriptorChainCycle data_index)) else
     and_then (blk_read_indirect_descriptor m table entries data_index) (\<lambda>data.
     and_then (blk_reject_nested_indirect data_index (desc_flags data)) (\<lambda>_.
     let status_index = desc_next data in
     if status_index = 0 \<or> status_index = data_index
     then Err (Blk_Device (Blk_DescriptorChainCycle status_index)) else
     and_then (blk_read_indirect_descriptor m table entries status_index) (\<lambda>status.
     and_then (blk_reject_nested_indirect status_index (desc_flags status)) (\<lambda>_.
     and_then (blk_require_flags status_index (desc_flags status) VIRTQ_DESC_F_WRITE) (\<lambda>_.
     and_then (blk_require_length status_index (desc_length status) 1) (\<lambda>_.
     Ok \<lparr>chain_header = header, chain_data = data, chain_data_index = data_index,
         chain_status = status\<rparr>))))))))))))"

definition resolve_request_chain ::
  "blk_dev \<Rightarrow> guest_memory \<Rightarrow> u16 \<Rightarrow> (resolved_chain, blk_process_error) outcome" where
  "resolve_request_chain d m head =
     and_then (blk_read_descriptor d m head) (\<lambda>outer.
     if desc_flags outer AND VIRTQ_DESC_F_INDIRECT \<noteq> 0
     then resolve_indirect_request_chain d m head outer
     else resolve_direct_request_chain d m head outer)"

section \<open>The next request\<close>

text \<open>The readiness check, the available index and the head of the next chain.\<close>

definition blk_next_head :: "blk_dev \<Rightarrow> guest_memory \<Rightarrow> (u16 \<times> u16, blk_process_error) outcome" where
  "blk_next_head d m =
     and_then (map_err Blk_Device (blk_ensure_queue_ready d)) (\<lambda>_.
     if \<not> blk_notify_pending d then Err (Blk_Device Blk_QueueNotReady) else
     and_then (blk_checked_add (blk_queue_driver d) 2) (\<lambda>avail_idx_address.
     and_then (blk_read_guest_u16 m avail_idx_address) (\<lambda>avail_idx.
     if avail_idx \<noteq> blk_last_avail_idx d + 1
     then Err (Blk_Device (Blk_UnexpectedAvailIndex (blk_last_avail_idx d + 1) avail_idx)) else
     and_then (rem_ov (blk_last_avail_idx d) (blk_queue_size d)) (\<lambda>slot.
     and_then (mul_ov 2 (ucast slot)) (\<lambda>twice_slot.
     and_then (add_ov 4 twice_slot) (\<lambda>ring_offset.
     and_then (blk_checked_add (blk_queue_driver d) ring_offset) (\<lambda>ring_address.
     and_then (blk_read_guest_u16 m ring_address) (\<lambda>head.
     and_then (blk_ensure_descriptor_index d head) (\<lambda>_. Ok (avail_idx, head))))))))))"

record blk_header =
  header_type :: u32
  header_reserved :: u32
  header_sector :: u64

definition blk_read_header :: "guest_memory \<Rightarrow> u64 \<Rightarrow> (blk_header, blk_process_error) outcome" where
  "blk_read_header m address =
     map_ok (\<lambda>request. \<lparr>header_type = from_le_bytes (subslice request 0 4),
                      header_reserved = from_le_bytes (subslice request 4 8),
                      header_sector = from_le_bytes (subslice request 8 16)\<rparr>)
       (map_err Blk_Memory (mem_read m address 16))"

record blk_request =
  req_avail :: u16
  req_head :: u16
  req_sector :: u64
  req_range :: "usize \<times> usize"
  req_data_address :: u64
  req_data_length :: u32
  req_status_address :: u64
  req_used_element :: u64
  req_used_idx_address :: u64
  req_outgoing :: "u8 list option"

record blk_completion =
  blk_descriptor_id :: u32
  blk_completion_length :: u32
  blk_completion_sector :: u64

section \<open>Read-only processing\<close>

definition blk_validate_read :: "blk_dev \<Rightarrow> guest_memory \<Rightarrow> (blk_request, blk_process_error) outcome" where
  "blk_validate_read d m =
     and_then (blk_next_head d m) (\<lambda>(avail_idx, head).
     and_then (resolve_request_chain d m head) (\<lambda>chain.
     let data = chain_data chain; status = chain_status chain in
     and_then (blk_require_flags (chain_data_index chain) (desc_flags data)
       (VIRTQ_DESC_F_NEXT OR VIRTQ_DESC_F_WRITE)) (\<lambda>_.
     and_then (blk_require_length (chain_data_index chain) (desc_length data)
       (of_nat VIRTIO_BLK_SECTOR_SIZE)) (\<lambda>_.
     and_then (blk_read_header m (desc_address (chain_header chain))) (\<lambda>header.
     if header_type header \<noteq> VIRTIO_BLK_T_IN
     then Err (Blk_Device (Blk_InvalidRequestType (header_type header)))
     else if header_reserved header \<noteq> 0
     then Err (Blk_Device (Blk_InvalidRequestReserved (header_reserved header))) else
     and_then (map_err Blk_Device
       (blk_request_backing_range (header_sector header) (desc_length data))) (\<lambda>extent.
     and_then (blk_checked_add (blk_queue_device d) 2) (\<lambda>used_idx_address.
     and_then (blk_read_guest_u16 m used_idx_address) (\<lambda>used_idx.
     if used_idx \<noteq> blk_last_used_idx d
     then Err (Blk_Device (Blk_UnexpectedUsedIndex (blk_last_used_idx d) used_idx))
     else Ok \<lparr>req_avail = avail_idx, req_head = head, req_sector = header_sector header,
              req_range = extent, req_data_address = desc_address data,
              req_data_length = desc_length data, req_status_address = desc_address status,
              req_used_element = 0, req_used_idx_address = used_idx_address,
              req_outgoing = None\<rparr>))))))))"

definition blk_complete_read ::
  "blk_dev \<Rightarrow> blk_request \<Rightarrow> (guest_memory, u32 \<times> u16, blk_process_error) op" where
  "blk_complete_read d req =
     op_then (op_lift (index_range (blk_backing d) (fst (req_range req)) (snd (req_range req)))) (\<lambda>bytes.
     op_then (op_map_err Blk_Memory (mem_write (req_data_address req) bytes)) (\<lambda>_.
     op_then (op_map_err Blk_Memory (mem_write (req_status_address req) [VIRTIO_BLK_S_OK])) (\<lambda>_.
     op_then (op_lift (add_ov (req_data_length req) 1)) (\<lambda>written.
     op_then (op_lift (rem_ov (blk_last_used_idx d) (blk_queue_size d))) (\<lambda>used_slot.
     op_then (op_lift (mul_ov 8 (ucast used_slot))) (\<lambda>eight_slots.
     op_then (op_lift (add_ov 4 eight_slots)) (\<lambda>element_offset.
     op_then (op_lift (blk_checked_add (blk_queue_device d) element_offset)) (\<lambda>used_element.
     op_then (op_map_err Blk_Memory (mem_write used_element
       (to_le_bytes (ucast (req_head req) :: u32) @ to_le_bytes written))) (\<lambda>_.
     op_then (op_lift (blk_checked_add (blk_queue_device d) 2)) (\<lambda>used_idx_address.
     op_then (op_map_err Blk_Memory
       (mem_write used_idx_address (to_le_bytes (blk_last_used_idx d + 1)))) (\<lambda>_.
     op_return (written, blk_last_used_idx d + 1))))))))))))"

text \<open>The device after a completion: indices, notification and interrupt status.\<close>

definition blk_dev_served :: "u16 \<Rightarrow> u16 \<Rightarrow> blk_dev \<Rightarrow> blk_dev" where
  "blk_dev_served avail_idx next_used d =
     d\<lparr>blk_last_avail_idx := avail_idx, blk_last_used_idx := next_used, blk_notify_pending := False,
       blk_isr_status := blk_isr_status d OR VIRTIO_ISR_QUEUE_INTERRUPT\<rparr>"

definition blk_process_notified_queue ::
  "(blk_dev \<times> guest_memory, blk_completion, blk_process_error) op" where
  "blk_process_notified_queue = (\<lambda>(d, m).
     case blk_validate_read d m of
       Err e \<Rightarrow> (Err e, (d, m))
     | Fault p \<Rightarrow> (Fault p, (d, m))
     | Ok req \<Rightarrow>
         (case blk_complete_read d req m of
            (Err e, m') \<Rightarrow> (Err e, (d, m'))
          | (Fault p, m') \<Rightarrow> (Fault p, (d, m'))
          | (Ok (written, next_used), m') \<Rightarrow>
              (Ok \<lparr>blk_descriptor_id = ucast (req_head req), blk_completion_length = written,
                   blk_completion_sector = req_sector req\<rparr>,
               (blk_dev_served (req_avail req) next_used d, m'))))"

section \<open>Backing files\<close>

type_synonym host_files = "string \<Rightarrow> u8 list option"

text \<open>
  The results of the host calls: an error, or success.  A failing write reports how many bytes had
  reached the file before the error.
\<close>

record host_io =
  io_open_fails :: "string \<Rightarrow> io_error option"
  io_stat_fails :: "string \<Rightarrow> io_error option"
  io_read_fails :: "string \<Rightarrow> io_error option"
  io_seek_fails :: "string \<Rightarrow> io_error option"
  io_write_fails :: "string \<Rightarrow> (io_error \<times> nat) option"
  io_sync_fails :: "string \<Rightarrow> io_error option"

definition backing_io_error :: "string \<Rightarrow> io_error \<Rightarrow> vm_error" where
  "backing_io_error operation source = HostEnvironment (Host_Io operation source)"

text \<open>Writing at an offset of a file: a gap beyond its end is filled with zeros.\<close>

definition file_write_at :: "u8 list \<Rightarrow> nat \<Rightarrow> u8 list \<Rightarrow> u8 list" where
  "file_write_at content offset bytes =
     take offset (content @ replicate (offset - length content) 0) @ bytes
     @ drop (offset + length bytes) content"

definition io_step :: "string \<Rightarrow> io_error option \<Rightarrow> (unit, vm_error) outcome" where
  "io_step operation failure =
     (case failure of None \<Rightarrow> Ok () | Some e \<Rightarrow> Err (backing_io_error operation e))"

definition file_open :: "host_io \<Rightarrow> host_files \<Rightarrow> string \<Rightarrow> string \<Rightarrow> (u8 list, vm_error) outcome" where
  "file_open io files operation path =
     and_then (io_step operation (io_open_fails io path)) (\<lambda>_.
       ok_or (files path) (backing_io_error operation (Os_Error 2)))"

definition file_write_all ::
  "host_io \<Rightarrow> string \<Rightarrow> string \<Rightarrow> nat \<Rightarrow> u8 list \<Rightarrow> u8 list \<Rightarrow> (host_files, unit, vm_error) op" where
  "file_write_all io operation path offset content bytes files =
     (case io_write_fails io path of
        None \<Rightarrow> (Ok (), files(path \<mapsto> file_write_at content offset bytes))
      | Some (e, n) \<Rightarrow>
          (Err (backing_io_error operation e),
           files(path \<mapsto> file_write_at content offset (take n bytes))))"

definition blk_with_backing :: "u64 \<Rightarrow> u8 list \<Rightarrow> string option \<Rightarrow> blk_dev" where
  "blk_with_backing bar0 backing path =
     (blk_new bar0)\<lparr>blk_backing := backing, blk_persistent_backing := path\<rparr>"

definition create_file_backed :: "host_io \<Rightarrow> u64 \<Rightarrow> string \<Rightarrow> (host_files, blk_dev, vm_error) op" where
  "create_file_backed io bar0 path =
     op_then (\<lambda>files. case io_open_fails io path of
         Some e \<Rightarrow> (Err (backing_io_error ''create virtio-blk file backing'' e), files)
       | None \<Rightarrow> (Ok (), files(path \<mapsto> []))) (\<lambda>_.
     op_then (file_write_all io ''initialize virtio-blk file backing'' path 0 [] deterministic_backing) (\<lambda>_.
     op_then (op_lift (io_step ''sync initial virtio-blk file backing'' (io_sync_fails io path))) (\<lambda>_.
     op_return (blk_with_backing bar0 deterministic_backing (Some path)))))"

definition open_file_backed ::
  "host_io \<Rightarrow> host_files \<Rightarrow> u64 \<Rightarrow> string \<Rightarrow> (blk_dev, vm_error) outcome" where
  "open_file_backed io files bar0 path =
     and_then (file_open io files ''open virtio-blk file backing'' path) (\<lambda>content.
     and_then (io_step ''stat virtio-blk file backing'' (io_stat_fails io path)) (\<lambda>_.
     if length content \<noteq> VIRTIO_BLK_BACKING_SIZE
     then Err (backing_io_error ''validate virtio-blk file backing length''
            (Custom InvalidData (Message ''expected exactly bytes, got''
               [of_nat VIRTIO_BLK_BACKING_SIZE, of_nat (length content)])))
     else and_then (io_step ''read virtio-blk file backing'' (io_read_fails io path)) (\<lambda>_.
       Ok (blk_with_backing bar0 content (Some path)))))"

definition file_backed :: "blk_dev \<Rightarrow> bool" where
  "file_backed d \<longleftrightarrow> blk_persistent_backing d \<noteq> None"

definition checkpoint_backing_portable :: "blk_dev \<Rightarrow> bool" where
  "checkpoint_backing_portable d \<longleftrightarrow> blk_persistent_backing d = None"

definition persist_backing_range ::
  "host_io \<Rightarrow> blk_dev \<Rightarrow> usize \<times> usize \<Rightarrow> u8 list \<Rightarrow> (host_files, unit, vm_error) op" where
  "persist_backing_range io d extent bytes =
     (case blk_persistent_backing d of
        None \<Rightarrow> op_return ()
      | Some path \<Rightarrow>
          if snd extent > VIRTIO_BLK_BACKING_SIZE \<or> snd extent - fst extent \<noteq> length bytes
          then op_lift (Err (backing_io_error ''validate virtio-blk file write range''
                 (Custom InvalidInput (Message ''range does not match bytes''
                    [of_nat (fst extent), of_nat (snd extent), of_nat (length bytes)]))))
          else (\<lambda>files.
            case and_then (file_open io files ''open virtio-blk file backing for write'' path)
                   (\<lambda>content. map_ok (\<lambda>_. content)
                      (io_step ''seek virtio-blk file backing'' (io_seek_fails io path))) of
              Err e \<Rightarrow> (Err e, files)
            | Fault p \<Rightarrow> (Fault p, files)
            | Ok content \<Rightarrow>
                op_then (file_write_all io ''write virtio-blk file backing'' path (fst extent) content bytes)
                  (\<lambda>_. op_lift (io_step ''sync virtio-blk file backing write'' (io_sync_fails io path)))
                  files))"

section \<open>Atomic processing\<close>

definition preflight_guest_output :: "guest_memory \<Rightarrow> u64 \<Rightarrow> usize \<Rightarrow> (unit, blk_process_error) outcome" where
  "preflight_guest_output m address len =
     map_ok (\<lambda>_. ()) (map_err Blk_Memory (mem_read m address len))"

text \<open>Everything before the first mutation: every check, every fallible read, every preflight.\<close>

definition blk_validate_atomic :: "blk_dev \<Rightarrow> guest_memory \<Rightarrow> (blk_request, blk_process_error) outcome" where
  "blk_validate_atomic d m =
     and_then (blk_next_head d m) (\<lambda>(avail_idx, head).
     and_then (resolve_request_chain d m head) (\<lambda>chain.
     let data = chain_data chain; status = chain_status chain in
     and_then (blk_read_header m (desc_address (chain_header chain))) (\<lambda>header.
     if header_type header \<noteq> VIRTIO_BLK_T_IN \<and> header_type header \<noteq> VIRTIO_BLK_T_OUT
     then Err (Blk_Device (Blk_InvalidRequestType (header_type header)))
     else if header_reserved header \<noteq> 0
     then Err (Blk_Device (Blk_InvalidRequestReserved (header_reserved header))) else
     and_then (map_err Blk_Device
       (blk_request_backing_range (header_sector header) (desc_length data))) (\<lambda>extent.
     and_then (blk_require_flags (chain_data_index chain) (desc_flags data)
       (if header_type header = VIRTIO_BLK_T_IN then VIRTQ_DESC_F_NEXT OR VIRTQ_DESC_F_WRITE
        else VIRTQ_DESC_F_NEXT)) (\<lambda>_.
     and_then (blk_checked_add (blk_queue_device d) 2) (\<lambda>used_idx_address.
     and_then (blk_read_guest_u16 m used_idx_address) (\<lambda>used_idx.
     if used_idx \<noteq> blk_last_used_idx d
     then Err (Blk_Device (Blk_UnexpectedUsedIndex (blk_last_used_idx d) used_idx)) else
     and_then (rem_ov (blk_last_used_idx d) (blk_queue_size d)) (\<lambda>used_slot.
     and_then (mul_ov 8 (ucast used_slot)) (\<lambda>eight_slots.
     and_then (add_ov 4 eight_slots) (\<lambda>element_offset.
     and_then (blk_checked_add (blk_queue_device d) element_offset) (\<lambda>used_element.
     and_then
       (if header_type header = VIRTIO_BLK_T_OUT
        then map_ok Some (map_err Blk_Memory (mem_read m (desc_address data) (unat (desc_length data))))
        else map_ok (\<lambda>_. None)
          (preflight_guest_output m (desc_address data) (unat (desc_length data)))) (\<lambda>outgoing.
     and_then (preflight_guest_output m (desc_address status) 1) (\<lambda>_.
     and_then (preflight_guest_output m used_element 8) (\<lambda>_.
     and_then (preflight_guest_output m used_idx_address 2) (\<lambda>_.
     Ok \<lparr>req_avail = avail_idx, req_head = head, req_sector = header_sector header,
         req_range = extent, req_data_address = desc_address data,
         req_data_length = desc_length data, req_status_address = desc_address status,
         req_used_element = used_element, req_used_idx_address = used_idx_address,
         req_outgoing = outgoing\<rparr>)))))))))))))))"

text \<open>The writes to guest memory after the preflight.\<close>

definition blk_complete_atomic ::
  "blk_dev \<Rightarrow> blk_request \<Rightarrow> (guest_memory, u32 \<times> u16, blk_process_error) op" where
  "blk_complete_atomic d req =
     op_then
       (case req_outgoing req of
          None \<Rightarrow>
            op_then (op_lift (index_range (blk_backing d) (fst (req_range req)) (snd (req_range req)))) (\<lambda>bytes.
            op_then (op_map_err Blk_Memory (mem_write (req_data_address req) bytes)) (\<lambda>_.
            op_lift (add_ov (req_data_length req) 1)))
        | Some _ \<Rightarrow> op_return 1) (\<lambda>written.
     op_then (op_map_err Blk_Memory (mem_write (req_status_address req) [VIRTIO_BLK_S_OK])) (\<lambda>_.
     op_then (op_map_err Blk_Memory (mem_write (req_used_element req)
       (to_le_bytes (ucast (req_head req) :: u32) @ to_le_bytes written))) (\<lambda>_.
     op_then (op_map_err Blk_Memory
       (mem_write (req_used_idx_address req) (to_le_bytes (blk_last_used_idx d + 1)))) (\<lambda>_.
     op_return (written, blk_last_used_idx d + 1)))))"

text \<open>\<open>self.backing[range].copy_from_slice(&bytes)\<close> panics on a bad range or a length mismatch.\<close>

definition copy_into_backing ::
  "usize \<times> usize \<Rightarrow> u8 list \<Rightarrow> u8 list \<Rightarrow> (u8 list, 'e) outcome" where
  "copy_into_backing extent bytes backing =
     (if fst extent \<le> snd extent \<and> snd extent \<le> length backing \<and> length bytes = snd extent - fst extent
      then Ok (splice backing (fst extent) bytes) else Fault Index_Out_Of_Range)"

definition blk_process_notified_queue_atomic ::
  "host_io \<Rightarrow> (blk_dev \<times> guest_memory \<times> host_files, blk_completion, blk_process_error) op" where
  "blk_process_notified_queue_atomic io = (\<lambda>(d, m, files).
     case blk_validate_atomic d m of
       Err e \<Rightarrow> (Err e, (d, m, files))
     | Fault p \<Rightarrow> (Fault p, (d, m, files))
     | Ok req \<Rightarrow>
         (case (case req_outgoing req of
                  Some bytes \<Rightarrow> persist_backing_range io d (req_range req) bytes files
                | None \<Rightarrow> (Ok (), files)) of
            (Err e, files') \<Rightarrow> (Err (Blk_Backing e), (d, m, files'))
          | (Fault p, files') \<Rightarrow> (Fault p, (d, m, files'))
          | (Ok _, files') \<Rightarrow>
              (case blk_complete_atomic d req m of
                 (Err e, m') \<Rightarrow> (Err e, (d, m', files'))
               | (Fault p, m') \<Rightarrow> (Fault p, (d, m', files'))
               | (Ok (written, next_used), m') \<Rightarrow>
                   (case (case req_outgoing req of
                            Some bytes \<Rightarrow> copy_into_backing (req_range req) bytes (blk_backing d)
                          | None \<Rightarrow> Ok (blk_backing d)) of
                      Ok backing \<Rightarrow>
                        (Ok \<lparr>blk_descriptor_id = ucast (req_head req), blk_completion_length = written,
                             blk_completion_sector = req_sector req\<rparr>,
                         (blk_dev_served (req_avail req) next_used (d\<lparr>blk_backing := backing\<rparr>), m', files'))
                    | Err e \<Rightarrow> (Err e, (d, m', files'))
                    | Fault p \<Rightarrow> (Fault p, (d, m', files'))))))"

section \<open>Checkpoint predicates\<close>

definition checkpoint_quiescent :: "blk_dev \<Rightarrow> bool" where
  "checkpoint_quiescent d \<longleftrightarrow> \<not> blk_notify_pending d"

definition checkpoint_fully_quiescent :: "blk_dev \<Rightarrow> bool" where
  "checkpoint_fully_quiescent d \<longleftrightarrow> \<not> blk_notify_pending d \<and> blk_isr_status d = 0"

definition checkpoint_completion_pending :: "blk_dev \<Rightarrow> bool" where
  "checkpoint_completion_pending d \<longleftrightarrow>
     \<not> blk_notify_pending d \<and> blk_isr_status d = VIRTIO_ISR_QUEUE_INTERRUPT
     \<and> blk_last_avail_idx d \<noteq> 0 \<and> blk_last_avail_idx d = blk_last_used_idx d"

definition checkpoint_notification_pending :: "blk_dev \<Rightarrow> bool" where
  "checkpoint_notification_pending d \<longleftrightarrow>
     blk_notify_pending d \<and> blk_isr_status d = 0 \<and> blk_last_avail_idx d = blk_last_used_idx d"

definition blk_sector0 :: "blk_dev \<Rightarrow> (u8 list, 'e) outcome" where
  "blk_sector0 d = index_range (blk_backing d) 0 VIRTIO_BLK_SECTOR_SIZE"

section \<open>Specification\<close>

text \<open>
  What a validated request is: its sectors lie on the disk, every range that the completion writes
  lies in guest RAM, and outgoing data is what guest RAM held.
\<close>

definition blk_request_ready :: "blk_dev \<Rightarrow> guest_memory \<Rightarrow> blk_request \<Rightarrow> bool" where
  "blk_request_ready d m req \<longleftrightarrow>
     req_avail req = blk_last_avail_idx d + 1 \<and> req_head req < blk_queue_size d
     \<and> 0 < unat (req_data_length req) \<and> 512 dvd unat (req_data_length req)
     \<and> req_range req = (512 * unat (req_sector req), 512 * unat (req_sector req) + unat (req_data_length req))
     \<and> 512 * unat (req_sector req) + unat (req_data_length req) \<le> 2048
     \<and> in_ram m (unat (req_data_address req)) (unat (req_data_length req))
     \<and> in_ram m (unat (req_status_address req)) 1
     \<and> in_ram m (unat (req_used_element req)) 8
     \<and> in_ram m (unat (req_used_idx_address req)) 2
     \<and> req_used_idx_address req = blk_queue_device d + 2
     \<and> req_used_element req
        = blk_queue_device d + (4 + 8 * ucast (blk_last_used_idx d mod blk_queue_size d))
     \<and> (case req_outgoing req of None \<Rightarrow> True
         | Some bytes \<Rightarrow> ram_slice m (unat (req_data_address req)) (unat (req_data_length req)) = Some bytes)"

text \<open>
  The declarative view of descriptor chains.  A table entry holds a descriptor; a chain is three
  different entries, the header followed by the data and the status descriptor.
\<close>

definition descriptor_at :: "guest_memory \<Rightarrow> u64 \<Rightarrow> u16 \<Rightarrow> blk_descriptor \<Rightarrow> bool" where
  "descriptor_at m table index desc \<longleftrightarrow>
     ram_slice m (unat table + 16 * unat index) 16
       = Some (descriptor_bytes (desc_address desc) (desc_length desc) (desc_flags desc) (desc_next desc))"

definition chain_in_table ::
  "guest_memory \<Rightarrow> u64 \<Rightarrow> nat \<Rightarrow> u16 \<Rightarrow> resolved_chain \<Rightarrow> bool" where
  "chain_in_table m table bound head chain \<longleftrightarrow>
     descriptor_at m table head (chain_header chain)
     \<and> desc_flags (chain_header chain) = VIRTQ_DESC_F_NEXT \<and> 16 \<le> desc_length (chain_header chain)
     \<and> chain_data_index chain = desc_next (chain_header chain)
     \<and> unat (chain_data_index chain) < bound \<and> unat (desc_next (chain_data chain)) < bound
     \<and> distinct [head, chain_data_index chain, desc_next (chain_data chain)]
     \<and> descriptor_at m table (chain_data_index chain) (chain_data chain)
     \<and> descriptor_at m table (desc_next (chain_data chain)) (chain_status chain)
     \<and> desc_flags (chain_status chain) = VIRTQ_DESC_F_WRITE \<and> 1 \<le> desc_length (chain_status chain)"

text \<open>An indirect chain: a head that only points to a table of three to 65536 entries.\<close>

definition indirect_chain ::
  "blk_dev \<Rightarrow> guest_memory \<Rightarrow> u16 \<Rightarrow> resolved_chain \<Rightarrow> bool" where
  "indirect_chain d m head chain \<longleftrightarrow>
     blk_driver_features d AND VIRTIO_RING_F_INDIRECT_DESC \<noteq> 0
     \<and> (\<exists>outer entries. descriptor_at m (blk_queue_desc d) head outer
          \<and> desc_flags outer = VIRTQ_DESC_F_INDIRECT
          \<and> unat (desc_length outer) = 16 * entries \<and> 3 \<le> entries \<and> entries \<le> 65536
          \<and> chain_in_table m (desc_address outer) entries 0 chain
          \<and> desc_flags (chain_data chain) AND VIRTQ_DESC_F_INDIRECT = 0)"

text \<open>The sectors a request covers.\<close>

definition request_sectors :: "blk_dev \<Rightarrow> blk_request \<Rightarrow> u8 list" where
  "request_sectors d req = subslice (blk_backing d) (fst (req_range req)) (snd (req_range req))"

definition request_written :: "blk_request \<Rightarrow> u32" where
  "request_written req = (case req_outgoing req of None \<Rightarrow> req_data_length req + 1 | Some _ \<Rightarrow> 1)"

text \<open>Guest RAM and the device after a completion.\<close>

definition blk_served :: "blk_dev \<Rightarrow> blk_request \<Rightarrow> guest_memory \<Rightarrow> guest_memory" where
  "blk_served d req m =
     poke (req_used_idx_address req) (to_le_bytes (blk_last_used_idx d + 1))
      (poke (req_used_element req)
         (to_le_bytes (ucast (req_head req) :: u32) @ to_le_bytes (request_written req))
        (poke (req_status_address req) [VIRTIO_BLK_S_OK]
          (case req_outgoing req of
             None \<Rightarrow> poke (req_data_address req) (request_sectors d req) m
           | Some _ \<Rightarrow> m)))"

definition blk_dev_completed :: "blk_request \<Rightarrow> blk_dev \<Rightarrow> blk_dev" where
  "blk_dev_completed req d =
     blk_dev_served (blk_last_avail_idx d + 1) (blk_last_used_idx d + 1)
       (case req_outgoing req of
          None \<Rightarrow> d
        | Some bytes \<Rightarrow> d\<lparr>blk_backing := splice (blk_backing d) (fst (req_range req)) bytes\<rparr>)"

text \<open>A file-backed device and its file agree.\<close>

definition blk_file_mirror :: "blk_dev \<Rightarrow> host_files \<Rightarrow> bool" where
  "blk_file_mirror d files \<longleftrightarrow>
     (\<forall>path. blk_persistent_backing d = Some path \<longrightarrow> files path = Some (blk_backing d))"

text \<open>The host calls of \<open>persist_backing_range\<close> succeed for this device.\<close>

definition host_io_ok :: "host_io \<Rightarrow> string \<Rightarrow> bool" where
  "host_io_ok io path \<longleftrightarrow>
     io_open_fails io path = None \<and> io_seek_fails io path = None
     \<and> io_write_fails io path = None \<and> io_sync_fails io path = None"

section \<open>Backing ranges: lemmas\<close>

lemma blk_request_backing_range_iff:
  "blk_request_backing_range sector len = Ok extent \<longleftrightarrow>
     0 < unat len \<and> 512 dvd unat len \<and> 512 * unat sector + unat len \<le> 2048
     \<and> extent = (512 * unat sector, 512 * unat sector + unat len)"
proof -
  have len: "unat (ucast len :: u64) = unat len"
    using unat_lt [of len] by (simp add: unsigned_ucast_eq take_bit_nat_eq_self)
  have zero: "len \<noteq> 0 \<longleftrightarrow> 0 < unat len" by (simp add: unat_gt_0)
  have dvd: "len mod 512 = 0 \<longleftrightarrow> 512 dvd unat len"
    by (simp add: word_unat_eq_iff unat_mod dvd_eq_mod_eq_0)
  show ?thesis
  proof (cases "unat sector < 4")
    case True
    then have mul: "unat (sector * 512) = 512 * unat sector"
      by (simp add: unat_word_ariths)
    have add: "512 * unat sector + unat len < 2 ^ 64"
      using True unat_lt [of len] by simp
    then have sum: "unat (sector * 512 + ucast len) = 512 * unat sector + unat len"
      by (simp add: unat_add_small mul len)
    show ?thesis
      using True add
      by (auto simp: blk_request_backing_range_def outcome_simps checked_mul_def checked_add_def
          word_le_nat_alt word_less_nat_alt mul sum len dvd [symmetric] zero [symmetric]
          split: if_splits)
  next
    case False
    then have "\<not> 512 * unat sector + unat len \<le> 2048 \<or> unat len = 0" by arith
    with False show ?thesis
      by (auto simp: blk_request_backing_range_def word_le_nat_alt)
  qed
qed

lemma blk_request_backing_range_safe [simp]:
  "\<not> is_fault (blk_request_backing_range sector len)"
  by (simp add: blk_request_backing_range_def)

section \<open>Descriptor chains: lemmas\<close>

lemma blk_checks_safe [simp]:
  "\<not> is_fault (blk_checked_add a b)" "\<not> is_fault (blk_ensure_descriptor_index d i)"
  "\<not> is_fault (blk_require_flags i x y)" "\<not> is_fault (blk_require_length i l r)"
  "\<not> is_fault (blk_reject_nested_indirect i f)"
  by (simp_all add: blk_checked_add_def blk_ensure_descriptor_index_def blk_require_flags_def
      blk_require_length_def blk_reject_nested_indirect_def)

lemma blk_reads_safe:
  assumes "memory_wf m"
  shows "\<not> is_fault (blk_read_guest_u16 m a)" "\<not> is_fault (blk_read_descriptor d m i)"
    "\<not> is_fault (blk_read_indirect_descriptor m t n i)" "\<not> is_fault (blk_read_header m a)"
    "\<not> is_fault (preflight_guest_output m a k)"
  using mem_read_no_fault [OF assms]
  by (simp_all add: blk_read_guest_u16_def blk_read_descriptor_def blk_read_indirect_descriptor_def
      blk_read_header_def preflight_guest_output_def outcome_simps)

lemma resolve_request_chain_safe:
  assumes "memory_wf m"
  shows "\<not> is_fault (resolve_request_chain d m head)"
  using blk_reads_safe [OF assms]
  by (simp add: resolve_request_chain_def resolve_direct_request_chain_def
      resolve_indirect_request_chain_def Let_def)

lemma blk_next_head_safe:
  assumes "memory_wf m" and "blk_inv d"
  shows "\<not> is_fault (blk_next_head d m)"
  using blk_reads_safe [OF assms(1)] blk_queue_size_pos [OF assms(2)]
  by (simp add: blk_next_head_def)

lemma blk_next_head_Ok:
  "blk_next_head d m = Ok (avail, head) \<Longrightarrow>
     avail = blk_last_avail_idx d + 1 \<and> head < blk_queue_size d \<and> blk_notify_pending d
     \<and> blk_ensure_queue_ready d = Ok ()"
  by (auto simp: blk_next_head_def blk_ensure_descriptor_index_def outcome_simps split: if_splits)

lemma blk_validate_read_safe:
  assumes "memory_wf m" and "blk_inv d"
  shows "\<not> is_fault (blk_validate_read d m)"
  using blk_reads_safe [OF assms(1)] blk_next_head_safe [OF assms] resolve_request_chain_safe [OF assms(1)]
  by (simp add: blk_validate_read_def Let_def split: prod.split)

lemma blk_validate_atomic_safe:
  assumes "memory_wf m" and "blk_inv d"
  shows "\<not> is_fault (blk_validate_atomic d m)"
  using blk_reads_safe [OF assms(1)] blk_next_head_safe [OF assms] mem_read_no_fault [OF assms(1)]
    resolve_request_chain_safe [OF assms(1)] blk_queue_size_pos [OF assms(2)]
  by (simp add: blk_validate_atomic_def Let_def split: prod.split)

lemma preflight_Ok:
  "memory_wf m \<Longrightarrow> preflight_guest_output m a n = Ok u \<longleftrightarrow> in_ram m (unat a) n"
  by (simp add: preflight_guest_output_def outcome_simps mem_read_slice ram_slice_def)

lemma blk_validate_atomic_ready:
  assumes m: "memory_wf m" and v: "blk_validate_atomic d m = Ok req"
  shows "blk_request_ready d m req"
proof -
  from v obtain avail head where n: "blk_next_head d m = Ok (avail, head)"
    and rest: "(case (avail, head) of (avail_idx, head) \<Rightarrow> True)"
    by (auto simp: blk_validate_atomic_def and_then_Ok)
  note nh = blk_next_head_Ok [OF n]
  from v show ?thesis
    unfolding blk_validate_atomic_def Let_def n
    by (auto simp: outcome_simps if_Err_Ok blk_request_backing_range_iff preflight_Ok [OF m]
        blk_checked_add_def mem_read_slice [OF m] blk_request_ready_def nh
        split: if_splits dest: ram_slice_in_ram)
qed

lemma parse_descriptor_bytes [simp]:
  "parse_descriptor (descriptor_bytes a l f n)
     = \<lparr>desc_address = a, desc_length = l, desc_flags = f, desc_next = n\<rparr>"
  by (simp add: parse_descriptor_def)

lemma read_table_entry:
  assumes "memory_wf m"
  shows "and_then (mul_ov 16 (ucast index)) (\<lambda>offset.
           and_then (blk_checked_add table offset) (\<lambda>address.
           and_then (map_err Blk_Memory (mem_read m address 16)) (\<lambda>bytes.
           Ok (parse_descriptor bytes)))) = Ok desc \<longleftrightarrow> descriptor_at m table index desc"
  by (cases desc)
    (auto simp: blk_checked_add_def and_then_checked_descriptor [OF assms] descriptor_at_def
      unat_scaled_index)

lemma blk_read_descriptor_iff:
  "memory_wf m \<Longrightarrow> blk_read_descriptor d m index = Ok desc \<longleftrightarrow> descriptor_at m (blk_queue_desc d) index desc"
  by (simp only: blk_read_descriptor_def read_table_entry)

lemma blk_read_indirect_iff:
  assumes "memory_wf m"
  shows "blk_read_indirect_descriptor m table entries index = Ok desc \<longleftrightarrow>
           unat index < unat entries \<and> descriptor_at m table index desc"
proof -
  have "unat (ucast index :: u32) = unat index"
    using unat_lt [of index] by (simp add: unsigned_ucast_eq take_bit_nat_eq_self)
  then show ?thesis
    unfolding blk_read_indirect_descriptor_def if_Err_Ok read_table_entry [OF assms]
    by (simp add: word_le_nat_alt not_le)
qed

lemma blk_check_Ok [outcome_simps]:
  "blk_ensure_descriptor_index d i = Ok u \<longleftrightarrow> i < blk_queue_size d"
  "blk_require_flags i a b = Ok u \<longleftrightarrow> a = b"
  "blk_require_length i l r = Ok u \<longleftrightarrow> r \<le> l"
  "blk_reject_nested_indirect i f = Ok u \<longleftrightarrow> f AND VIRTQ_DESC_F_INDIRECT = 0"
  by (auto simp: blk_ensure_descriptor_index_def blk_require_flags_def blk_require_length_def
      blk_reject_nested_indirect_def not_le)

lemma resolve_direct_iff:
  assumes "memory_wf m" and "descriptor_at m (blk_queue_desc d) head header"
  shows "resolve_direct_request_chain d m head header = Ok chain \<longleftrightarrow>
           chain_header chain = header
           \<and> chain_in_table m (blk_queue_desc d) (unat (blk_queue_size d)) head chain"
  using assms
  by (cases chain) (auto simp: resolve_direct_request_chain_def Let_def outcome_simps if_Err_Ok
      blk_read_descriptor_iff chain_in_table_def word_less_nat_alt)

lemma descriptor_at_unique:
  "descriptor_at m table index a \<Longrightarrow> descriptor_at m table index b \<longleftrightarrow> b = a"
  by (cases a, cases b) (auto simp: descriptor_at_def descriptor_bytes_inject)

lemma indirect_length:
  fixes len :: u32
  shows "\<not> (len < 48 \<or> len mod 16 \<noteq> 0) \<and> \<not> len div 16 > 0x10000 \<longleftrightarrow>
           (\<exists>entries. unat len = 16 * entries \<and> 3 \<le> entries \<and> entries \<le> 65536)"
    and "unat len = 16 * entries \<Longrightarrow> unat (len div 16) = entries"
proof -
  have z: "len mod 16 = 0 \<longleftrightarrow> 16 dvd unat len"
    by (simp add: word_unat_eq_iff unat_mod dvd_eq_mod_eq_0)
  show "\<not> (len < 48 \<or> len mod 16 \<noteq> 0) \<and> \<not> len div 16 > 0x10000 \<longleftrightarrow>
      (\<exists>entries. unat len = 16 * entries \<and> 3 \<le> entries \<and> entries \<le> 65536)"
    by (auto simp: z word_less_nat_alt unat_div elim!: dvdE)
  show "unat len = 16 * entries \<Longrightarrow> unat (len div 16) = entries"
    by (simp add: unat_div)
qed

lemma resolve_indirect_iff:
  assumes m: "memory_wf m" and outer: "descriptor_at m (blk_queue_desc d) head outer"
  shows "resolve_indirect_request_chain d m head outer = Ok chain \<longleftrightarrow> indirect_chain d m head chain"
proof -
  have "resolve_indirect_request_chain d m head outer = Ok chain \<longleftrightarrow>
      blk_driver_features d AND VIRTIO_RING_F_INDIRECT_DESC \<noteq> 0
      \<and> desc_flags outer = VIRTQ_DESC_F_INDIRECT
      \<and> (\<not> (desc_length outer < 48 \<or> desc_length outer mod 16 \<noteq> 0)
         \<and> \<not> desc_length outer div 16 > 0x10000)
      \<and> chain_in_table m (desc_address outer) (unat (desc_length outer div 16)) 0 chain
      \<and> desc_flags (chain_data chain) AND VIRTQ_DESC_F_INDIRECT = 0"
    by (cases chain) (auto simp: resolve_indirect_request_chain_def Let_def outcome_simps if_Err_Ok
        blk_read_indirect_iff [OF m] chain_in_table_def del: mod_0_imp_dvd)
  also have "\<dots> \<longleftrightarrow> indirect_chain d m head chain"
    unfolding indirect_length(1) indirect_chain_def
    by (auto simp: descriptor_at_unique [OF outer] indirect_length(2) outer)
  finally show ?thesis .
qed

end
