(* ===== verification/Virtio_Blk_Correct.thy ===== *)
theory Virtio_Blk_Correct
  imports Virtio_Blk_Queue
begin

text \<open>
  Correctness of virtio-blk request processing: the preflight makes the atomic processing all or
  nothing for the device and guest RAM, a completed read returns the sectors, a completed write
  stores the guest's bytes in the sectors and in the backing file, and no guest input makes the
  device model panic.
\<close>

section \<open>The states a guest drives\<close>

definition blk_state_read ::
  "u64 \<Rightarrow> usize \<Rightarrow> (blk_dev \<times> guest_memory \<times> host_files, u8 list, blk_error) op" where
  "blk_state_read offset len = (\<lambda>(d, s). case blk_read offset len d of (r, d') \<Rightarrow> (r, (d', s)))"

definition blk_state_write ::
  "u64 \<Rightarrow> u8 list \<Rightarrow> (blk_dev \<times> guest_memory \<times> host_files, blk_event option, blk_error) op" where
  "blk_state_write offset payload =
     (\<lambda>(d, s). case blk_write offset payload d of (r, d') \<Rightarrow> (r, (d', s)))"

text \<open>The read-only processing on the same states.\<close>

definition blk_state_process ::
  "(blk_dev \<times> guest_memory \<times> host_files, blk_completion, blk_process_error) op" where
  "blk_state_process = (\<lambda>(d, m, files).
     case blk_process_notified_queue (d, m) of (r, (d', m')) \<Rightarrow> (r, (d', m', files)))"

definition blk_state_inv :: "blk_dev \<times> guest_memory \<times> host_files \<Rightarrow> bool" where
  "blk_state_inv s \<longleftrightarrow> blk_inv (fst s) \<and> memory_wf (fst (snd s))"

text \<open>The request as the atomic path represents it, and the ranges its preflight accepts.\<close>

definition with_used_element :: "blk_dev \<Rightarrow> blk_request \<Rightarrow> blk_request" where
  "with_used_element d req =
     req\<lparr>req_used_element :=
           blk_queue_device d + (4 + 8 * ucast (blk_last_used_idx d mod blk_queue_size d))\<rparr>"

definition read_targets_ok :: "blk_dev \<Rightarrow> guest_memory \<Rightarrow> blk_request \<Rightarrow> bool" where
  "read_targets_ok d m req \<longleftrightarrow>
     in_ram m (unat (req_data_address req)) (unat (req_data_length req))
     \<and> in_ram m (unat (req_status_address req)) 1
     \<and> in_ram m (unat (blk_queue_device d)
           + (4 + 8 * (unat (blk_last_used_idx d) mod unat (blk_queue_size d)))) 8"

text \<open>
  The ranges a request is answered in, in the reverse order of the writes: the guest chooses all of
  them, and the sources accept ranges that overlap.  \<open>overlay a bs f\<close> is the memory \<open>f\<close> with the bytes
  \<open>bs\<close> at \<open>a\<close>, so a sequence of overlays says which write a byte comes from.
\<close>

definition overlay :: "u64 \<Rightarrow> u8 list \<Rightarrow> (nat \<Rightarrow> u8) \<Rightarrow> nat \<Rightarrow> u8" where
  "overlay a bs f x = (if unat a \<le> x \<and> x < unat a + length bs then bs ! (x - unat a) else f x)"

definition used_bytes :: "blk_request \<Rightarrow> u32 \<Rightarrow> u8 list" where
  "used_bytes req len = to_le_bytes (ucast (req_head req) :: u32) @ to_le_bytes len"

definition covers :: "nat \<times> nat \<Rightarrow> nat \<Rightarrow> bool" where
  "covers r x \<longleftrightarrow> fst r \<le> x \<and> x < fst r + snd r"

definition answer_targets :: "blk_request \<Rightarrow> (nat \<times> nat) list" where
  "answer_targets req =
     [(unat (req_used_idx_address req), 2), (unat (req_used_element req), 8),
      (unat (req_status_address req), 1)]"

definition request_targets :: "blk_request \<Rightarrow> (nat \<times> nat) list" where
  "request_targets req = answer_targets req
     @ (case req_outgoing req of
          None \<Rightarrow> [(unat (req_data_address req), unat (req_data_length req))] | Some _ \<Rightarrow> [])"

text \<open>Two address ranges without a common byte, and a request whose targets are pairwise apart.\<close>

definition apart :: "nat \<times> nat \<Rightarrow> nat \<times> nat \<Rightarrow> bool" where
  "apart r q \<longleftrightarrow> fst r + snd r \<le> fst q \<or> fst q + snd q \<le> fst r"

definition targets_apart :: "blk_request \<Rightarrow> bool" where
  "targets_apart req \<longleftrightarrow> sorted_wrt apart (request_targets req)"

section \<open>Concrete requests\<close>

text \<open>
  A driver with a four-entry queue at \<open>0x100\<close>/\<open>0x200\<close>/\<open>0x300\<close>, a request header at \<open>0x400\<close>, a
  one-sector buffer at \<open>0x600\<close> and the status byte at \<open>0x800\<close>.
\<close>

definition example_blk_dev :: blk_dev where
  "example_blk_dev =
     (blk_new 0x10000)\<lparr>blk_driver_features := VIRTIO_F_VERSION_1, blk_status := 0x0f,
        blk_queue_size := 4, blk_queue_enabled := True, blk_queue_desc := 0x100,
        blk_queue_driver := 0x200, blk_queue_device := 0x300, blk_notify_pending := True\<rparr>"

definition example_blk_ram :: "u8 \<Rightarrow> u8 \<Rightarrow> guest_memory" where
  "example_blk_ram request_type data_flags = example_ram
     [(0x101, 4), (0x108, 16), (0x10c, 1), (0x10e, 1),
      (0x111, 6), (0x119, 2), (0x11c, data_flags), (0x11e, 2),
      (0x121, 8), (0x128, 1), (0x12c, 2),
      (0x202, 1), (0x400, request_type), (0x408, 1), (0x600, 0x5a)]"

definition example_read_request :: blk_request where
  "example_read_request =
     \<lparr>req_avail = 1, req_head = 0, req_sector = 1, req_range = (512, 1024),
      req_data_address = 0x600, req_data_length = 512, req_status_address = 0x800,
      req_used_element = 0x304, req_used_idx_address = 0x302, req_outgoing = None\<rparr>"

definition example_out_bytes :: "u8 list" where
  "example_out_bytes = map (guest_byte (example_blk_ram 1 1)) [0x600..<0x800]"

definition example_write_request :: blk_request where
  "example_write_request = example_read_request\<lparr>req_outgoing := Some example_out_bytes\<rparr>"

definition example_io :: host_io where
  "example_io = \<lparr>io_open_fails = (\<lambda>_. None), io_stat_fails = (\<lambda>_. None), io_read_fails = (\<lambda>_. None),
     io_seek_fails = (\<lambda>_. None), io_write_fails = (\<lambda>_. None), io_sync_fails = (\<lambda>_. None)\<rparr>"

section \<open>Completion after the preflight\<close>

lemma blk_request_readyD:
  assumes "blk_request_ready d m req"
  shows "in_ram m (unat (req_data_address req)) (unat (req_data_length req))"
    and "in_ram m (unat (req_status_address req)) 1"
    and "in_ram m (unat (req_used_element req)) 8"
    and "in_ram m (unat (req_used_idx_address req)) 2"
    and "fst (req_range req) \<le> snd (req_range req)"
    and "snd (req_range req) \<le> 2048"
    and "snd (req_range req) - fst (req_range req) = unat (req_data_length req)"
    and "unat (req_data_length req) \<le> 2048"
    and "req_avail req = blk_last_avail_idx d + 1"
  using assms by (auto simp: blk_request_ready_def)

lemma blk_complete_atomic_run:
  assumes m: "memory_wf m" and d: "length (blk_backing d) = 2048"
    and req: "blk_request_ready d m req"
  shows "blk_complete_atomic d req m
         = (Ok (request_written req, blk_last_used_idx d + 1), blk_served d req m)"
proof -
  note r = blk_request_readyD [OF req]
  have bytes: "length (request_sectors d req) = unat (req_data_length req)"
    using r(5-7) d by (simp add: request_sectors_def)
  have idx: "index_range (blk_backing d) (fst (req_range req)) (snd (req_range req))
      = Ok (request_sectors d req)"
    using r(5,6) d by (simp add: index_range_def request_sectors_def)
  have plus: "add_ov (req_data_length req) 1 = Ok (req_data_length req + 1)"
    using r(8) by (simp add: outcome_simps)
  show ?thesis
  proof (cases "req_outgoing req")
    case None
    then show ?thesis
      using m r(1-4)
      by (simp add: blk_complete_atomic_def blk_served_def request_written_def idx plus bytes
          op_then_assoc op_write_slice(1) op_return_def)
  next
    case (Some out)
    then show ?thesis
      using m r(1-4)
      by (simp add: blk_complete_atomic_def blk_served_def request_written_def
          op_then_return op_write_slice(1) op_return_def)
  qed
qed

lemma copy_into_backing_ready:
  assumes "length (blk_backing d) = 2048" and "blk_request_ready d m req"
    and "req_outgoing req = Some bytes"
  shows "copy_into_backing (req_range req) bytes (blk_backing d)
         = Ok (splice (blk_backing d) (fst (req_range req)) bytes)"
  using assms ram_slice_length [of m _ _ bytes]
  by (auto simp: copy_into_backing_def blk_request_ready_def)

section \<open>Backing files\<close>

lemma file_write_at_inside:
  "offset + length bytes \<le> length content \<Longrightarrow> file_write_at content offset bytes = splice content offset bytes"
  by (simp add: file_write_at_def splice_def)

lemma io_step_Ok [outcome_simps]: "io_step operation f = Ok u \<longleftrightarrow> f = None"
  by (simp add: io_step_def split: option.splits)

lemma io_step_safe [simp]: "\<not> is_fault (io_step operation f)"
  by (simp add: io_step_def split: option.splits)

lemma persist_safe: "\<not> is_fault (fst (persist_backing_range io d extent bytes files))"
  by (auto simp: persist_backing_range_def op_return_def op_lift_def op_then_def file_write_all_def
      file_open_def is_fault_iff outcome_simps io_step_def
      split: option.splits outcome.splits prod.splits)

lemma persist_memory_only:
  "blk_persistent_backing d = None \<Longrightarrow> persist_backing_range io d extent bytes files = (Ok (), files)"
  by (simp add: persist_backing_range_def op_return_def)

lemma persist_Ok:
  assumes "blk_persistent_backing d = Some path"
    and "persist_backing_range io d extent bytes files = (Ok u, files')"
  obtains content where "files path = Some content" and "snd extent \<le> 2048"
    and "snd extent - fst extent = length bytes" and "host_io_ok io path"
    and "files' = files(path \<mapsto> file_write_at content (fst extent) bytes)"
  using assms
  by (auto simp: persist_backing_range_def op_lift_def op_then_def file_write_all_def
      file_open_def host_io_ok_def outcome_simps
      split: option.splits outcome.splits prod.splits if_splits)

lemma persist_complete:
  assumes "blk_persistent_backing d = Some path" and "files path = Some content"
    and "snd extent \<le> 2048" and "snd extent - fst extent = length bytes" and "host_io_ok io path"
  shows "persist_backing_range io d extent bytes files
         = (Ok (), files(path \<mapsto> file_write_at content (fst extent) bytes))"
  using assms
  by (simp add: persist_backing_range_def op_lift_def op_then_def file_write_all_def file_open_def
      host_io_ok_def io_step_def)

text \<open>A failed write to the file touches no other file and no byte outside the request's sectors.\<close>

lemma persist_Err:
  assumes "blk_persistent_backing d = Some path"
    and "persist_backing_range io d extent bytes files = (Err e, files')"
  obtains (untouched) "files' = files"
    | (partial) content n where "files path = Some content" "snd extent - fst extent = length bytes"
      "files' = files(path \<mapsto> file_write_at content (fst extent) (take n bytes))"
proof -
  have all: "take (length bytes) bytes = bytes" by simp
  have "files' = files \<or> (\<exists>content n. files path = Some content \<and> snd extent - fst extent = length bytes
      \<and> files' = files(path \<mapsto> file_write_at content (fst extent) (take n bytes)))"
    using assms
    by (auto simp: persist_backing_range_def op_lift_def op_then_def file_write_all_def
        file_open_def outcome_simps
        split: option.splits outcome.splits prod.splits if_splits) (metis all)
  then show thesis using untouched partial by blast
qed

section \<open>The three outcomes of atomic processing\<close>

lemma blk_atomic_cases [consumes 2, case_names invalid unpersisted completed]:
  assumes m: "memory_wf m" and d: "blk_inv d"
  obtains (invalid) e where "blk_validate_atomic d m = Err e"
      "blk_process_notified_queue_atomic io (d, m, files) = (Err e, (d, m, files))"
    | (unpersisted) req bytes e files' where "blk_validate_atomic d m = Ok req"
      "blk_request_ready d m req" "req_outgoing req = Some bytes"
      "persist_backing_range io d (req_range req) bytes files = (Err e, files')"
      "blk_process_notified_queue_atomic io (d, m, files) = (Err (Blk_Backing e), (d, m, files'))"
    | (completed) req files' where "blk_validate_atomic d m = Ok req"
      "blk_request_ready d m req"
      "case req_outgoing req of None \<Rightarrow> files' = files
       | Some bytes \<Rightarrow> persist_backing_range io d (req_range req) bytes files = (Ok (), files')"
      "blk_process_notified_queue_atomic io (d, m, files) =
         (Ok \<lparr>blk_descriptor_id = ucast (req_head req), blk_completion_length = request_written req,
              blk_completion_sector = req_sector req\<rparr>,
          (blk_dev_completed req d, blk_served d req m, files'))"
proof (cases "blk_validate_atomic d m")
  case (Err e)
  with invalid show ?thesis by (simp add: blk_process_notified_queue_atomic_def)
next
  case (Fault p)
  with blk_validate_atomic_safe [OF m d] show ?thesis by simp
next
  case (Ok req)
  have len: "length (blk_backing d) = 2048" using d by (simp add: blk_inv_def)
  have ready: "blk_request_ready d m req" by (rule blk_validate_atomic_ready [OF m Ok])
  note run = blk_complete_atomic_run [OF m len ready]
  have avail: "req_avail req = blk_last_avail_idx d + 1" by (rule blk_request_readyD [OF ready])
  show ?thesis
  proof (cases "req_outgoing req")
    case None
    with completed [OF Ok ready, of files] Ok run avail show ?thesis
      by (simp add: blk_process_notified_queue_atomic_def blk_dev_completed_def)
  next
    case (Some bytes)
    note copy = copy_into_backing_ready [OF len ready Some]
    obtain r files' where p: "persist_backing_range io d (req_range req) bytes files = (r, files')"
      by (cases "persist_backing_range io d (req_range req) bytes files")
    show ?thesis
    proof (cases r)
      case Ok': (Ok u)
      with completed [OF Ok ready, of files'] p Ok run avail Some show ?thesis
        by (simp add: blk_process_notified_queue_atomic_def blk_dev_completed_def copy)
    next
      case (Err e)
      with unpersisted [OF Ok ready Some] p Ok Some show ?thesis
        by (simp add: blk_process_notified_queue_atomic_def)
    next
      case (Fault q)
      with persist_safe [of io d "req_range req" bytes files] p show ?thesis by simp
    qed
  qed
qed

section \<open>The invariant\<close>

lemma blk_dev_served_inv:
  "blk_inv d \<Longrightarrow> blk_inv (blk_dev_served (blk_last_avail_idx d + 1) (blk_last_used_idx d + 1) d)"
  by (auto simp: blk_inv_def blk_dev_served_def)

lemma blk_dev_completed_inv:
  assumes "blk_inv d" and "blk_request_ready d m req"
  shows "blk_inv (blk_dev_completed req d)"
proof (cases "req_outgoing req")
  case None
  with assms show ?thesis by (simp add: blk_dev_completed_def blk_dev_served_inv)
next
  case (Some bytes)
  then have "length bytes = unat (req_data_length req)"
    using assms(2) ram_slice_length by (fastforce simp: blk_request_ready_def)
  with assms Some have "blk_inv (d\<lparr>blk_backing := splice (blk_backing d) (fst (req_range req)) bytes\<rparr>)"
    by (auto simp: blk_inv_def blk_request_ready_def)
  from blk_dev_served_inv [OF this] Some show ?thesis by (simp add: blk_dev_completed_def)
qed

lemma blk_served_wf [simp]: "memory_wf (blk_served d req m) = memory_wf m"
  by (simp add: blk_served_def split: option.splits)

lemma blk_validate_read_range:
  "blk_validate_read d m = Ok req \<Longrightarrow>
     blk_request_backing_range (req_sector req) (req_data_length req) = Ok (req_range req)
     \<and> req_avail req = blk_last_avail_idx d + 1"
  by (auto simp: blk_validate_read_def Let_def outcome_simps if_Err_Ok
      dest: blk_next_head_Ok split: prod.splits if_splits)

lemma blk_complete_read_safe:
  assumes d: "blk_inv d"
    and extent: "blk_request_backing_range (req_sector req) (req_data_length req) = Ok (req_range req)"
  shows "op_safe memory_wf (blk_complete_read d req)"
proof -
  from extent have r: "fst (req_range req) \<le> snd (req_range req)" "snd (req_range req) \<le> 2048"
    "unat (req_data_length req) \<le> 2048"
    by (auto simp: blk_request_backing_range_iff)
  with d have "snd (req_range req) \<le> length (blk_backing d)" by (simp add: blk_inv_def)
  then have idx: "index_range (blk_backing d) (fst (req_range req)) (snd (req_range req))
      = Ok (request_sectors d req)"
    using r by (simp add: index_range_def request_sectors_def)
  have plus: "add_ov (req_data_length req) 1 = Ok (req_data_length req + 1)"
    using r by (simp add: outcome_simps)
  have slot: "rem_ov (blk_last_used_idx d) (blk_queue_size d)
      = Ok (blk_last_used_idx d mod blk_queue_size d)"
    using blk_queue_size_pos [OF d] by (simp add: rem_ov_def)
  show ?thesis
    unfolding blk_complete_read_def
    by (simp add: idx plus slot) (intro op_safe_then op_safe_mem_write op_safe_lift op_safe_return; simp)
qed

text \<open>Both processing functions and the register file satisfy the contract of a guest-driven device.\<close>

lemma blk_process_read_safe:
  assumes m: "memory_wf m" and d: "blk_inv d"
    and run: "blk_process_notified_queue (d, m) = (r, (d', m'))"
  shows "blk_inv d' \<and> memory_wf m' \<and> \<not> is_fault r"
proof (cases "blk_validate_read d m")
  case (Err e)
  with m d run show ?thesis by (auto simp: blk_process_notified_queue_def)
next
  case (Fault p)
  with blk_validate_read_safe [OF m d] show ?thesis by simp
next
  case (Ok req)
  obtain q u where q: "blk_complete_read d req m = (q, u)" by (cases "blk_complete_read d req m")
  have range: "blk_request_backing_range (req_sector req) (req_data_length req) = Ok (req_range req)"
    and avail: "req_avail req = blk_last_avail_idx d + 1"
    using blk_validate_read_range [OF Ok] by simp_all
  have u: "memory_wf u" "\<not> is_fault q"
    using op_safeD [OF blk_complete_read_safe [OF d range] m q] by simp_all
  show ?thesis
  proof (cases q)
    case res: (Ok x)
    obtain written next_used where x: "x = (written, next_used)" by (cases x)
    have "next_used = blk_last_used_idx d + 1"
      using q unfolding res x blk_complete_read_def by (auto simp: outcome_simps)
    with Ok q res x run avail u(1) blk_dev_served_inv [OF d] show ?thesis
      by (auto simp: blk_process_notified_queue_def)
  qed (use Ok q run d u in \<open>auto simp: blk_process_notified_queue_def\<close>)
qed

lemma blk_atomic_safe:
  assumes m: "memory_wf m" and d: "blk_inv d"
    and run: "blk_process_notified_queue_atomic io (d, m, files) = (r, (d', m', files'))"
  shows "blk_inv d' \<and> memory_wf m' \<and> \<not> is_fault r"
  using m d
proof (cases rule: blk_atomic_cases [of m d io files])
  case (invalid e)
  with run m d show ?thesis by auto
next
  case (unpersisted req bytes e files'')
  with run m d show ?thesis by auto
next
  case (completed req files'')
  with run m blk_dev_completed_inv [OF d completed(2)] show ?thesis by auto
qed

lemma blk_state_registers_safe:
  "blk_state_inv s \<Longrightarrow> blk_state_read off len s = (r, s') \<Longrightarrow> blk_state_inv s' \<and> \<not> is_fault r"
  "blk_state_inv s \<Longrightarrow> blk_state_write off p s = (w, s') \<Longrightarrow> blk_state_inv s' \<and> \<not> is_fault w"
  by (auto simp: blk_state_inv_def blk_state_read_def blk_state_write_def split: prod.splits
      dest: blk_read_inv blk_write_inv)

interpretation blk: virtio_transport blk_state_read blk_state_write
  "blk_process_notified_queue_atomic io" blk_state_inv for io
proof (unfold_locales, goal_cases)
  case (1 s off len r s')
  then show ?case by (rule blk_state_registers_safe(1))
next
  case (2 s off payload w s')
  then show ?case by (rule blk_state_registers_safe(2))
next
  case (3 s c s')
  obtain d m files d' m' files' where "s = (d, m, files)" "s' = (d', m', files')"
    by (cases s, cases s') auto
  with 3 blk_atomic_safe [of m d io files c d' m' files'] show ?case by (simp add: blk_state_inv_def)
qed

interpretation blk_read_only: virtio_transport blk_state_read blk_state_write blk_state_process
  blk_state_inv
proof (unfold_locales, goal_cases)
  case (1 s off len r s')
  then show ?case by (rule blk_state_registers_safe(1))
next
  case (2 s off payload w s')
  then show ?case by (rule blk_state_registers_safe(2))
next
  case (3 s c s')
  obtain d m files where s: "s = (d, m, files)" by (cases s)
  obtain r d' m' where run: "blk_process_notified_queue (d, m) = (r, (d', m'))"
    by (cases "blk_process_notified_queue (d, m)") auto
  with 3 s blk_process_read_safe [OF _ _ run] show ?case
    by (auto simp: blk_state_inv_def blk_state_process_def)
qed

section \<open>Agreement of the two read paths\<close>

lemma used_element_in_ram:
  fixes d m defines "e \<equiv> 4 + 8 * ucast (blk_last_used_idx d mod blk_queue_size d) :: u64"
  assumes m: "memory_wf m"
  shows "unat (blk_queue_device d) + unat e < 18446744073709551616
           \<and> in_ram m (unat (blk_queue_device d + e)) 8 \<longleftrightarrow>
         in_ram m (unat (blk_queue_device d)
           + (4 + 8 * (unat (blk_last_used_idx d) mod unat (blk_queue_size d)))) 8"
  using checked_write_slice [OF m, of "blk_queue_device d" e 8]
  by (simp add: e_def unat_ring_offset unat_u16_mod in_region_slice checked_add_Some)

lemma blk_read_guest_in_ram:
  "memory_wf m \<Longrightarrow> blk_read_guest_u16 m a = Ok w \<Longrightarrow> in_ram m (unat a) 2"
  by (auto simp: blk_read_guest_u16_def outcome_simps mem_read_slice dest: ram_slice_in_ram)

lemma validate_atomic_read_iff:
  assumes m: "memory_wf m" and d: "blk_inv d"
  shows "blk_validate_atomic d m = Ok req' \<and> req_outgoing req' = None \<longleftrightarrow>
           (\<exists>req. blk_validate_read d m = Ok req \<and> read_targets_ok d m req \<and> req' = with_used_element d req)"
proof (cases "blk_next_head d m")
  case next_head: (Ok ah)
  obtain avail head where ah: "ah = (avail, head)" by (cases ah)
  have slot: "rem_ov (blk_last_used_idx d) (blk_queue_size d)
      = Ok (blk_last_used_idx d mod blk_queue_size d)"
    using blk_queue_size_pos [OF d] by (simp add: rem_ov_def)
  have long: "512 \<le> len" if "0 < unat len" "512 dvd unat len" for len :: u32
    using dvd_imp_le [OF that(2,1)] by (simp add: word_le_nat_alt)
  show ?thesis
  proof (cases "resolve_request_chain d m head")
    case chain: (Ok c)
    show ?thesis
    proof (cases "blk_read_header m (desc_address (chain_header c))")
      case header: (Ok h)
      show ?thesis
        using long used_element_in_ram [OF m, of d] blk_read_guest_in_ram [OF m]
        by (auto simp: blk_validate_atomic_def blk_validate_read_def next_head ah chain header slot
            Let_def if_Err_Ok outcome_simps preflight_Ok [OF m] blk_checked_add_def
            read_targets_ok_def with_used_element_def
            blk_request_backing_range_iff)
    qed (auto simp: blk_validate_atomic_def blk_validate_read_def next_head ah chain Let_def outcome_simps)
  qed (auto simp: blk_validate_atomic_def blk_validate_read_def next_head ah)
qed (auto simp: blk_validate_atomic_def blk_validate_read_def)

lemma blk_complete_read_run:
  assumes m: "memory_wf m" and d: "blk_inv d" and v: "blk_validate_read d m = Ok req"
  shows "read_targets_ok d m req \<Longrightarrow>
           blk_complete_read d req m
           = (Ok (request_written req, blk_last_used_idx d + 1), blk_served d (with_used_element d req) m)"
    and "\<not> read_targets_ok d m req \<Longrightarrow> fst (blk_complete_read d req m) \<noteq> Ok x"
proof -
  from v have out: "req_outgoing req = None" and uidx: "req_used_idx_address req = blk_queue_device d + 2"
    and used: "unat (blk_queue_device d) + 2 < 18446744073709551616"
      "in_ram m (unat (blk_queue_device d + 2)) 2"
    by (auto simp: blk_validate_read_def Let_def outcome_simps if_Err_Ok blk_checked_add_def
        split: prod.splits dest: blk_read_guest_in_ram [OF m])
  have used': "in_ram m (unat (blk_queue_device d) + 2) 2"
    using used by (simp add: unat_add_small)
  from v have extent: "blk_request_backing_range (req_sector req) (req_data_length req) = Ok (req_range req)"
    using blk_validate_read_range by blast
  then have r: "fst (req_range req) \<le> snd (req_range req)" "snd (req_range req) \<le> 2048"
    "snd (req_range req) - fst (req_range req) = unat (req_data_length req)"
    "unat (req_data_length req) \<le> 2048"
    by (auto simp: blk_request_backing_range_iff)
  with d have idx: "index_range (blk_backing d) (fst (req_range req)) (snd (req_range req))
      = Ok (request_sectors d req)" and bytes: "length (request_sectors d req) = unat (req_data_length req)"
    by (simp_all add: index_range_def request_sectors_def blk_inv_def)
  have plus: "add_ov (req_data_length req) 1 = Ok (req_data_length req + 1)"
    using r by (simp add: outcome_simps)
  have slot: "rem_ov (blk_last_used_idx d) (blk_queue_size d)
      = Ok (blk_last_used_idx d mod blk_queue_size d)"
    using blk_queue_size_pos [OF d] by (simp add: rem_ov_def)
  have sectors: "request_sectors d (req\<lparr>req_used_element := e\<rparr>) = request_sectors d req" for e
    by (simp add: request_sectors_def)
  let ?m1 = "poke (req_data_address req) (request_sectors d req) m"
  let ?m2 = "poke (req_status_address req) [VIRTIO_BLK_S_OK] ?m1"
  show "blk_complete_read d req m
      = (Ok (request_written req, blk_last_used_idx d + 1), blk_served d (with_used_element d req) m)"
    if "read_targets_ok d m req"
    using that m used' out unfolding blk_complete_read_def blk_checked_add_def read_targets_ok_def
    by (simp add: idx bytes plus slot op_write_slice(1) op_checked_write_slice(1) unat_ring_offset
        unat_u16_mod op_return_def blk_served_def with_used_element_def request_written_def
        sectors uidx)
  show "fst (blk_complete_read d req m) \<noteq> Ok x" if bad: "\<not> read_targets_ok d m req"
  proof (cases "in_ram m (unat (req_data_address req)) (unat (req_data_length req))
      \<and> in_ram m (unat (req_status_address req)) 1")
    case False
    show ?thesis
    proof (cases "in_ram m (unat (req_data_address req)) (unat (req_data_length req))")
      case True
      with False have "\<not> in_ram ?m1 (unat (req_status_address req)) (length [VIRTIO_BLK_S_OK])" by simp
      note fails = op_write_slice(2) [OF _ this]
      have "\<exists>e. blk_complete_read d req m = (Err e, ?m1)"
        unfolding blk_complete_read_def
        by (simp only: idx op_then_lift_Ok op_write_slice(1) [OF m] True bytes) (rule fails, simp add: m)
      then show ?thesis by auto
    next
      case False
      then have "\<not> in_ram m (unat (req_data_address req)) (length (request_sectors d req))"
        by (simp add: bytes)
      note fails = op_write_slice(2) [OF m this]
      have "\<exists>e. blk_complete_read d req m = (Err e, m)"
        unfolding blk_complete_read_def by (simp only: idx op_then_lift_Ok) (rule fails)
      then show ?thesis by auto
    qed
  next
    case True
    have "\<not> in_ram ?m2 (unat (blk_queue_device d)
        + unat (4 + 8 * ucast (blk_last_used_idx d mod blk_queue_size d) :: u64))
        (length (to_le_bytes (ucast (req_head req) :: u32) @ to_le_bytes (req_data_length req + 1)))"
      using bad True by (simp add: read_targets_ok_def unat_ring_offset unat_u16_mod)
    note fails = op_checked_write_slice(2) [OF _ this]
    have "\<exists>e. blk_complete_read d req m = (Err e, ?m2)"
      unfolding blk_complete_read_def blk_checked_add_def
      using True by (simp add: idx bytes plus slot op_write_slice(1) m) (rule fails, simp add: m)
    then show ?thesis by auto
  qed
qed

lemma blk_process_read_iff:
  assumes m: "memory_wf m" and d: "blk_inv d"
  shows "blk_process_notified_queue (d, m) = (Ok c, (d', m')) \<longleftrightarrow>
    (\<exists>req. blk_validate_read d m = Ok req \<and> read_targets_ok d m req
       \<and> c = \<lparr>blk_descriptor_id = ucast (req_head req), blk_completion_length = request_written req,
              blk_completion_sector = req_sector req\<rparr>
       \<and> d' = blk_dev_served (req_avail req) (blk_last_used_idx d + 1) d
       \<and> m' = blk_served d (with_used_element d req) m)"
proof (cases "blk_validate_read d m")
  case (Ok req)
  note run = blk_complete_read_run [OF m d Ok]
  show ?thesis
  proof (cases "read_targets_ok d m req")
    case True
    then show ?thesis
      using run(1) by (auto simp: blk_process_notified_queue_def Ok)
  next
    case False
    obtain q u where q: "blk_complete_read d req m = (q, u)" by (cases "blk_complete_read d req m")
    with run(2) [OF False] have "q \<noteq> Ok x" for x by auto
    with q False Ok show ?thesis
      by (cases q) (auto simp: blk_process_notified_queue_def)
  qed
qed (auto simp: blk_process_notified_queue_def)

text \<open>Validation does not depend on the content of the sectors and the file behind them.\<close>

lemma blk_validate_atomic_backing:
  fixes d b p defines "d' \<equiv> d\<lparr>blk_backing := b, blk_persistent_backing := p\<rparr>"
  shows "blk_validate_atomic d' m = blk_validate_atomic d m"
proof -
  have parts: "blk_read_descriptor d' m i = blk_read_descriptor d m i"
    "blk_ensure_descriptor_index d' i = blk_ensure_descriptor_index d i"
    "blk_ensure_queue_ready d' = blk_ensure_queue_ready d" for i
    by (simp_all add: d'_def blk_read_descriptor_def blk_ensure_descriptor_index_def
        blk_ensure_queue_ready_def blk_negotiated_features_valid_def)
  have fields: "blk_queue_driver d' = blk_queue_driver d" "blk_queue_size d' = blk_queue_size d"
    "blk_last_avail_idx d' = blk_last_avail_idx d" "blk_last_used_idx d' = blk_last_used_idx d"
    "blk_notify_pending d' = blk_notify_pending d" "blk_queue_device d' = blk_queue_device d"
    "blk_driver_features d' = blk_driver_features d"
    by (simp_all add: d'_def)
  have "blk_next_head d' m = blk_next_head d m"
    by (simp add: blk_next_head_def parts fields cong: if_cong)
  moreover have "resolve_request_chain d' m = resolve_request_chain d m"
    by (simp add: fun_eq_iff resolve_request_chain_def resolve_direct_request_chain_def
        resolve_indirect_request_chain_def parts fields cong: if_cong)
  ultimately show ?thesis by (simp add: blk_validate_atomic_def fields cong: if_cong)
qed

lemma blk_validate_atomic_updates:
  "blk_validate_atomic (d\<lparr>blk_backing := b\<rparr>) m = blk_validate_atomic d m"
  "blk_validate_atomic (d\<lparr>blk_persistent_backing := p\<rparr>) m = blk_validate_atomic d m"
  using blk_validate_atomic_backing [where d = d and b = b and p = "blk_persistent_backing d"]
    blk_validate_atomic_backing [where d = d and b = "blk_backing d" and p = p] by simp_all

section \<open>Concrete requests: lemmas\<close>

lemma example_blk_inv: "blk_inv example_blk_dev"
  by (simp add: blk_inv_def example_blk_dev_def blk_new_def valid_queue_size_cases
      status_consistent_def VIRTIO_STATUS_KNOWN_def blk_features_valid_def
      VIRTIO_BLK_SUPPORTED_FEATURES_def)

lemma example_blk_ram_wf: "memory_wf (example_blk_ram t f)"
  by (simp add: example_blk_ram_def example_ram_wf)

lemmas example_blk_slice_simps = example_blk_ram_def example_ram_def ram_slice_def in_ram_def
  guest_byte_def descriptor_bytes_def to_le_bytes_def byte_simps

lemma example_blk_slices:
  "ram_slice (example_blk_ram 0 3) 0x110 16 = Some (descriptor_bytes 0x600 512 3 2)"
  "ram_slice (example_blk_ram 1 1) 0x110 16 = Some (descriptor_bytes 0x600 512 1 2)"
  "ram_slice (example_blk_ram 0 3) 0x400 16
     = Some (to_le_bytes (0 :: u32) @ to_le_bytes (0 :: u32) @ to_le_bytes (1 :: u64))"
  "ram_slice (example_blk_ram 1 1) 0x400 16
     = Some (to_le_bytes (1 :: u32) @ to_le_bytes (0 :: u32) @ to_le_bytes (1 :: u64))"
  by (simp_all add: example_blk_slice_simps)

lemma example_blk_queue_slices:
  shows "ram_slice (example_blk_ram t f) 0x100 16 = Some (descriptor_bytes 0x400 16 1 1)"
    and "ram_slice (example_blk_ram t f) 0x120 16 = Some (descriptor_bytes 0x800 1 2 0)"
    and "ram_slice (example_blk_ram t f) 0x202 2 = Some (to_le_bytes (1 :: u16))"
    and "ram_slice (example_blk_ram t f) 0x204 2 = Some (to_le_bytes (0 :: u16))"
    and "ram_slice (example_blk_ram t f) 0x302 2 = Some (to_le_bytes (0 :: u16))"
  by (simp_all add: example_blk_slice_simps)

lemma example_blk_next_head:
  "blk_next_head example_blk_dev (example_blk_ram t f) = Ok (1, 0)"
  using example_blk_queue_slices [of t f]
  by (simp add: blk_next_head_def blk_checked_add_def blk_read_guest_u16_def if_Err_Ok
      and_then_checked_u16 [OF example_blk_ram_wf] example_blk_dev_def blk_new_def
      blk_ensure_queue_ready_def blk_negotiated_features_valid_def blk_features_valid_def
      VIRTIO_BLK_SUPPORTED_FEATURES_def blk_ensure_descriptor_index_def rem_ov_def u16_bytes_inject)

lemma example_blk_descriptors:
  "blk_read_descriptor example_blk_dev (example_blk_ram t f) 0
     = Ok \<lparr>desc_address = 0x400, desc_length = 16, desc_flags = 1, desc_next = 1\<rparr>"
  "blk_read_descriptor example_blk_dev (example_blk_ram 0 3) 1
     = Ok \<lparr>desc_address = 0x600, desc_length = 512, desc_flags = 3, desc_next = 2\<rparr>"
  "blk_read_descriptor example_blk_dev (example_blk_ram 1 1) 1
     = Ok \<lparr>desc_address = 0x600, desc_length = 512, desc_flags = 1, desc_next = 2\<rparr>"
  "blk_read_descriptor example_blk_dev (example_blk_ram t f) 2
     = Ok \<lparr>desc_address = 0x800, desc_length = 1, desc_flags = 2, desc_next = 0\<rparr>"
  using example_blk_slices example_blk_queue_slices
  by (simp_all add: blk_read_descriptor_iff [OF example_blk_ram_wf] descriptor_at_def
      example_blk_dev_def blk_new_def)

lemma example_blk_headers:
  "blk_read_header (example_blk_ram 0 3) 0x400 = Ok \<lparr>header_type = 0, header_reserved = 0, header_sector = 1\<rparr>"
  "blk_read_header (example_blk_ram 1 1) 0x400 = Ok \<lparr>header_type = 1, header_reserved = 0, header_sector = 1\<rparr>"
proof -
  have rd: "mem_read (example_blk_ram 0 3) 0x400 16
      = Ok (to_le_bytes (0 :: u32) @ to_le_bytes (0 :: u32) @ to_le_bytes (1 :: u64))"
    "mem_read (example_blk_ram 1 1) 0x400 16
      = Ok (to_le_bytes (1 :: u32) @ to_le_bytes (0 :: u32) @ to_le_bytes (1 :: u64))"
    using example_blk_slices(3,4) by (simp_all add: mem_read_slice [OF example_blk_ram_wf])
  show "blk_read_header (example_blk_ram 0 3) 0x400 = Ok \<lparr>header_type = 0, header_reserved = 0, header_sector = 1\<rparr>"
    "blk_read_header (example_blk_ram 1 1) 0x400 = Ok \<lparr>header_type = 1, header_reserved = 0, header_sector = 1\<rparr>"
    unfolding blk_read_header_def rd by (simp_all add: subslice_def)
qed

lemma example_blk_in_ram: "in_ram (example_blk_ram t f) a n \<longleftrightarrow> a + n \<le> 4096"
  by (simp add: in_ram_def example_blk_ram_def example_ram_def)

lemmas example_validate_simps = blk_validate_atomic_def example_blk_next_head resolve_request_chain_def
  resolve_direct_request_chain_def example_blk_descriptors example_blk_headers Let_def
  blk_require_flags_def blk_require_length_def blk_ensure_descriptor_index_def
  preflight_Ok [OF example_blk_ram_wf] example_blk_in_ram if_Err_Ok outcome_simps
  blk_request_backing_range_iff blk_checked_add_def word_le_nat_alt

lemma example_blk_used_idx: "blk_read_guest_u16 (example_blk_ram t f) 0x302 = Ok 0"
  using example_blk_queue_slices(5) [of t f]
  by (simp add: blk_read_guest_u16_def outcome_simps mem_read_slice [OF example_blk_ram_wf])

lemma example_blk_queue:
  "blk_queue_size example_blk_dev = 4" "blk_queue_device example_blk_dev = 0x300"
  "blk_last_used_idx example_blk_dev = 0" "blk_persistent_backing example_blk_dev = None"
  by (simp_all add: example_blk_dev_def blk_new_def)

lemma example_blk_out_read: "mem_read (example_blk_ram 1 1) 0x600 512 = Ok example_out_bytes"
proof -
  have "in_region (mem_region (example_blk_ram 1 1)) 0x600 512"
    by (simp add: in_region_slice example_blk_in_ram)
  from mem_read_inside [OF example_blk_ram_wf this]
  have "mem_read (example_blk_ram 1 1) 0x600 512
      = Ok (map (guest_byte (example_blk_ram 1 1)) [unat (0x600 :: u64)..<unat (0x600 :: u64) + 512])" .
  moreover have "unat (0x600 :: u64) = 0x600" "(0x600 :: nat) + 512 = 0x800" by simp_all
  ultimately show ?thesis unfolding example_out_bytes_def by (simp only:)
qed

lemma example_blk_validate_read:
  "blk_validate_atomic example_blk_dev (example_blk_ram 0 3) = Ok example_read_request"
  by (simp add: example_validate_simps example_blk_used_idx example_blk_queue example_read_request_def)

lemma example_blk_validate_write:
  "blk_validate_atomic example_blk_dev (example_blk_ram 1 1) = Ok example_write_request"
  by (simp add: example_validate_simps example_blk_used_idx example_blk_queue example_blk_out_read
      example_read_request_def example_write_request_def)

lemma example_targets_apart: "targets_apart example_read_request" "targets_apart example_write_request"
  by (simp_all add: targets_apart_def request_targets_def answer_targets_def apart_def example_read_request_def
      example_write_request_def)

section \<open>What the guest sees\<close>

lemma poke_slices:
  assumes "memory_wf m" and "in_ram m (unat a) (length bs)"
  shows "ram_slice (poke a bs m) (unat a) (length bs) = Some bs"
    and "apart (unat a, length bs) (b, n) \<Longrightarrow> ram_slice (poke a bs m) b n = ram_slice m b n"
  using assms by (auto simp: in_region_slice apart_def ram_slice_poke_same ram_slice_poke_other)

lemma overlay_in: "covers (unat a, length bs) x \<Longrightarrow> overlay a bs f x = bs ! (x - unat a)"
  by (simp add: overlay_def covers_def)

lemma overlay_out: "\<not> covers (unat a, length bs) x \<Longrightarrow> overlay a bs f x = f x"
  by (auto simp: overlay_def covers_def)

lemma length_used_bytes [simp]: "length (used_bytes req len) = 8"
  by (simp add: used_bytes_def)

lemma poke_byte:
  assumes "memory_wf m" and "in_ram m (unat a) (length bs)" and "in_ram m x 1"
  shows "guest_byte (poke a bs m) x = overlay a bs (guest_byte m) x"
  using assms guest_byte_poke [of m a bs x] by (simp add: overlay_def in_region_slice in_ram_def)

text \<open>Every byte of guest RAM after a served request, whatever the targets overlap with.\<close>

lemma blk_served_byte:
  assumes m: "memory_wf m" and d: "length (blk_backing d) = 2048"
    and req: "blk_request_ready d m req" and x: "in_ram m x 1"
  shows "guest_byte (blk_served d req m) x =
    overlay (req_used_idx_address req) (to_le_bytes (blk_last_used_idx d + 1))
     (overlay (req_used_element req) (used_bytes req (request_written req))
       (overlay (req_status_address req) [VIRTIO_BLK_S_OK]
         (case req_outgoing req of
            None \<Rightarrow> overlay (req_data_address req) (request_sectors d req) (guest_byte m)
          | Some _ \<Rightarrow> guest_byte m))) x"
proof -
  note r = blk_request_readyD [OF req]
  have bytes: "length (request_sectors d req) = unat (req_data_length req)"
    using r(5-7) d by (simp add: request_sectors_def)
  define m1 where "m1 = (case req_outgoing req of
      None \<Rightarrow> poke (req_data_address req) (request_sectors d req) m | Some _ \<Rightarrow> m)"
  define m2 where "m2 = poke (req_status_address req) [VIRTIO_BLK_S_OK] m1"
  define m3 where "m3 = poke (req_used_element req) (used_bytes req (request_written req)) m2"
  have served: "blk_served d req m = poke (req_used_idx_address req) (to_le_bytes (blk_last_used_idx d + 1)) m3"
    by (simp add: blk_served_def m1_def m2_def m3_def used_bytes_def)
  have wf: "memory_wf m1" "memory_wf m2" "memory_wf m3"
    using m by (simp_all add: m1_def m2_def m3_def split: option.splits)
  have dom: "in_ram m1 = in_ram m" "in_ram m2 = in_ram m" "in_ram m3 = in_ram m"
    by (auto simp: m1_def m2_def m3_def fun_eq_iff split: option.splits)
  have "guest_byte m1 x = (case req_outgoing req of
      None \<Rightarrow> overlay (req_data_address req) (request_sectors d req) (guest_byte m) | Some _ \<Rightarrow> guest_byte m) x"
    using poke_byte [OF m, of "req_data_address req" "request_sectors d req" x] r(1) x
    by (simp add: m1_def bytes split: option.splits)
  moreover have "guest_byte m2 x = overlay (req_status_address req) [VIRTIO_BLK_S_OK] (guest_byte m1) x"
    using poke_byte [OF wf(1), of "req_status_address req" "[VIRTIO_BLK_S_OK]" x] r(2) x by (simp add: m2_def dom)
  moreover have "guest_byte m3 x = overlay (req_used_element req) (used_bytes req (request_written req)) (guest_byte m2) x"
    using poke_byte [OF wf(2), of "req_used_element req" "used_bytes req (request_written req)" x] r(3) x
    by (simp add: m3_def dom used_bytes_def)
  moreover have "guest_byte (blk_served d req m) x
      = overlay (req_used_idx_address req) (to_le_bytes (blk_last_used_idx d + 1)) (guest_byte m3) x"
    using poke_byte [OF wf(3), of "req_used_idx_address req" "to_le_bytes (blk_last_used_idx d + 1)" x] r(4) x
    by (simp add: served dom)
  ultimately show ?thesis unfolding overlay_def by simp
qed

lemma blk_served_slices:
  assumes m: "memory_wf m" and d: "length (blk_backing d) = 2048"
    and req: "blk_request_ready d m req" and sep: "targets_apart req"
  shows "ram_slice (blk_served d req m) (unat (req_used_idx_address req)) 2
           = Some (to_le_bytes (blk_last_used_idx d + 1))"
    and "ram_slice (blk_served d req m) (unat (req_used_element req)) 8
           = Some (to_le_bytes (ucast (req_head req) :: u32) @ to_le_bytes (request_written req))"
    and "ram_slice (blk_served d req m) (unat (req_status_address req)) 1 = Some [VIRTIO_BLK_S_OK]"
    and "req_outgoing req = None \<Longrightarrow>
           ram_slice (blk_served d req m) (unat (req_data_address req)) (unat (req_data_length req))
           = Some (request_sectors d req)"
    and "(\<And>r. r \<in> set (request_targets req) \<Longrightarrow> apart r (b, n)) \<Longrightarrow>
           ram_slice (blk_served d req m) b n = ram_slice m b n"
proof -
  note targets = targets_apart_def request_targets_def answer_targets_def
  note r = blk_request_readyD [OF req]
  have bytes: "length (request_sectors d req) = unat (req_data_length req)"
    using r(5-7) d by (simp add: request_sectors_def)
  define m1 where "m1 = (case req_outgoing req of
      None \<Rightarrow> poke (req_data_address req) (request_sectors d req) m | Some _ \<Rightarrow> m)"
  define m2 where "m2 = poke (req_status_address req) [VIRTIO_BLK_S_OK] m1"
  define el where "el = to_le_bytes (ucast (req_head req) :: u32) @ to_le_bytes (request_written req)"
  define ix where "ix = to_le_bytes (blk_last_used_idx d + 1)"
  define m3 where "m3 = poke (req_used_element req) el m2"
  have served: "blk_served d req m = poke (req_used_idx_address req) ix m3"
    by (simp add: blk_served_def m1_def m2_def m3_def el_def ix_def)
  have len [simp]: "length el = 8" "length ix = 2" by (simp_all add: el_def ix_def)
  have wf: "memory_wf m1" "memory_wf m2" "memory_wf m3"
    using m by (simp_all add: m1_def m2_def m3_def split: option.splits)
  have dom: "in_ram m1 = in_ram m" "in_ram m2 = in_ram m" "in_ram m3 = in_ram m"
    by (auto simp: m1_def m2_def m3_def fun_eq_iff split: option.splits)
  have sym: "apart q p \<Longrightarrow> apart p q" for p q :: "nat \<times> nat" by (auto simp: apart_def)
  note p0 = poke_slices [OF m, of "req_data_address req" "request_sectors d req", unfolded bytes, OF r(1)]
  note p1 = poke_slices [OF wf(1), of "req_status_address req" "[VIRTIO_BLK_S_OK]", folded m2_def, simplified dom, simplified, OF r(2) [simplified]]
  note p2 = poke_slices [OF wf(2), of "req_used_element req" el, folded m3_def, unfolded dom len, OF r(3)]
  note p3 = poke_slices [OF wf(3), of "req_used_idx_address req" ix, folded served, unfolded dom len, OF r(4)]
  show "ram_slice (blk_served d req m) (unat (req_used_idx_address req)) 2
      = Some (to_le_bytes (blk_last_used_idx d + 1))"
    using p3(1) by (simp add: ix_def)
  show "ram_slice (blk_served d req m) (unat (req_used_element req)) 8
      = Some (to_le_bytes (ucast (req_head req) :: u32) @ to_le_bytes (request_written req))"
    using p3(2) p2(1) sep by (simp add: targets el_def)
  show "ram_slice (blk_served d req m) (unat (req_status_address req)) 1 = Some [VIRTIO_BLK_S_OK]"
    using p3(2) p2(2) p1(1) sep by (simp add: targets)
  show "ram_slice (blk_served d req m) (unat (req_data_address req)) (unat (req_data_length req))
      = Some (request_sectors d req)" if "req_outgoing req = None"
    using p3(2) p2(2) p1(2) p0(1) sep that by (simp add: targets m1_def)
  show "ram_slice (blk_served d req m) b n = ram_slice m b n"
    if "\<And>r. r \<in> set (request_targets req) \<Longrightarrow> apart r (b, n)"
  proof -
    have "ram_slice m1 b n = ram_slice m b n"
      using p0(2) that by (simp add: m1_def targets split: option.splits)
    then show ?thesis using p3(2) p2(2) p1(2) that by (simp add: targets)
  qed
qed

section \<open>Properties\<close>

lemma blk_with_backing_inv: "length backing = 2048 \<Longrightarrow> blk_inv (blk_with_backing bar backing path)"
  using blk_inv_new [of bar] by (simp add: blk_inv_def blk_with_backing_def)

text \<open>
  C1. No guest can make the virtio-blk model panic or leave its invariant: from any device with four
  sectors of backing, memory-only or file-backed, every sequence of register reads, register writes
  and queue notifications runs to the end under both processing functions, whatever the offsets,
  payloads and queue contents and whichever host file calls fail.
\<close>

theorem blk_guest_cannot_break_device:
  assumes "memory_wf m" and "length backing = 2048"
  shows "(\<exists>s. run_events blk_state_read blk_state_write (blk_process_notified_queue_atomic io) events
            (blk_with_backing bar backing path, m, files) = Ok s \<and> blk_inv (fst s) \<and> memory_wf (fst (snd s)))
       \<and> (\<exists>s. run_events blk_state_read blk_state_write blk_state_process events
            (blk_with_backing bar backing path, m, files) = Ok s \<and> blk_inv (fst s) \<and> memory_wf (fst (snd s)))"
  using blk.run_safe [of "(blk_with_backing bar backing path, m, files)" io events]
    blk_read_only.run_safe [of "(blk_with_backing bar backing path, m, files)" events]
    assms blk_with_backing_inv [of backing bar path]
  by (simp add: blk_state_inv_def)

theorem blk_guest_cannot_break_device_witness:
  "\<exists>s. run_events blk_state_read blk_state_write (blk_process_notified_queue_atomic example_io)
     [Register_Write 0x14 [1], Process_Queue, Register_Read 0x300 8]
     (blk_with_backing 0 deterministic_backing None, example_blk_ram 0 3, Map.empty) = Ok s
     \<and> blk_inv (fst s) \<and> memory_wf (fst (snd s))"
  using blk_guest_cannot_break_device [OF example_blk_ram_wf length_deterministic_backing,
      where io = example_io and bar = 0 and path = None and files = Map.empty
      and events = "[Register_Write 0x14 [1], Process_Queue, Register_Read 0x300 8]"]
  by blast

text \<open>
  C2. Atomic request processing is all or nothing: when it returns an error, the device (sectors,
  indices, notification, interrupt status) and all of guest RAM are unchanged.  The error is either
  that of the validation, and then the host files are unchanged too, or the error with which writing
  the backing file failed; only in the second case may the device's own backing file have changed,
  and then only by a prefix of the bytes of the request in the sectors of the request.
\<close>

theorem blk_atomic_all_or_nothing:
  assumes "memory_wf m" and "blk_inv d"
    and "blk_process_notified_queue_atomic io (d, m, files) = (Err e, (d', m', files'))"
  shows "d' = d \<and> m' = m
    \<and> (blk_validate_atomic d m = Err e \<and> files' = files
       \<or> (\<exists>path req bytes b. blk_persistent_backing d = Some path
            \<and> blk_validate_atomic d m = Ok req \<and> req_outgoing req = Some bytes
            \<and> persist_backing_range io d (req_range req) bytes files = (Err b, files') \<and> e = Blk_Backing b
            \<and> (files' = files \<or> (\<exists>content n. files path = Some content
                 \<and> files' = files(path \<mapsto> file_write_at content (512 * unat (req_sector req)) (take n bytes))))))"
  using assms(1,2)
proof (cases rule: blk_atomic_cases [of m d io files])
  case (invalid e')
  with assms(3) show ?thesis by auto
next
  case (unpersisted req bytes e' files'')
  have range: "fst (req_range req) = 512 * unat (req_sector req)"
    using unpersisted(2) by (simp add: blk_request_ready_def)
  obtain path where path: "blk_persistent_backing d = Some path"
    using unpersisted(4) persist_memory_only by (cases "blk_persistent_backing d") auto
  from path unpersisted(4) have "files'' = files \<or> (\<exists>content n. files path = Some content
      \<and> files'' = files(path \<mapsto> file_write_at content (512 * unat (req_sector req)) (take n bytes)))"
    by (cases rule: persist_Err) (use range in auto)
  with unpersisted assms(3) path show ?thesis by auto
next
  case (completed req files'')
  with assms(3) show ?thesis by auto
qed

theorem blk_atomic_all_or_nothing_witness:
  "\<exists>e. blk_process_notified_queue_atomic example_io (blk_new 0, example_blk_ram 0 3, Map.empty)
     = (Err e, (blk_new 0, example_blk_ram 0 3, Map.empty))"
proof -
  have "blk_process_notified_queue_atomic example_io (blk_new 0, example_blk_ram 0 3, Map.empty)
      = (Err (Blk_Device Blk_QueueNotReady), (blk_new 0, example_blk_ram 0 3, Map.empty))"
    by (simp add: blk_process_notified_queue_atomic_def blk_validate_atomic_def blk_next_head_def
        blk_ensure_queue_ready_def blk_new_def)
  with blk_atomic_all_or_nothing [OF example_blk_ram_wf blk_inv_new this] show ?thesis by blast
qed

text \<open>
  C3. After validation only the backing file can fail: atomic processing completes exactly when the
  request validates and, for a write to a file-backed device, the file exists and the host calls
  succeed.  In particular a memory-only device completes every validated request.
\<close>

theorem blk_atomic_completes_iff:
  assumes "memory_wf m" and "blk_inv d"
  shows "(\<exists>c s. blk_process_notified_queue_atomic io (d, m, files) = (Ok c, s)) \<longleftrightarrow>
    (\<exists>req. blk_validate_atomic d m = Ok req
       \<and> (\<forall>path. req_outgoing req \<noteq> None \<and> blk_persistent_backing d = Some path \<longrightarrow>
            files path \<noteq> None \<and> host_io_ok io path))"
  using assms
proof (cases rule: blk_atomic_cases [of m d io files])
  case (invalid e)
  then show ?thesis by simp
next
  case (unpersisted req bytes e files')
  obtain path where path: "blk_persistent_backing d = Some path"
    using unpersisted(4) persist_memory_only by (cases "blk_persistent_backing d") auto
  have range: "snd (req_range req) \<le> 2048" "snd (req_range req) - fst (req_range req) = length bytes"
    using unpersisted(2,3) ram_slice_length [of m _ _ bytes] by (auto simp: blk_request_ready_def)
  have "\<not> (files path \<noteq> None \<and> host_io_ok io path)"
    using persist_complete [OF path _ range, of files _ io] unpersisted(4) by auto
  with unpersisted path show ?thesis by auto
next
  case (completed req files')
  have "files path \<noteq> None \<and> host_io_ok io path"
    if "req_outgoing req \<noteq> None" "blk_persistent_backing d = Some path" for path
    using completed(3) that by (auto elim: persist_Ok)
  with completed show ?thesis by auto
qed

theorem blk_atomic_completes_iff_witness:
  "\<exists>c s. blk_process_notified_queue_atomic example_io
     (example_blk_dev, example_blk_ram 1 1, Map.empty) = (Ok c, s)"
  using blk_atomic_completes_iff [OF example_blk_ram_wf example_blk_inv, of example_io 1 1 Map.empty]
    example_blk_validate_write
  by (auto simp: example_blk_dev_def blk_new_def)

text \<open>
  C5. A completed read returns the sectors.  Every validated read request completes and leaves the
  sectors and files untouched, and every byte of guest RAM is afterwards that of the last write that
  covers it: the sectors in the data buffer, then the status byte, then the used element, then the
  used index, and the old byte elsewhere.  When the driver keeps these four ranges apart, each of
  them therefore holds its whole content.
\<close>

theorem blk_read_returns_sectors:
  assumes "memory_wf m" and "blk_inv d" and "blk_validate_atomic d m = Ok req"
    and "req_outgoing req = None"
  shows "\<exists>c d' m'. blk_process_notified_queue_atomic io (d, m, files) = (Ok c, (d', m', files))
    \<and> same_backing d d'
    \<and> (let sectors = take (unat (req_data_length req)) (drop (512 * unat (req_sector req)) (blk_backing d));
           used = used_bytes req (req_data_length req + 1); idx = to_le_bytes (blk_last_used_idx d + 1) in
        (\<forall>x. in_ram m x 1 \<longrightarrow> guest_byte m' x =
           overlay (req_used_idx_address req) idx (overlay (req_used_element req) used
            (overlay (req_status_address req) [VIRTIO_BLK_S_OK]
              (overlay (req_data_address req) sectors (guest_byte m)))) x)
        \<and> (targets_apart req \<longrightarrow>
            ram_slice m' (unat (req_data_address req)) (unat (req_data_length req)) = Some sectors
            \<and> ram_slice m' (unat (req_status_address req)) 1 = Some [VIRTIO_BLK_S_OK]
            \<and> ram_slice m' (unat (req_used_element req)) 8 = Some used
            \<and> ram_slice m' (unat (req_used_idx_address req)) 2 = Some idx))"
  using assms(1,2)
proof (cases rule: blk_atomic_cases [of m d io files])
  case (completed req' files')
  then have req: "req' = req" "files' = files" using assms(3,4) by auto
  have len: "length (blk_backing d) = 2048" using assms(2) by (simp add: blk_inv_def)
  note ready = completed(2) [unfolded req]
  note slices = blk_served_slices [OF assms(1) len ready]
  have sectors: "request_sectors d req
      = take (unat (req_data_length req)) (drop (512 * unat (req_sector req)) (blk_backing d))"
    using ready by (simp add: request_sectors_def subslice_def blk_request_ready_def)
  have "same_backing d (blk_dev_completed req d)"
    using assms(4) by (simp add: blk_dev_completed_def blk_dev_served_def same_backing_def)
  moreover have "request_written req = req_data_length req + 1"
    using assms(4) by (simp add: request_written_def)
  moreover note blk_served_byte [OF assms(1) len ready]
  ultimately show ?thesis
    using completed(4) slices assms(4) unfolding req Let_def sectors
    by (intro exI conjI) (auto simp: used_bytes_def)
qed (use assms in auto)

theorem blk_read_returns_sectors_witness:
  "\<exists>c d' m'. blk_process_notified_queue_atomic example_io
       (example_blk_dev, example_blk_ram 0 3, Map.empty) = (Ok c, (d', m', Map.empty))
     \<and> ram_slice m' 0x600 512 = Some (take 512 (drop 512 deterministic_backing))"
  using blk_read_returns_sectors [OF example_blk_ram_wf example_blk_inv example_blk_validate_read,
      of example_io Map.empty] example_targets_apart(1)
  by (auto simp: Let_def example_read_request_def example_blk_dev_def blk_new_def)

text \<open>
  C6. A completed write stores the guest's bytes: the requested sectors hold what the data buffer
  held before the call, every other sector byte is unchanged, and the file behind a file-backed
  device receives the same bytes.  Every byte of guest RAM is afterwards that of the last of the
  three answers that covers it (status OK, then a used element of length one, then the used index),
  and the old byte elsewhere; when the driver keeps the three ranges apart, each holds its whole
  answer.
\<close>

theorem blk_write_stores_sectors:
  assumes "memory_wf m" and "blk_inv d"
    and "blk_validate_atomic d m = Ok req" and "req_outgoing req = Some bytes"
    and "blk_process_notified_queue_atomic io (d, m, files) = (Ok c, (d', m', files'))"
  shows "ram_slice m (unat (req_data_address req)) (unat (req_data_length req)) = Some bytes
    \<and> take (unat (req_data_length req)) (drop (512 * unat (req_sector req)) (blk_backing d')) = bytes
    \<and> (\<forall>i<2048. (i < 512 * unat (req_sector req) \<or> 512 * unat (req_sector req) + length bytes \<le> i) \<longrightarrow>
         blk_backing d' ! i = blk_backing d ! i)
    \<and> length (blk_backing d') = 2048
    \<and> (blk_file_mirror d files \<longrightarrow> blk_file_mirror d' files')
    \<and> (\<forall>x. in_ram m x 1 \<longrightarrow> guest_byte m' x =
         overlay (req_used_idx_address req) (to_le_bytes (blk_last_used_idx d + 1))
          (overlay (req_used_element req) (used_bytes req 1)
            (overlay (req_status_address req) [VIRTIO_BLK_S_OK] (guest_byte m))) x)
    \<and> (targets_apart req \<longrightarrow> ram_slice m' (unat (req_status_address req)) 1 = Some [VIRTIO_BLK_S_OK]
         \<and> ram_slice m' (unat (req_used_element req)) 8 = Some (used_bytes req 1)
         \<and> ram_slice m' (unat (req_used_idx_address req)) 2 = Some (to_le_bytes (blk_last_used_idx d + 1)))"
  using assms(1,2)
proof (cases rule: blk_atomic_cases [of m d io files])
  case (completed req' files'')
  then have req: "req' = req" "files'' = files'" "d' = blk_dev_completed req d" "m' = blk_served d req m"
    using assms(3,5) by auto
  have len: "length (blk_backing d) = 2048" using assms(2) by (simp add: blk_inv_def)
  note ready = completed(2) [unfolded req]
  note slices = blk_served_slices [OF assms(1) len ready]
  have bytes: "ram_slice m (unat (req_data_address req)) (unat (req_data_length req)) = Some bytes"
    "length bytes = unat (req_data_length req)"
    using ready assms(4) ram_slice_length by (auto simp: blk_request_ready_def)
  have range: "fst (req_range req) = 512 * unat (req_sector req)"
    "512 * unat (req_sector req) + length bytes \<le> 2048"
    using ready bytes(2) by (simp_all add: blk_request_ready_def)
  have backing: "blk_backing d' = splice (blk_backing d) (512 * unat (req_sector req)) bytes"
    using assms(4) by (simp add: req blk_dev_completed_def blk_dev_served_def range)
  have stored: "take (unat (req_data_length req)) (drop (512 * unat (req_sector req)) (blk_backing d')) = bytes"
    using slice_splice_same [of "512 * unat (req_sector req)" bytes "blk_backing d"] range len bytes(2)
    by (simp add: backing subslice_def)
  have others: "blk_backing d' ! i = blk_backing d ! i"
    if "i < 2048" "i < 512 * unat (req_sector req) \<or> 512 * unat (req_sector req) + length bytes \<le> i" for i
    using that nth_splice [of "512 * unat (req_sector req)" bytes "blk_backing d" i] range len
    by (auto simp: backing)
  have mirror: "blk_file_mirror d' files'" if "blk_file_mirror d files"
  proof (unfold blk_file_mirror_def, intro allI impI)
    fix path assume "blk_persistent_backing d' = Some path"
    then have path: "blk_persistent_backing d = Some path"
      using assms(4) by (simp add: req blk_dev_completed_def blk_dev_served_def)
    have "persist_backing_range io d (req_range req) bytes files = (Ok (), files')"
      using completed(3) assms(4) by (simp add: req)
    from path this show "files' path = Some (blk_backing d')"
      by (rule persist_Ok)
        (use that path range len in \<open>auto simp: blk_file_mirror_def backing file_write_at_inside\<close>)
  qed
  have written: "request_written req = 1" using assms(4) by (simp add: request_written_def)
  show ?thesis
    using bytes stored others mirror slices(1-3) assms(4) range len blk_served_byte [OF assms(1) len ready]
    by (simp add: req(4) written backing used_bytes_def)
qed (use assms in auto)

theorem blk_write_stores_sectors_witness:
  "\<exists>c d' m' files'. blk_process_notified_queue_atomic example_io
       (example_blk_dev, example_blk_ram 1 1, Map.empty) = (Ok c, (d', m', files'))
     \<and> take 512 (drop 512 (blk_backing d')) = example_out_bytes"
proof -
  obtain c d' m' files' where run: "blk_process_notified_queue_atomic example_io
      (example_blk_dev, example_blk_ram 1 1, Map.empty) = (Ok c, (d', m', files'))"
    using example_blk_ram_wf example_blk_inv
    by (cases rule: blk_atomic_cases [of "example_blk_ram 1 1" example_blk_dev example_io Map.empty])
      (auto simp: example_blk_validate_write persist_memory_only example_blk_queue)
  have out: "req_outgoing example_write_request = Some example_out_bytes"
    by (simp add: example_write_request_def)
  from blk_write_stores_sectors [OF example_blk_ram_wf example_blk_inv example_blk_validate_write
      out run] run
  show ?thesis by (auto simp: example_write_request_def example_read_request_def)
qed

text \<open>
  C4. What is written is read back: after a completed write, a later validated read of the same
  sectors (over any guest RAM, after any operations that leave the sectors alone) completes, and its
  data buffer holds the bytes that the guest wrote, except where the guest itself placed the status
  byte or the used ring inside the buffer; when the targets of the read are apart, the buffer holds
  exactly the bytes written.
\<close>

theorem blk_write_then_read:
  assumes "memory_wf m" and "blk_inv d" and "blk_validate_atomic d m = Ok req"
    and "ram_slice m (unat (req_data_address req)) (unat (req_data_length req)) = Some bytes"
    and "req_outgoing req \<noteq> None"
    and "blk_process_notified_queue_atomic io (d, m, files) = (Ok c, (d1, m1, files1))"
    and "same_backing d1 d2" and "memory_wf m2" and "blk_inv d2"
    and "blk_validate_atomic d2 m2 = Ok req2" and "req_outgoing req2 = None"
    and "req_sector req2 = req_sector req" and "req_data_length req2 = req_data_length req"
  shows "\<exists>c2 d3 m3. blk_process_notified_queue_atomic io (d2, m2, files1) = (Ok c2, (d3, m3, files1))
    \<and> (\<forall>i < unat (req_data_length req). (\<forall>r \<in> set (answer_targets req2). \<not> covers r (unat (req_data_address req2) + i))
         \<longrightarrow> guest_byte m3 (unat (req_data_address req2) + i) = bytes ! i)
    \<and> (targets_apart req2 \<longrightarrow>
         ram_slice m3 (unat (req_data_address req2)) (unat (req_data_length req)) = Some bytes)"
proof -
  have ready: "blk_request_ready d m req" "blk_request_ready d2 m2 req2"
    using blk_validate_atomic_ready assms by blast+
  then have out: "req_outgoing req = Some bytes" and range: "req_range req2 = req_range req"
    using assms(4,5,12,13) by (auto simp: blk_request_ready_def split: option.splits)
  have len: "length (blk_backing d) = 2048" "length (blk_backing d2) = 2048"
    using assms by (simp_all add: blk_inv_def)
  have "blk_backing d1 = splice (blk_backing d) (fst (req_range req)) bytes"
    using assms(1,2)
    by (cases rule: blk_atomic_cases [of m d io files])
      (use assms(3,6) out in \<open>auto simp: blk_dev_completed_def blk_dev_served_def\<close>)
  moreover have "length bytes = snd (req_range req) - fst (req_range req)"
    "snd (req_range req) \<le> 2048" "fst (req_range req) \<le> snd (req_range req)"
    using assms(4) ready ram_slice_length by (auto simp: blk_request_ready_def)
  ultimately have sectors: "request_sectors d2 req2 = bytes"
    using slice_splice_same [of "fst (req_range req)" bytes "blk_backing d"] len(1) assms(7)
    by (simp add: request_sectors_def range same_backing_def)
  have buffer: "in_ram m2 (unat (req_data_address req2) + i) 1" if "i < unat (req_data_length req)" for i
    using blk_request_readyD(1) [OF ready(2)] that assms(13) by (auto simp: in_ram_def)
  have "guest_byte (blk_served d2 req2 m2) (unat (req_data_address req2) + i) = bytes ! i"
    if "i < unat (req_data_length req)" "\<forall>r \<in> set (answer_targets req2). \<not> covers r (unat (req_data_address req2) + i)" for i
  proof -
    let ?x = "unat (req_data_address req2) + i"
    have "\<not> covers (unat (req_used_idx_address req2), 2) ?x" "\<not> covers (unat (req_used_element req2), 8) ?x"
      "\<not> covers (unat (req_status_address req2), Suc 0) ?x"
      using that(2) by (simp_all add: answer_targets_def)
    moreover have "covers (unat (req_data_address req2), length bytes) ?x"
      using that(1) ram_slice_length [OF assms(4)] by (simp add: covers_def)
    ultimately show ?thesis
      using blk_served_byte [OF assms(8) len(2) ready(2) buffer [OF that(1)]] assms(11)
      by (simp add: overlay_in overlay_out sectors)
  qed
  with assms(8,9) show ?thesis
    by (cases rule: blk_atomic_cases [of m2 d2 io files1])
      (use assms(10-13) blk_served_slices(4) [OF assms(8) len(2) ready(2)] sectors in auto)
qed

theorem blk_write_then_read_witness:
  "\<exists>d1 m1 c2 d3 m3. blk_process_notified_queue_atomic example_io
       (example_blk_dev\<lparr>blk_backing := blk_backing d1\<rparr>, example_blk_ram 0 3, Map.empty)
       = (Ok c2, (d3, m3, Map.empty))
     \<and> (\<exists>c. blk_process_notified_queue_atomic example_io
          (example_blk_dev, example_blk_ram 1 1, Map.empty) = (Ok c, (d1, m1, Map.empty)))
     \<and> ram_slice m3 0x600 512 = Some example_out_bytes"
proof -
  obtain c d1 m1 where run: "blk_process_notified_queue_atomic example_io
      (example_blk_dev, example_blk_ram 1 1, Map.empty) = (Ok c, (d1, m1, Map.empty))"
    using example_blk_ram_wf example_blk_inv
    by (cases rule: blk_atomic_cases [of "example_blk_ram 1 1" example_blk_dev example_io Map.empty])
      (auto simp: example_blk_validate_write example_write_request_def persist_memory_only example_blk_queue)
  let ?d2 = "example_blk_dev\<lparr>blk_backing := blk_backing d1\<rparr>"
  have inv1: "blk_inv d1"
    using blk_atomic_safe [OF example_blk_ram_wf example_blk_inv run] by simp
  then have inv2: "blk_inv ?d2" using example_blk_inv by (simp add: blk_inv_def)
  have same: "same_backing d1 ?d2"
    using example_blk_ram_wf example_blk_inv
    by (cases rule: blk_atomic_cases [of "example_blk_ram 1 1" example_blk_dev example_io Map.empty])
      (use run in \<open>auto simp: same_backing_def blk_dev_completed_def blk_dev_served_def example_blk_queue
         split: option.splits\<close>)
  have val2: "blk_validate_atomic ?d2 (example_blk_ram 0 3) = Ok example_read_request"
    by (simp add: blk_validate_atomic_updates example_blk_validate_read)
  have out: "ram_slice (example_blk_ram 1 1) 0x600 512 = Some example_out_bytes"
    using example_blk_out_read by (simp add: mem_read_slice [OF example_blk_ram_wf])
  have "\<exists>c2 d3 m3. blk_process_notified_queue_atomic example_io (?d2, example_blk_ram 0 3, Map.empty)
        = (Ok c2, (d3, m3, Map.empty)) \<and> ram_slice m3 0x600 512 = Some example_out_bytes"
    using blk_write_then_read [OF example_blk_ram_wf example_blk_inv example_blk_validate_write _ _ run
        same example_blk_ram_wf inv2 val2, of example_out_bytes] out example_targets_apart(1)
    by (auto simp add: example_read_request_def example_write_request_def)
  with run show ?thesis by blast
qed



text \<open>
  C8. The read-only processing and the atomic processing are equivalent on reads: for every device,
  guest RAM and host, the first completes with some completion, device and RAM exactly when the
  second completes with the same ones for a read request (a completion length other than one).
\<close>

theorem blk_read_paths_agree:
  assumes "memory_wf m" and "blk_inv d"
  shows "blk_process_notified_queue (d, m) = (Ok c, (d', m')) \<longleftrightarrow>
    blk_process_notified_queue_atomic io (d, m, files) = (Ok c, (d', m', files))
    \<and> blk_completion_length c \<noteq> 1"
proof -
  have long: "request_written req \<noteq> 1" if "blk_request_ready d m req" "req_outgoing req = None" for req
    using that by (auto simp: request_written_def blk_request_ready_def unat_gt_0)
  let ?done = "\<lambda>req. c = \<lparr>blk_descriptor_id = ucast (req_head req),
      blk_completion_length = request_written req, blk_completion_sector = req_sector req\<rparr>
      \<and> d' = blk_dev_completed req d \<and> m' = blk_served d req m"
  have fields: "req_head (with_used_element d req) = req_head req"
    "request_written (with_used_element d req) = request_written req"
    "req_sector (with_used_element d req) = req_sector req"
    "req_outgoing (with_used_element d req) = req_outgoing req" for req
    by (simp_all add: with_used_element_def request_written_def split: option.split)
  have served: "blk_dev_completed (with_used_element d req) d
      = blk_dev_served (req_avail req) (blk_last_used_idx d + 1) d" "req_outgoing req = None"
    if "blk_validate_read d m = Ok req" for req
  proof -
    from that show "req_outgoing req = None"
      by (auto simp: blk_validate_read_def Let_def outcome_simps if_Err_Ok split: prod.splits)
    with blk_validate_read_range [OF that] show "blk_dev_completed (with_used_element d req) d
      = blk_dev_served (req_avail req) (blk_last_used_idx d + 1) d"
      by (simp add: blk_dev_completed_def fields)
  qed
  have "blk_process_notified_queue (d, m) = (Ok c, (d', m')) \<longleftrightarrow>
      (\<exists>req. (blk_validate_atomic d m = Ok req \<and> req_outgoing req = None) \<and> ?done req)"
    unfolding blk_process_read_iff [OF assms] validate_atomic_read_iff [OF assms]
    using served fields by auto
  also have "\<dots> \<longleftrightarrow> blk_process_notified_queue_atomic io (d, m, files) = (Ok c, (d', m', files))
      \<and> blk_completion_length c \<noteq> 1"
    using assms
  proof (cases rule: blk_atomic_cases [of m d io files])
    case (completed req files')
    then show ?thesis
      using long [OF completed(2)] by (auto simp: request_written_def split: option.splits)
  qed auto
  finally show ?thesis .
qed

theorem blk_read_paths_agree_witness:
  "\<exists>c d' m'. blk_process_notified_queue (example_blk_dev, example_blk_ram 0 3) = (Ok c, (d', m'))"
proof -
  obtain c d' m' where run: "blk_process_notified_queue_atomic example_io
      (example_blk_dev, example_blk_ram 0 3, Map.empty) = (Ok c, (d', m', Map.empty))"
    "blk_completion_length c = 513"
    using example_blk_ram_wf example_blk_inv
    by (cases rule: blk_atomic_cases [of "example_blk_ram 0 3" example_blk_dev example_io Map.empty])
      (auto simp: example_blk_validate_read example_read_request_def request_written_def)
  with blk_read_paths_agree [OF example_blk_ram_wf example_blk_inv,
      of 0 3 c d' m' example_io Map.empty]
  show ?thesis by auto
qed

text \<open>
  C9. Chain resolution implements its specification: it returns a chain exactly when the head is the
  first of three different in-range descriptors of the queue's table (a header that is readable and
  holds at least 16 bytes, the data, and a device-writable status), or a negotiated indirect
  descriptor whose table of 3 to 65536 entries holds such a chain from its first entry with no
  nested indirection.
\<close>

theorem resolve_request_chain_iff:
  assumes "memory_wf m"
  shows "resolve_request_chain d m head = Ok chain \<longleftrightarrow>
    (chain_in_table m (blk_queue_desc d) (unat (blk_queue_size d)) head chain
     \<or> indirect_chain d m head chain)"
proof (cases "blk_read_descriptor d m head")
  case (Ok outer)
  then have at: "descriptor_at m (blk_queue_desc d) head outer"
    by (simp add: blk_read_descriptor_iff [OF assms])
  show ?thesis
  proof (cases "desc_flags outer AND VIRTQ_DESC_F_INDIRECT = 0")
    case True
    then have "\<not> indirect_chain d m head chain"
      by (auto simp: indirect_chain_def descriptor_at_unique [OF at])
    moreover have "chain_in_table m (blk_queue_desc d) (unat (blk_queue_size d)) head chain
        \<Longrightarrow> chain_header chain = outer"
      by (simp add: chain_in_table_def descriptor_at_unique [OF at])
    ultimately show ?thesis
      using True Ok by (auto simp: resolve_request_chain_def resolve_direct_iff [OF assms at])
  next
    case False
    then have "\<not> chain_in_table m (blk_queue_desc d) (unat (blk_queue_size d)) head chain"
      by (auto simp: chain_in_table_def descriptor_at_unique [OF at])
    with False Ok show ?thesis
      by (simp add: resolve_request_chain_def resolve_indirect_iff [OF assms at])
  qed
next
  case (Err e)
  then have "\<not> descriptor_at m (blk_queue_desc d) head x" for x
    using blk_read_descriptor_iff [OF assms, of d head x] by simp
  with Err show ?thesis
    by (auto simp: resolve_request_chain_def chain_in_table_def indirect_chain_def)
next
  case (Fault p)
  then show ?thesis using blk_reads_safe(2) [OF assms, of d head] by simp
qed

theorem resolve_request_chain_iff_witness:
  "\<exists>chain. chain_in_table (example_blk_ram 0 3) 0x100 4 0 chain"
proof -
  obtain chain where "resolve_request_chain example_blk_dev (example_blk_ram 0 3) 0 = Ok chain"
    using example_blk_validate_read by (auto simp: blk_validate_atomic_def example_blk_next_head outcome_simps)
  then have "chain_in_table (example_blk_ram 0 3) 0x100 4 0 chain
      \<or> indirect_chain example_blk_dev (example_blk_ram 0 3) 0 chain"
    using resolve_request_chain_iff [OF example_blk_ram_wf, of example_blk_dev 0 3 0 chain]
    by (simp add: example_blk_dev_def blk_new_def)
  then show ?thesis by (auto simp: indirect_chain_def example_blk_dev_def blk_new_def)
qed

text \<open>
  C10. A request's sectors are on the disk: the backing range of a request exists exactly when the
  length is a non-zero multiple of the sector size and the range ends within the four sectors; it
  is then the byte range of the request, and the computation never overflows or panics.
\<close>

theorem blk_backing_range_exact:
  "(blk_request_backing_range sector len = Ok (a, b) \<longleftrightarrow>
     0 < unat len \<and> unat len mod VIRTIO_BLK_SECTOR_SIZE = 0
     \<and> a = VIRTIO_BLK_SECTOR_SIZE * unat sector \<and> b = a + unat len \<and> b \<le> VIRTIO_BLK_BACKING_SIZE)
   \<and> \<not> is_fault (blk_request_backing_range sector len)"
  by (auto simp: blk_request_backing_range_iff)

end
