(* ===== verification/Mmio_Bus.thy ===== *)
theory Mmio_Bus
  imports Vcpu_Exits Virtio_Rng Virtio_Blk_Correct
begin

text \<open>
  The MMIO bus (\<open>src/src/mmio.rs\<close>) with its byte devices and virtio devices, and the interrupt routes
  of the legacy PIC (\<open>src/src/mmio/routing.rs\<close>).

  The main results: registered ranges stay disjoint, so an access reaches at most one device and
  leaves every other device as it was; no access, poll or queue notification makes the bus panic or
  breaks a device invariant; and a level-triggered device drives its line up and down alternately.
\<close>

section \<open>Data\<close>

abbreviation LEVEL_INTERRUPT_STATUS_OFFSET :: u64 where "LEVEL_INTERRUPT_STATUS_OFFSET \<equiv> 1"
abbreviation LEVEL_INTERRUPT_ACK_OFFSET :: u64 where "LEVEL_INTERRUPT_ACK_OFFSET \<equiv> 2"
abbreviation LEVEL_INTERRUPT_ACK_VALUE :: u8 where "LEVEL_INTERRUPT_ACK_VALUE \<equiv> 1"
abbreviation VIRTIO_RNG_BAR_SIZE :: u32 where "VIRTIO_RNG_BAR_SIZE \<equiv> 0x1000"
abbreviation BYTE_DEVICE_ADDRESS :: u64 where "BYTE_DEVICE_ADDRESS \<equiv> 0x2000"

datatype (plugins only: code) mmio_service = Service_Write | Service_Read "u8 list"

datatype (plugins only: code) mmio_event =
    InterruptRequested
  | InterruptLineAssertRequested
  | InterruptLineDeassertRequested
  | VirtioQueueNotified u16

record mmio_event_record =
  event_device_address :: u64
  event_of :: mmio_event

datatype (plugins only: code) registration_error =
    AddressRangeOverflow u64 u64
  | AddressRangeOverlap u64 u64 u64 u64

datatype (plugins only: code) byte_mode = Plain | EdgeInterrupt | LevelInterrupt

record byte_device =
  byte_address :: u64
  byte_writes :: "u8 list"
  byte_read_value :: u8
  byte_device_mode :: byte_mode
  edge_interrupt_pending :: bool
  level_interrupt_pending :: bool
  level_line_asserted :: bool

record mmio_bus =
  byte_devices :: "byte_device list"
  rng_devices :: "rng_dev list"
  blk_devices :: "blk_dev list"
  virtio_events :: "mmio_event_record list"

section \<open>Byte devices\<close>

definition byte_device_new :: "u64 \<Rightarrow> u8 \<Rightarrow> byte_mode \<Rightarrow> byte_device" where
  "byte_device_new address read_value mode =
     \<lparr>byte_address = address, byte_writes = [], byte_read_value = read_value, byte_device_mode = mode,
      edge_interrupt_pending = False, level_interrupt_pending = False, level_line_asserted = False\<rparr>"

definition byte_address_range :: "byte_device \<Rightarrow> u64 \<times> u64" where
  "byte_address_range d =
     (byte_address d,
      case byte_device_mode d of
        Plain \<Rightarrow> 1 | EdgeInterrupt \<Rightarrow> 1 | LevelInterrupt \<Rightarrow> LEVEL_INTERRUPT_ACK_OFFSET + 1)"

text \<open>\<open>(base..base + size).contains(address)\<close>, false when the end of the range overflows.\<close>

definition range_contains :: "u64 \<times> u64 \<Rightarrow> u64 \<Rightarrow> bool" where
  "range_contains r address =
     (case checked_add (fst r) (snd r) of None \<Rightarrow> False | Some end \<Rightarrow> fst r \<le> address \<and> address < end)"

definition byte_handles :: "byte_device \<Rightarrow> u64 \<Rightarrow> bool" where
  "byte_handles d address = range_contains (byte_address_range d) address"

definition unsupported_access :: "mmio_exit \<Rightarrow> mmio_error" where
  "unsupported_access x =
     UnsupportedByteDeviceAccess (mx_address x) (mmio_direction_raw (mx_direction x)) (mx_length x)"

definition exact_write_byte :: "mmio_exit \<Rightarrow> (u8, mmio_error) outcome" where
  "exact_write_byte x =
     (if length (mx_write_data x) \<noteq> 1
      then Err (InvalidWritePayload (mx_address x) 1 (length (mx_write_data x)))
      else case mx_write_data x of b # _ \<Rightarrow> Ok b | [] \<Rightarrow> Fault Index_Out_Of_Range)"

definition byte_handle_plain :: "mmio_exit \<Rightarrow> bool \<Rightarrow> (byte_device, mmio_service, mmio_error) op" where
  "byte_handle_plain x interrupt_on_write d =
     (case mx_direction x of
        Mmio_Write \<Rightarrow> commit d (and_then (exact_write_byte x) (\<lambda>v.
          let d' = d\<lparr>byte_writes := byte_writes d @ [v]\<rparr> in
          Ok (Service_Write, if interrupt_on_write then d'\<lparr>edge_interrupt_pending := True\<rparr> else d')))
      | Mmio_Read \<Rightarrow> (Ok (Service_Read [byte_read_value d]), d))"

definition byte_handle_level :: "mmio_exit \<Rightarrow> (byte_device, mmio_service, mmio_error) op" where
  "byte_handle_level x d = commit d
     (and_then (sub_ov (mx_address x) (byte_address d)) (\<lambda>offset.
      if offset = 0 \<and> mx_direction x = Mmio_Write then
        and_then (exact_write_byte x) (\<lambda>v.
        Ok (Service_Write, d\<lparr>byte_writes := byte_writes d @ [v], level_interrupt_pending := True\<rparr>))
      else if offset = LEVEL_INTERRUPT_STATUS_OFFSET \<and> mx_direction x = Mmio_Read then
        Ok (Service_Read [if level_interrupt_pending d then 1 else 0], d)
      else if offset = LEVEL_INTERRUPT_ACK_OFFSET \<and> mx_direction x = Mmio_Write then
        and_then (exact_write_byte x) (\<lambda>v.
        if v \<noteq> LEVEL_INTERRUPT_ACK_VALUE then Err (unsupported_access x)
        else Ok (Service_Write, d\<lparr>byte_writes := byte_writes d @ [v], level_interrupt_pending := False\<rparr>))
      else Err (unsupported_access x)))"

definition byte_handle :: "mmio_exit \<Rightarrow> (byte_device, mmio_service, mmio_error) op" where
  "byte_handle x d =
     (if mx_length x \<noteq> 1 then (Err (unsupported_access x), d)
      else case byte_device_mode d of
        Plain \<Rightarrow> byte_handle_plain x False d
      | EdgeInterrupt \<Rightarrow> byte_handle_plain x True d
      | LevelInterrupt \<Rightarrow> byte_handle_level x d)"

definition byte_take_event :: "byte_device \<Rightarrow> mmio_event option \<times> byte_device" where
  "byte_take_event d =
     (case byte_device_mode d of
        Plain \<Rightarrow> (None, d)
      | EdgeInterrupt \<Rightarrow>
          if edge_interrupt_pending d
          then (Some InterruptRequested, d\<lparr>edge_interrupt_pending := False\<rparr>) else (None, d)
      | LevelInterrupt \<Rightarrow>
          if level_interrupt_pending d \<and> \<not> level_line_asserted d
          then (Some InterruptLineAssertRequested, d\<lparr>level_line_asserted := True\<rparr>)
          else if \<not> level_interrupt_pending d \<and> level_line_asserted d
          then (Some InterruptLineDeassertRequested, d\<lparr>level_line_asserted := False\<rparr>)
          else (None, d))"

section \<open>Constructors and registration\<close>

definition bus_empty :: mmio_bus where
  "bus_empty = \<lparr>byte_devices = [], rng_devices = [], blk_devices = [], virtio_events = []\<rparr>"

definition bus_with_byte_device_at :: "u64 \<Rightarrow> u8 \<Rightarrow> mmio_bus" where
  "bus_with_byte_device_at address v = bus_empty\<lparr>byte_devices := [byte_device_new address v Plain]\<rparr>"

definition bus_with_byte_device :: "u8 \<Rightarrow> mmio_bus" where
  "bus_with_byte_device v = bus_with_byte_device_at BYTE_DEVICE_ADDRESS v"

definition bus_with_interrupting_byte_device_at :: "u64 \<Rightarrow> u8 \<Rightarrow> mmio_bus" where
  "bus_with_interrupting_byte_device_at address v =
     bus_empty\<lparr>byte_devices := [byte_device_new address v EdgeInterrupt]\<rparr>"

definition bus_with_level_interrupt_byte_device_at :: "u64 \<Rightarrow> mmio_bus" where
  "bus_with_level_interrupt_byte_device_at address =
     bus_empty\<lparr>byte_devices := [byte_device_new address 0 LevelInterrupt]\<rparr>"

definition rng_range :: "rng_dev \<Rightarrow> u64 \<times> u64" where
  "rng_range d = (rng_bar0 d, ucast VIRTIO_RNG_BAR_SIZE)"

definition blk_range :: "blk_dev \<Rightarrow> u64 \<times> u64" where
  "blk_range d = (blk_bar0 d, ucast VIRTIO_BLK_BAR_SIZE)"

definition registered_ranges :: "mmio_bus \<Rightarrow> (u64 \<times> u64) list" where
  "registered_ranges bus =
     map byte_address_range (byte_devices bus) @ map rng_range (rng_devices bus)
     @ map blk_range (blk_devices bus)"

fun ensure_no_overlap :: "u64 \<Rightarrow> u64 \<Rightarrow> u64 \<Rightarrow> (u64 \<times> u64) list \<Rightarrow> (unit, registration_error) outcome" where
  "ensure_no_overlap address len end [] = Ok ()"
| "ensure_no_overlap address len end ((existing_address, existing_size) # rs) =
     and_then (ok_or (checked_add existing_address existing_size)
       (AddressRangeOverflow existing_address existing_size)) (\<lambda>existing_end.
     if address < existing_end \<and> existing_address < end
     then Err (AddressRangeOverlap address len existing_address existing_size)
     else ensure_no_overlap address len end rs)"

definition ensure_range_available :: "mmio_bus \<Rightarrow> u64 \<Rightarrow> u64 \<Rightarrow> (unit, registration_error) outcome" where
  "ensure_range_available bus address len =
     and_then (ok_or (checked_add address len) (AddressRangeOverflow address len)) (\<lambda>end.
     ensure_no_overlap address len end (registered_ranges bus))"

definition register_device :: "byte_device \<Rightarrow> (mmio_bus, unit, registration_error) op" where
  "register_device d bus = commit bus
     (and_then (ensure_range_available bus (fst (byte_address_range d)) (snd (byte_address_range d))) (\<lambda>_.
      Ok ((), bus\<lparr>byte_devices := byte_devices bus @ [d]\<rparr>)))"

definition register_byte_device_at :: "u64 \<Rightarrow> u8 \<Rightarrow> (mmio_bus, unit, registration_error) op" where
  "register_byte_device_at address v = register_device (byte_device_new address v Plain)"

definition register_level_interrupt_byte_device_at :: "u64 \<Rightarrow> (mmio_bus, unit, registration_error) op" where
  "register_level_interrupt_byte_device_at address = register_device (byte_device_new address 0 LevelInterrupt)"

definition register_virtio_rng_device_at :: "u64 \<Rightarrow> (mmio_bus, unit, registration_error) op" where
  "register_virtio_rng_device_at address bus = commit bus
     (and_then (ensure_range_available bus address (ucast VIRTIO_RNG_BAR_SIZE)) (\<lambda>_.
      Ok ((), bus\<lparr>rng_devices := rng_devices bus @ [rng_new address]\<rparr>)))"

definition register_virtio_blk_device_at :: "u64 \<Rightarrow> (mmio_bus, unit, registration_error) op" where
  "register_virtio_blk_device_at address bus = commit bus
     (and_then (ensure_range_available bus address (ucast VIRTIO_BLK_BAR_SIZE)) (\<lambda>_.
      Ok ((), bus\<lparr>blk_devices := blk_devices bus @ [blk_new address]\<rparr>)))"

section \<open>Dispatch\<close>

definition rng_mmio_error :: "rng_error \<Rightarrow> vm_error" where
  "rng_mmio_error e = HostEnvironment (Host_Io ''service virtio-rng MMIO device model''
     (Custom InvalidData (Rng_Source e)))"

definition blk_mmio_error :: "blk_error \<Rightarrow> vm_error" where
  "blk_mmio_error e = HostEnvironment (Host_Io ''service virtio-blk MMIO device model''
     (Custom InvalidData (Blk_Source e)))"

definition virtio_rng_handles :: "rng_dev \<Rightarrow> u64 \<Rightarrow> bool" where
  "virtio_rng_handles d address = range_contains (rng_range d) address"

definition virtio_blk_handles :: "blk_dev \<Rightarrow> u64 \<Rightarrow> bool" where
  "virtio_blk_handles d address = range_contains (blk_range d) address"

fun rng_event_to_mmio :: "rng_event \<Rightarrow> mmio_event" where
  "rng_event_to_mmio (Rng_QueueNotified queue) = VirtioQueueNotified queue"

fun blk_event_to_mmio :: "blk_event \<Rightarrow> mmio_event" where
  "blk_event_to_mmio (Blk_QueueNotified queue) = VirtioQueueNotified queue"

text \<open>
  The two dispatch functions of the source have the same body; \<open>dispatch_device\<close> is that body over the
  register accesses, the BAR and the conversions of one device model.
\<close>

definition dispatch_device ::
  "(u64 \<Rightarrow> usize \<Rightarrow> ('d, u8 list, 'e) op) \<Rightarrow> (u64 \<Rightarrow> u8 list \<Rightarrow> ('d, 'v option, 'e) op) \<Rightarrow> ('d \<Rightarrow> u64)
     \<Rightarrow> ('e \<Rightarrow> vm_error) \<Rightarrow> ('v \<Rightarrow> mmio_event)
     \<Rightarrow> mmio_exit \<Rightarrow> ('d, mmio_service \<times> mmio_event option, vm_error) op" where
  "dispatch_device rd wr bar error_of event_to x d =
     op_then (op_lift (sub_ov (mx_address x) (bar d))) (\<lambda>offset.
     op_then (op_lift (expect (usize_try_from_u64 (ucast (mx_length x))))) (\<lambda>len.
     case mx_direction x of
       Mmio_Read \<Rightarrow> op_map_err error_of (op_then (rd offset len) (\<lambda>bytes.
         op_return (Service_Read bytes, None)))
     | Mmio_Write \<Rightarrow> op_map_err error_of (op_then (wr offset (mx_write_data x)) (\<lambda>event.
         op_return (Service_Write, map_option event_to event))))) d"

definition dispatch_virtio_rng :: "mmio_exit \<Rightarrow> (rng_dev, mmio_service \<times> mmio_event option, vm_error) op" where
  "dispatch_virtio_rng = dispatch_device rng_read rng_write rng_bar0 rng_mmio_error rng_event_to_mmio"

definition dispatch_virtio_blk :: "mmio_exit \<Rightarrow> (blk_dev, mmio_service \<times> mmio_event option, vm_error) op" where
  "dispatch_virtio_blk = dispatch_device blk_read blk_write blk_bar0 blk_mmio_error blk_event_to_mmio"

text \<open>
  \<open>with_first\<close> is \<open>iter_mut().find(p)\<close> followed by a call of a method on the device found: its
  outcome and the vector with that device updated, or nothing when no device matches.
\<close>

definition with_first ::
  "('d \<Rightarrow> bool) \<Rightarrow> ('d, 'a, 'e) op \<Rightarrow> 'd list \<Rightarrow> (('a, 'e) outcome \<times> 'd list) option" where
  "with_first p f ds =
     (case position p ds of
        None \<Rightarrow> None
      | Some i \<Rightarrow> (case f (ds ! i) of (r, d) \<Rightarrow> Some (r, ds[i := d])))"

definition push_event :: "u64 \<Rightarrow> mmio_event option \<Rightarrow> mmio_bus \<Rightarrow> mmio_bus" where
  "push_event address event bus =
     (case event of None \<Rightarrow> bus
      | Some e \<Rightarrow> bus\<lparr>virtio_events := virtio_events bus @ [\<lparr>event_device_address = address, event_of = e\<rparr>]\<rparr>)"

text \<open>The address that an event record carries is the BAR of the device after the call.\<close>

definition bar_after :: "('d \<Rightarrow> u64) \<Rightarrow> ('d \<Rightarrow> bool) \<Rightarrow> 'd list \<Rightarrow> 'd list \<Rightarrow> u64" where
  "bar_after bar p ds ds' = (case position p ds of None \<Rightarrow> 0 | Some i \<Rightarrow> bar (ds' ! i))"

fun finish_virtio ::
  "(mmio_service \<times> mmio_event option, vm_error) outcome \<Rightarrow> u64 \<Rightarrow> mmio_bus
     \<Rightarrow> (mmio_service, vm_error) outcome \<times> mmio_bus" where
  "finish_virtio (Ok (service, event)) address bus = (Ok service, push_event address event bus)"
| "finish_virtio (Err e) address bus = (Err e, bus)"
| "finish_virtio (Fault p) address bus = (Fault p, bus)"

definition mmio_dispatch :: "mmio_exit \<Rightarrow> (mmio_bus, mmio_service, vm_error) op" where
  "mmio_dispatch x bus =
     (case with_first (\<lambda>d. byte_handles d (mx_address x)) (byte_handle x) (byte_devices bus) of
        Some (r, ds) \<Rightarrow> (map_err Mmio r, bus\<lparr>byte_devices := ds\<rparr>)
      | None \<Rightarrow>
     case with_first (\<lambda>d. virtio_rng_handles d (mx_address x)) (dispatch_virtio_rng x) (rng_devices bus) of
        Some (r, ds) \<Rightarrow>
          finish_virtio r (bar_after rng_bar0 (\<lambda>d. virtio_rng_handles d (mx_address x)) (rng_devices bus) ds)
            (bus\<lparr>rng_devices := ds\<rparr>)
      | None \<Rightarrow>
     case with_first (\<lambda>d. virtio_blk_handles d (mx_address x)) (dispatch_virtio_blk x) (blk_devices bus) of
        Some (r, ds) \<Rightarrow>
          finish_virtio r (bar_after blk_bar0 (\<lambda>d. virtio_blk_handles d (mx_address x)) (blk_devices bus) ds)
            (bus\<lparr>blk_devices := ds\<rparr>)
      | None \<Rightarrow> (Err (Mmio (UnhandledAddress (mx_address x) (mmio_direction_raw (mx_direction x))
          (mx_length x))), bus))"

section \<open>Events and queue processing\<close>

fun take_byte_event :: "byte_device list \<Rightarrow> mmio_event_record option \<times> byte_device list" where
  "take_byte_event [] = (None, [])"
| "take_byte_event (d # ds) =
     (case byte_take_event d of
        (Some e, d') \<Rightarrow> (Some \<lparr>event_device_address = byte_address d, event_of = e\<rparr>, d' # ds)
      | (None, d') \<Rightarrow> (case take_byte_event ds of (e, ds') \<Rightarrow> (e, d' # ds')))"

definition take_device_event_record :: "mmio_bus \<Rightarrow> mmio_event_record option \<times> mmio_bus" where
  "take_device_event_record bus =
     (case take_byte_event (byte_devices bus) of
        (Some e, ds) \<Rightarrow> (Some e, bus\<lparr>byte_devices := ds\<rparr>)
      | (None, ds) \<Rightarrow>
          (case virtio_events bus of
             [] \<Rightarrow> (None, bus\<lparr>byte_devices := ds\<rparr>)
           | e # es \<Rightarrow> (Some e, bus\<lparr>byte_devices := ds, virtio_events := es\<rparr>)))"

definition take_device_event :: "mmio_bus \<Rightarrow> mmio_event option \<times> mmio_bus" where
  "take_device_event bus = (case take_device_event_record bus of (e, bus') \<Rightarrow> (map_option event_of e, bus'))"

text \<open>A queue processor of one device, with the memory (and files) it works on, on the device at a BAR.\<close>

definition process_at ::
  "('d \<Rightarrow> u64) \<Rightarrow> ('d \<times> 'm, 'c, 'e) op \<Rightarrow> u64 \<Rightarrow> ('d list \<times> 'm, 'c option, 'e) op" where
  "process_at bar f address s =
     (case s of (ds, m) \<Rightarrow>
      case position (\<lambda>d. bar d = address) ds of
        None \<Rightarrow> (Ok None, (ds, m))
      | Some i \<Rightarrow> (case f (ds ! i, m) of (r, (d, m')) \<Rightarrow> (map_ok Some r, (ds[i := d], m'))))"

definition process_virtio_rng_notification ::
  "u64 \<Rightarrow> (mmio_bus \<times> guest_memory, rng_completion option, rng_process_error) op" where
  "process_virtio_rng_notification address s =
     (case s of (bus, m) \<Rightarrow>
      case process_at rng_bar0 rng_process_notified_queue address (rng_devices bus, m) of
        (r, (ds, m')) \<Rightarrow> (r, (bus\<lparr>rng_devices := ds\<rparr>, m')))"

definition process_virtio_blk_notification ::
  "u64 \<Rightarrow> (mmio_bus \<times> guest_memory, blk_completion option, blk_process_error) op" where
  "process_virtio_blk_notification address s =
     (case s of (bus, m) \<Rightarrow>
      case process_at blk_bar0 blk_process_notified_queue address (blk_devices bus, m) of
        (r, (ds, m')) \<Rightarrow> (r, (bus\<lparr>blk_devices := ds\<rparr>, m')))"

definition process_virtio_blk_notification_atomic ::
  "host_io \<Rightarrow> u64 \<Rightarrow> (mmio_bus \<times> guest_memory \<times> host_files, blk_completion option, blk_process_error) op" where
  "process_virtio_blk_notification_atomic io address s =
     (case s of (bus, mf) \<Rightarrow>
      case process_at blk_bar0 (blk_process_notified_queue_atomic io) address (blk_devices bus, mf) of
        (r, (ds, mf')) \<Rightarrow> (r, (bus\<lparr>blk_devices := ds\<rparr>, mf')))"

definition host_notification_error :: vm_error where
  "host_notification_error = HostEnvironment (Host_Io ''apply virtio-blk host queue notification''
     (Custom InvalidData
       (Message ''virtio-blk notify register did not produce the expected queue event'' [])))"

definition apply_virtio_blk_host_notification :: "u64 \<Rightarrow> u16 \<Rightarrow> (mmio_bus, bool, vm_error) op" where
  "apply_virtio_blk_host_notification address queue bus =
     (case with_first (\<lambda>d. blk_bar0 d = address)
        (op_map_err blk_mmio_error (blk_write VIRTIO_NOTIFY_OFFSET (to_le_bytes queue))) (blk_devices bus) of
        None \<Rightarrow> (Ok False, bus)
      | Some (r, ds) \<Rightarrow>
          (and_then r (\<lambda>event. case event of
               Some (Blk_QueueNotified observed) \<Rightarrow>
                 if observed = queue then Ok True else Err host_notification_error
             | None \<Rightarrow> Err host_notification_error),
           bus\<lparr>blk_devices := ds\<rparr>))"

section \<open>Queries\<close>

definition virtio_rng_status_at :: "u64 \<Rightarrow> mmio_bus \<Rightarrow> u8 option" where
  "virtio_rng_status_at address bus = map_option rng_status (find (\<lambda>d. rng_bar0 d = address) (rng_devices bus))"

definition virtio_rng_driver_features_at :: "u64 \<Rightarrow> mmio_bus \<Rightarrow> u64 option" where
  "virtio_rng_driver_features_at address bus =
     map_option rng_driver_features (find (\<lambda>d. rng_bar0 d = address) (rng_devices bus))"

definition virtio_rng_queue_enabled_at :: "u64 \<Rightarrow> mmio_bus \<Rightarrow> bool option" where
  "virtio_rng_queue_enabled_at address bus =
     map_option rng_queue_enabled (find (\<lambda>d. rng_bar0 d = address) (rng_devices bus))"

definition virtio_blk_status_at :: "u64 \<Rightarrow> mmio_bus \<Rightarrow> u8 option" where
  "virtio_blk_status_at address bus = map_option blk_status (find (\<lambda>d. blk_bar0 d = address) (blk_devices bus))"

definition virtio_blk_driver_features_at :: "u64 \<Rightarrow> mmio_bus \<Rightarrow> u64 option" where
  "virtio_blk_driver_features_at address bus =
     map_option blk_driver_features (find (\<lambda>d. blk_bar0 d = address) (blk_devices bus))"

definition virtio_blk_queue_enabled_at :: "u64 \<Rightarrow> mmio_bus \<Rightarrow> bool option" where
  "virtio_blk_queue_enabled_at address bus =
     map_option blk_queue_enabled (find (\<lambda>d. blk_bar0 d = address) (blk_devices bus))"

definition bus_writes :: "mmio_bus \<Rightarrow> u8 list option" where
  "bus_writes bus =
     (if length (byte_devices bus) = 1 \<and> rng_devices bus = [] \<and> blk_devices bus = []
      then (case byte_devices bus of d # _ \<Rightarrow> Some (byte_writes d) | [] \<Rightarrow> None) else None)"

definition bus_writes_at :: "u64 \<Rightarrow> mmio_bus \<Rightarrow> u8 list option" where
  "bus_writes_at address bus = map_option byte_writes (find (\<lambda>d. byte_address d = address) (byte_devices bus))"

section \<open>Legacy PIC routes\<close>

abbreviation LEGACY_PIC_MASTER_VECTOR_BASE :: u8 where "LEGACY_PIC_MASTER_VECTOR_BASE \<equiv> 0x40"
abbreviation LEGACY_PIC_MASTER_GSI_COUNT :: u32 where "LEGACY_PIC_MASTER_GSI_COUNT \<equiv> 8"

datatype (plugins only: code) routing_error =
    NoRoutes
  | GsiOutsideMasterPic u32
  | DuplicateDeviceAddress u64
  | DuplicateGsi u32

record pic_route =
  route_device_address :: u64
  route_gsi :: u32
  route_vector :: u8

definition pic_route_new :: "u64 \<Rightarrow> u32 \<Rightarrow> (pic_route, routing_error) outcome" where
  "pic_route_new device_address gsi =
     (if LEGACY_PIC_MASTER_GSI_COUNT \<le> gsi then Err (GsiOutsideMasterPic gsi)
      else and_then (expect (if gsi < 256 then Some (ucast gsi :: u8) else None)) (\<lambda>offset.
        and_then (expect (checked_add LEGACY_PIC_MASTER_VECTOR_BASE offset)) (\<lambda>vector.
        Ok \<lparr>route_device_address = device_address, route_gsi = gsi, route_vector = vector\<rparr>)))"

fun check_route :: "pic_route \<Rightarrow> pic_route list \<Rightarrow> (unit, routing_error) outcome" where
  "check_route route [] = Ok ()"
| "check_route route (existing # rs) =
     (if route_device_address existing = route_device_address route
      then Err (DuplicateDeviceAddress (route_device_address route))
      else if route_gsi existing = route_gsi route then Err (DuplicateGsi (route_gsi route))
      else check_route route rs)"

fun check_routes :: "pic_route list \<Rightarrow> pic_route list \<Rightarrow> (unit, routing_error) outcome" where
  "check_routes before [] = Ok ()"
| "check_routes before (route # rs) = and_then (check_route route before) (\<lambda>_. check_routes (before @ [route]) rs)"

definition pic_routes_new :: "pic_route list \<Rightarrow> (pic_route list, routing_error) outcome" where
  "pic_routes_new routes =
     (if routes = [] then Err NoRoutes else and_then (check_routes [] routes) (\<lambda>_. Ok routes))"

definition route_for_device :: "u64 \<Rightarrow> pic_route list \<Rightarrow> pic_route option" where
  "route_for_device address routes = find (\<lambda>r. route_device_address r = address) routes"

section \<open>Specification\<close>

text \<open>A byte device keeps its place on the bus.\<close>

abbreviation byte_device_kept :: "byte_device \<Rightarrow> byte_device \<Rightarrow> bool" where
  "byte_device_kept d d' \<equiv> byte_address d' = byte_address d \<and> byte_device_mode d' = byte_device_mode d"

text \<open>Ranges as intervals of unbounded addresses.\<close>

definition ranges_disjoint :: "u64 \<times> u64 \<Rightarrow> u64 \<times> u64 \<Rightarrow> bool" where
  "ranges_disjoint r q \<longleftrightarrow> unat (fst r) + unat (snd r) \<le> unat (fst q) \<or> unat (fst q) + unat (snd q) \<le> unat (fst r)"

definition in_range :: "u64 \<times> u64 \<Rightarrow> u64 \<Rightarrow> bool" where
  "in_range r a \<longleftrightarrow> unat (fst r) \<le> unat a \<and> unat a < unat (fst r) + unat (snd r)"

definition bus_inv :: "mmio_bus \<Rightarrow> bool" where
  "bus_inv bus \<longleftrightarrow> list_all rng_inv (rng_devices bus) \<and> list_all blk_inv (blk_devices bus)
     \<and> sorted_wrt ranges_disjoint (registered_ranges bus)"

text \<open>A range that registration accepts: it and the registered ranges end below the top of the address
  space, and it is disjoint from them.\<close>

definition range_free :: "mmio_bus \<Rightarrow> u64 \<times> u64 \<Rightarrow> bool" where
  "range_free bus r \<longleftrightarrow> unat (fst r) + unat (snd r) < 2 ^ 64
     \<and> (\<forall>q \<in> set (registered_ranges bus). unat (fst q) + unat (snd q) < 2 ^ 64 \<and> ranges_disjoint r q)"

text \<open>Two device vectors that agree on every device outside a predicate.\<close>

definition same_except :: "('d \<Rightarrow> bool) \<Rightarrow> 'd list \<Rightarrow> 'd list \<Rightarrow> bool" where
  "same_except p ds ds' \<longleftrightarrow> length ds' = length ds \<and> (\<forall>i < length ds. \<not> p (ds ! i) \<longrightarrow> ds' ! i = ds ! i)"

text \<open>A byte device's line as its interrupt controller sees it, under accesses and polls.\<close>

datatype byte_action = Access mmio_exit | Poll

fun byte_run :: "byte_action list \<Rightarrow> byte_device \<Rightarrow> mmio_event list \<times> byte_device" where
  "byte_run [] d = ([], d)"
| "byte_run (Access x # as) d = byte_run as (snd (byte_handle x d))"
| "byte_run (Poll # as) d =
     (case byte_take_event d of (e, d') \<Rightarrow> case byte_run as d' of (es, d'') \<Rightarrow>
        ((case e of None \<Rightarrow> [] | Some e \<Rightarrow> [e]) @ es, d''))"

fun alternating :: "bool \<Rightarrow> mmio_event list \<Rightarrow> bool" where
  "alternating asserted [] = True"
| "alternating asserted (e # es) \<longleftrightarrow>
     e = (if asserted then InterruptLineDeassertRequested else InterruptLineAssertRequested)
     \<and> alternating (\<not> asserted) es"

text \<open>A concrete bus with one device of each kind, and an access to each of them.\<close>

definition example_bus :: mmio_bus where
  "example_bus = \<lparr>byte_devices = [byte_device_new 0x2000 7 LevelInterrupt], rng_devices = [rng_new 0x10000],
     blk_devices = [blk_new 0x20000], virtio_events = []\<rparr>"

definition example_access :: "u64 \<Rightarrow> mmio_exit" where
  "example_access a = \<lparr>mx_address = a, mx_direction = Mmio_Write, mx_length = 1, mx_write_data = [1]\<rparr>"

text \<open>
  Everything that the vCPU loop and the interrupt code do to the bus, as steps of the machine: an MMIO
  access, a poll for device events, the processing of a notified queue by either path, and a
  notification from the host.
\<close>

type_synonym machine = "mmio_bus \<times> guest_memory \<times> host_files"

inductive bus_step :: "host_io \<Rightarrow> machine \<Rightarrow> bool \<Rightarrow> machine \<Rightarrow> bool" for io where
  access: "mmio_dispatch x bus = (r, bus') \<Longrightarrow> bus_step io (bus, m, fs) (is_fault r) (bus', m, fs)"
| poll: "take_device_event_record bus = (e, bus') \<Longrightarrow> bus_step io (bus, m, fs) False (bus', m, fs)"
| rng: "process_virtio_rng_notification a (bus, m) = (q, (bus', m')) \<Longrightarrow>
     bus_step io (bus, m, fs) (is_fault q) (bus', m', fs)"
| blk: "process_virtio_blk_notification a (bus, m) = (b, (bus', m')) \<Longrightarrow>
     bus_step io (bus, m, fs) (is_fault b) (bus', m', fs)"
| blk_atomic: "process_virtio_blk_notification_atomic io a (bus, m, fs) = (b, (bus', m', fs')) \<Longrightarrow>
     bus_step io (bus, m, fs) (is_fault b) (bus', m', fs')"
| notify: "apply_virtio_blk_host_notification a queue bus = (n, bus') \<Longrightarrow>
     bus_step io (bus, m, fs) (is_fault n) (bus', m, fs)"

inductive_cases bus_stepE: "bus_step io s f s'"

inductive bus_reach :: "host_io \<Rightarrow> machine \<Rightarrow> machine \<Rightarrow> bool" for io where
  start: "bus_reach io s s"
| step: "bus_reach io s t \<Longrightarrow> bus_step io t f u \<Longrightarrow> bus_reach io s u"

fun machine_inv :: "machine \<Rightarrow> bool" where
  "machine_inv (bus, m, fs) \<longleftrightarrow> bus_inv bus \<and> memory_wf m"

section \<open>Lemmas\<close>

subsection \<open>Searching device vectors\<close>

lemma with_first_Some:
  assumes "with_first p f ds = Some (r, ds')"
  obtains i d where "i < length ds" "p (ds ! i)" "f (ds ! i) = (r, d)" "ds' = ds[i := d]"
    "position p ds = Some i"
  using assms position_Some [of p ds]
  by (auto simp: with_first_def split: option.splits prod.splits)

lemma with_first_None: "with_first p f ds = None \<longleftrightarrow> (\<forall>d \<in> set ds. \<not> p d)"
  by (auto simp: with_first_def position_None [symmetric] split: option.splits prod.splits)

lemma list_all_update: "list_all P xs \<Longrightarrow> P x \<Longrightarrow> list_all P (xs[i := x])"
  by (simp add: list_all_iff set_update_subset_insert [THEN subsetD, of _ xs i x, THEN insertE])
    (metis in_set_conv_nth length_list_update nth_list_update nth_list_update_neq nth_mem)

subsection \<open>Ranges\<close>

lemma range_contains_iff:
  "range_contains r a \<longleftrightarrow> in_range r a \<and> unat (fst r) + unat (snd r) < 2 ^ 64"
  by (auto simp: range_contains_def in_range_def checked_add_def word_le_nat_alt word_less_nat_alt
      unat_add_small split: option.splits if_splits)

lemma disjoint_in_range: "ranges_disjoint r q \<Longrightarrow> in_range r a \<Longrightarrow> \<not> in_range q a"
  by (auto simp: ranges_disjoint_def in_range_def)

lemma ranges_disjoint_sym: "ranges_disjoint r q \<longleftrightarrow> ranges_disjoint q r"
  by (auto simp: ranges_disjoint_def)

lemma ensure_no_overlap_Ok:
  "ensure_no_overlap a n end rs = Ok u \<longleftrightarrow>
     (\<forall>q \<in> set rs. unat (fst q) + unat (snd q) < 2 ^ 64
        \<and> \<not> (unat a < unat (fst q) + unat (snd q) \<and> fst q < end))"
  by (induction rs) (auto simp: outcome_simps if_Err_Ok word_less_nat_alt unat_add_small)

lemma ensure_no_overlap_safe: "\<not> is_fault (ensure_no_overlap a n end rs)"
  by (induction rs) (auto split: if_splits)

lemma ensure_range_available_safe [simp]: "\<not> is_fault (ensure_range_available bus a n)"
  by (simp add: ensure_range_available_def ensure_no_overlap_safe)

lemma ensure_range_available_Ok:
  "ensure_range_available bus a n = Ok u \<longleftrightarrow>
    unat a + unat n < 2 ^ 64
    \<and> (\<forall>q \<in> set (registered_ranges bus). unat (fst q) + unat (snd q) < 2 ^ 64 \<and> ranges_disjoint (a, n) q)"
  by (auto simp: ensure_range_available_def outcome_simps ensure_no_overlap_Ok ranges_disjoint_def
      word_less_nat_alt unat_add_small not_less not_le)

subsection \<open>Devices keep their ranges\<close>

lemma exact_write_byte_safe [simp]: "\<not> is_fault (exact_write_byte x)"
  by (auto simp: exact_write_byte_def split: list.splits)

lemma byte_handle_plain_safe:
  assumes "byte_handle_plain x b d = (r, d')"
  shows "byte_device_kept d d' \<and> \<not> is_fault r"
proof (cases "mx_direction x")
  case Mmio_Read with assms show ?thesis by (auto simp: byte_handle_plain_def)
next
  case Mmio_Write
  with assms have "commit d (and_then (exact_write_byte x) (\<lambda>v.
      let d' = d\<lparr>byte_writes := byte_writes d @ [v]\<rparr> in
      Ok (Service_Write, if b then d'\<lparr>edge_interrupt_pending := True\<rparr> else d'))) = (r, d')"
    by (simp add: byte_handle_plain_def)
  from wp_commit [where I = "byte_device_kept d", OF _ _ this] show ?thesis by (simp add: Let_def)
qed

lemma byte_handle_level_safe:
  assumes "byte_handle_level x d = (r, d')" and "byte_address d \<le> mx_address x"
  shows "byte_device_kept d d' \<and> \<not> is_fault r"
  using wp_commit [where I = "byte_device_kept d", OF _ _ assms(1) [unfolded byte_handle_level_def]] assms(2)
  by (simp add: wp_simps)

lemma byte_device_safe:
  assumes "byte_handles d (mx_address x)" and "byte_handle x d = (r, d')"
  shows "\<not> is_fault r \<and> byte_address_range d' = byte_address_range d"
proof -
  have "byte_address d \<le> mx_address x"
    using assms(1) by (simp add: byte_handles_def range_contains_iff in_range_def byte_address_range_def word_le_nat_alt)
  with assms(2) have "byte_device_kept d d' \<and> \<not> is_fault r"
    by (auto simp: byte_handle_def split: if_splits byte_mode.splits
        dest: byte_handle_plain_safe byte_handle_level_safe)
  then show ?thesis by (simp add: byte_address_range_def)
qed

lemma byte_take_event_range: "byte_take_event d = (e, d') \<Longrightarrow> byte_address_range d' = byte_address_range d"
  by (auto simp: byte_take_event_def byte_address_range_def split: byte_mode.splits if_splits)

lemma rng_bar_wp [simp]:
  "wp (rng_write_driver_feature_word v d) (\<lambda>d'. rng_bar0 d' = rng_bar0 d)"
  "wp (rng_write_status st d) (\<lambda>d'. rng_bar0 d' = rng_bar0 d)"
  "wp (rng_write_queue_size w d) (\<lambda>d'. rng_bar0 d' = rng_bar0 d)"
  "wp (rng_write_queue_enable w d) (\<lambda>d'. rng_bar0 d' = rng_bar0 d)"
  "(\<And>v. rng_bar0 (upd v) = rng_bar0 d) \<Longrightarrow>
     wp (rng_write_address off p upd d) (\<lambda>(ev, d'). rng_bar0 d' = rng_bar0 d)"
  by (simp_all add: rng_write_driver_feature_word_def rng_write_status_def rng_write_queue_size_def
      rng_write_queue_enable_def rng_write_address_def rng_reset_def)

lemma rng_read_bar: "rng_read off len d = (r, d') \<Longrightarrow> rng_bar0 d' = rng_bar0 d"
proof -
  have "rng_bar0 (snd (rng_read off len d)) = rng_bar0 d" by (simp add: rng_read_def)
  then show "rng_read off len d = (r, d') \<Longrightarrow> rng_bar0 d' = rng_bar0 d" by simp
qed

lemma rng_write_bar:
  assumes "rng_write off p d = (w, d')"
  shows "rng_bar0 d' = rng_bar0 d"
  using wp_commit [where I = "\<lambda>d'. rng_bar0 d' = rng_bar0 d", OF _ _ assms [unfolded rng_write_def]] by simp

lemma blk_bar_wp [simp]:
  "wp (blk_write_driver_feature_word v d) (\<lambda>d'. blk_bar0 d' = blk_bar0 d)"
  "wp (blk_write_status st d) (\<lambda>d'. blk_bar0 d' = blk_bar0 d)"
  "wp (blk_write_queue_size w d) (\<lambda>d'. blk_bar0 d' = blk_bar0 d)"
  "wp (blk_write_queue_enable w d) (\<lambda>d'. blk_bar0 d' = blk_bar0 d)"
  "(\<And>v. blk_bar0 (upd v) = blk_bar0 d) \<Longrightarrow>
     wp (blk_write_address off p upd d) (\<lambda>(ev, d'). blk_bar0 d' = blk_bar0 d)"
  by (simp_all add: blk_write_driver_feature_word_def blk_write_status_def blk_write_queue_size_def
      blk_write_queue_enable_def blk_write_address_def blk_reset_def)

lemma blk_read_bar: "blk_read off len d = (r, d') \<Longrightarrow> blk_bar0 d' = blk_bar0 d"
proof -
  have "blk_bar0 (snd (blk_read off len d)) = blk_bar0 d" by (simp add: blk_read_def)
  then show "blk_read off len d = (r, d') \<Longrightarrow> blk_bar0 d' = blk_bar0 d" by simp
qed

lemma blk_write_bar:
  assumes "blk_write off p d = (w, d')"
  shows "blk_bar0 d' = blk_bar0 d"
  using wp_commit [where I = "\<lambda>d'. blk_bar0 d' = blk_bar0 d", OF _ _ assms [unfolded blk_write_def]] by simp

subsection \<open>What the bus relies on\<close>

text \<open>
  The contract of a device model behind a BAR: its register accesses do not panic and keep its
  invariant and its BAR.
\<close>

locale bar_device =
  fixes rd :: "u64 \<Rightarrow> usize \<Rightarrow> ('d, u8 list, 'e) op"
    and wr :: "u64 \<Rightarrow> u8 list \<Rightarrow> ('d, 'v option, 'e) op"
    and bar :: "'d \<Rightarrow> u64"
    and inv :: "'d \<Rightarrow> bool"
  assumes rd_safe: "inv d \<Longrightarrow> rd off len d = (r, d') \<Longrightarrow> inv d' \<and> \<not> is_fault r \<and> bar d' = bar d"
    and wr_safe: "inv d \<Longrightarrow> wr off payload d = (w, d') \<Longrightarrow> inv d' \<and> \<not> is_fault w \<and> bar d' = bar d"
begin

lemma dispatch_safe:
  assumes "range_contains (bar d, n) (mx_address x)" and "inv d"
    and run: "dispatch_device rd wr bar error_of event_to x d = (r, d')"
  shows "\<not> is_fault r \<and> inv d' \<and> bar d' = bar d"
proof -
  let ?I = "\<lambda>d'. inv d' \<and> bar d' = bar d"
  have le: "bar d \<le> mx_address x"
    using assms(1) by (simp add: range_contains_iff in_range_def word_le_nat_alt)
  have rd: "op_safe ?I (rd off len)" for off len
    unfolding op_safe_def using rd_safe by metis
  have wr: "op_safe ?I (wr off payload)" for off payload
    unfolding op_safe_def using wr_safe by metis
  have "sub_ov (mx_address x) (bar d) = Ok (mx_address x - bar d)"
    using le by (simp add: outcome_simps)
  note body = run [unfolded dispatch_device_def this, simplified]
  show ?thesis
  proof (cases "mx_direction x")
    case Mmio_Read
    note op_safeD [OF op_safe_map_err [OF op_safe_then [OF rd op_safe_return]] _ body [simplified this, simplified]]
    with \<open>inv d\<close> show ?thesis by simp
  next
    case Mmio_Write
    note op_safeD [OF op_safe_map_err [OF op_safe_then [OF wr op_safe_return]] _ body [simplified this, simplified]]
    with \<open>inv d\<close> show ?thesis by simp
  qed
qed

end

interpretation rng_bar: bar_device rng_read rng_write rng_bar0 rng_inv
  by unfold_locales (auto dest: rng_read_inv rng_write_inv rng_read_bar rng_write_bar)

interpretation blk_bar: bar_device blk_read blk_write blk_bar0 blk_inv
  by unfold_locales (auto dest: blk_read_inv blk_write_inv blk_read_bar blk_write_bar)

subsection \<open>Dispatch\<close>

lemma same_except_refl [simp]: "same_except p ds ds"
  by (simp add: same_except_def)

lemma same_except_update: "p (ds ! i) \<Longrightarrow> same_except p ds (ds[i := d])"
  by (auto simp: same_except_def) (metis nth_list_update_neq)

lemma map_update_same: "f d = f (xs ! i) \<Longrightarrow> map f (xs[i := d]) = map f xs"
  by (metis list_update_id map_update)

lemma registered_ranges_events [simp]:
  "registered_ranges (bus\<lparr>virtio_events := es\<rparr>) = registered_ranges bus"
  by (simp add: registered_ranges_def)

lemma push_event_simps [simp]:
  "byte_devices (push_event a e bus) = byte_devices bus" "rng_devices (push_event a e bus) = rng_devices bus"
  "blk_devices (push_event a e bus) = blk_devices bus"
  "registered_ranges (push_event a e bus) = registered_ranges bus" "bus_inv (push_event a e bus) = bus_inv bus"
  by (simp_all add: push_event_def bus_inv_def registered_ranges_def split: option.splits)

lemma finish_virtio_eq:
  "finish_virtio r a bus = (q, bus') \<Longrightarrow>
     is_fault q = is_fault r \<and> byte_devices bus' = byte_devices bus \<and> rng_devices bus' = rng_devices bus
     \<and> blk_devices bus' = blk_devices bus \<and> registered_ranges bus' = registered_ranges bus
     \<and> bus_inv bus' = bus_inv bus"
  by (cases r) auto

lemma mmio_dispatch_cases [consumes 1, case_names byte rng blk none]:
  assumes "mmio_dispatch x bus = (r, bus')"
  obtains
    (byte) i d q where "i < length (byte_devices bus)" "byte_handles (byte_devices bus ! i) (mx_address x)"
      "byte_handle x (byte_devices bus ! i) = (q, d)" "r = map_err Mmio q"
      "bus' = bus\<lparr>byte_devices := (byte_devices bus)[i := d]\<rparr>"
  | (rng) i d q a where "i < length (rng_devices bus)" "virtio_rng_handles (rng_devices bus ! i) (mx_address x)"
      "dispatch_virtio_rng x (rng_devices bus ! i) = (q, d)"
      "(r, bus') = finish_virtio q a (bus\<lparr>rng_devices := (rng_devices bus)[i := d]\<rparr>)"
      "a = rng_bar0 d"
  | (blk) i d q a where "i < length (blk_devices bus)" "virtio_blk_handles (blk_devices bus ! i) (mx_address x)"
      "dispatch_virtio_blk x (blk_devices bus ! i) = (q, d)"
      "(r, bus') = finish_virtio q a (bus\<lparr>blk_devices := (blk_devices bus)[i := d]\<rparr>)"
      "a = blk_bar0 d"
  | (none) "bus' = bus" "r = Err (Mmio (UnhandledAddress (mx_address x) (mmio_direction_raw (mx_direction x))
      (mx_length x)))" "\<forall>q \<in> set (registered_ranges bus). \<not> range_contains q (mx_address x)"
proof (cases "with_first (\<lambda>d. byte_handles d (mx_address x)) (byte_handle x) (byte_devices bus)")
  case (Some rd)
  then obtain q ds where q: "with_first (\<lambda>d. byte_handles d (mx_address x)) (byte_handle x) (byte_devices bus)
      = Some (q, ds)" by (cases rd) auto
  with assms have "r = map_err Mmio q" "bus' = bus\<lparr>byte_devices := ds\<rparr>" by (simp_all add: mmio_dispatch_def)
  with q show thesis by (elim with_first_Some) (rule byte, auto)
next
  case b: None
  show thesis
  proof (cases "with_first (\<lambda>d. virtio_rng_handles d (mx_address x)) (dispatch_virtio_rng x) (rng_devices bus)")
    case (Some rd)
    then obtain q ds where q: "with_first (\<lambda>d. virtio_rng_handles d (mx_address x)) (dispatch_virtio_rng x)
        (rng_devices bus) = Some (q, ds)" by (cases rd) auto
    with assms b have "(r, bus') = finish_virtio q (bar_after rng_bar0
        (\<lambda>d. virtio_rng_handles d (mx_address x)) (rng_devices bus) ds) (bus\<lparr>rng_devices := ds\<rparr>)"
      by (simp add: mmio_dispatch_def)
    with q show thesis by (elim with_first_Some) (rule rng, auto simp: bar_after_def)
  next
    case r: None
    show thesis
    proof (cases "with_first (\<lambda>d. virtio_blk_handles d (mx_address x)) (dispatch_virtio_blk x) (blk_devices bus)")
      case (Some rd)
      then obtain q ds where q: "with_first (\<lambda>d. virtio_blk_handles d (mx_address x)) (dispatch_virtio_blk x)
          (blk_devices bus) = Some (q, ds)" by (cases rd) auto
      with assms b r have "(r, bus') = finish_virtio q (bar_after blk_bar0
          (\<lambda>d. virtio_blk_handles d (mx_address x)) (blk_devices bus) ds) (bus\<lparr>blk_devices := ds\<rparr>)"
        by (simp add: mmio_dispatch_def)
      with q show thesis by (elim with_first_Some) (rule blk, auto simp: bar_after_def)
    next
      case None
      with assms b r have "r = Err (Mmio (UnhandledAddress (mx_address x)
          (mmio_direction_raw (mx_direction x)) (mx_length x)))" "bus' = bus"
        by (simp_all add: mmio_dispatch_def)
      with None b r show thesis
        by (intro none) (auto simp: with_first_None registered_ranges_def byte_handles_def
            virtio_rng_handles_def virtio_blk_handles_def)
    qed
  qed
qed

lemma bus_inv_nth:
  "bus_inv bus \<Longrightarrow> i < length (rng_devices bus) \<Longrightarrow> rng_inv (rng_devices bus ! i)"
  "bus_inv bus \<Longrightarrow> j < length (blk_devices bus) \<Longrightarrow> blk_inv (blk_devices bus ! j)"
  by (simp_all add: bus_inv_def list_all_length)

lemma mmio_dispatch_safe:
  assumes "bus_inv bus" and "mmio_dispatch x bus = (r, bus')"
  shows "\<not> is_fault r \<and> bus_inv bus' \<and> registered_ranges bus' = registered_ranges bus
    \<and> same_except (\<lambda>d. byte_handles d (mx_address x)) (byte_devices bus) (byte_devices bus')
    \<and> same_except (\<lambda>d. virtio_rng_handles d (mx_address x)) (rng_devices bus) (rng_devices bus')
    \<and> same_except (\<lambda>d. virtio_blk_handles d (mx_address x)) (blk_devices bus) (blk_devices bus')"
  using assms(2)
proof (cases rule: mmio_dispatch_cases)
  case (byte i d q)
  have "\<not> is_fault q" "byte_address_range d = byte_address_range (byte_devices bus ! i)"
    using byte_device_safe [OF byte(2,3)] by auto
  with byte assms(1) show ?thesis
    by (simp add: bus_inv_def registered_ranges_def map_update_same same_except_update)
next
  case (rng i d q a)
  have d: "\<not> is_fault q" "rng_inv d" "rng_range d = rng_range (rng_devices bus ! i)"
    using rng_bar.dispatch_safe [OF rng(2) [unfolded virtio_rng_handles_def rng_range_def]
        bus_inv_nth(1) [OF assms(1) rng(1)] rng(3) [unfolded dispatch_virtio_rng_def]]
    by (auto simp: rng_range_def)
  with rng(1,2,4) assms(1) finish_virtio_eq [OF rng(4) [symmetric]] show ?thesis
    by (simp add: bus_inv_def registered_ranges_def map_update_same same_except_update list_all_update)
next
  case (blk i d q a)
  have d: "\<not> is_fault q" "blk_inv d" "blk_range d = blk_range (blk_devices bus ! i)"
    using blk_bar.dispatch_safe [OF blk(2) [unfolded virtio_blk_handles_def blk_range_def]
        bus_inv_nth(2) [OF assms(1) blk(1)] blk(3) [unfolded dispatch_virtio_blk_def]]
    by (auto simp: blk_range_def)
  with blk(1,2,4) assms(1) finish_virtio_eq [OF blk(4) [symmetric]] show ?thesis
    by (simp add: bus_inv_def registered_ranges_def map_update_same same_except_update list_all_update)
next
  case none
  with assms(1) show ?thesis by simp
qed

subsection \<open>Registration\<close>

lemma sorted_wrt_snoc: "sorted_wrt R (xs @ [x]) \<longleftrightarrow> sorted_wrt R xs \<and> (\<forall>y \<in> set xs. R y x)"
  by (auto simp: sorted_wrt_append)

lemma sorted_wrt_insert:
  assumes "sorted_wrt R (xs @ ys)" and "\<forall>y \<in> set (xs @ ys). R x y \<and> R y x"
  shows "sorted_wrt R (xs @ x # ys)"
  using assms by (auto simp: sorted_wrt_append)

lemma registered_free:
  assumes "bus_inv bus" and "ensure_range_available bus a n = Ok u"
  shows "\<forall>q \<in> set (registered_ranges bus). ranges_disjoint (a, n) q \<and> ranges_disjoint q (a, n)"
  using assms(2) by (auto simp: ensure_range_available_Ok ranges_disjoint_sym)

lemma new_device_ranges [simp]:
  "rng_range (rng_new a) = (a, 0x1000)" "blk_range (blk_new a) = (a, 0x1000)"
  by (simp_all add: rng_range_def rng_new_def blk_range_def blk_new_def)

lemma register_device_inv:
  assumes "bus_inv bus" and "register_device d bus = (r, bus')"
  shows "bus_inv bus' \<and> \<not> is_fault r"
proof -
  have "bus_inv (bus\<lparr>byte_devices := byte_devices bus @ [d]\<rparr>)"
    if "ensure_range_available bus (fst (byte_address_range d)) (snd (byte_address_range d)) = Ok u" for u
    using registered_free [OF assms(1) that] assms(1)
      sorted_wrt_insert [of ranges_disjoint "map byte_address_range (byte_devices bus)" _ "byte_address_range d"]
    by (simp add: bus_inv_def registered_ranges_def)
  with wp_commit [where I = bus_inv, OF _ assms(1) assms(2) [unfolded register_device_def]] show ?thesis
    by simp (simp add: wp_iff)
qed

lemma register_rng_inv:
  assumes "bus_inv bus" and "register_virtio_rng_device_at a bus = (r, bus')"
  shows "bus_inv bus' \<and> \<not> is_fault r"
proof -
  have "bus_inv (bus\<lparr>rng_devices := rng_devices bus @ [rng_new a]\<rparr>)"
    if "ensure_range_available bus a 0x1000 = Ok u" for u
    using registered_free [OF assms(1) that] assms(1) sorted_wrt_insert [of ranges_disjoint
        "map byte_address_range (byte_devices bus) @ map rng_range (rng_devices bus)" _ "rng_range (rng_new a)"]
    by (simp add: bus_inv_def registered_ranges_def rng_inv_new)
  with wp_commit [where I = bus_inv, OF _ assms(1) assms(2) [unfolded register_virtio_rng_device_at_def]]
  show ?thesis by simp (simp add: wp_iff)
qed

lemma register_blk_inv:
  assumes "bus_inv bus" and "register_virtio_blk_device_at a bus = (r, bus')"
  shows "bus_inv bus' \<and> \<not> is_fault r"
proof -
  have "bus_inv (bus\<lparr>blk_devices := blk_devices bus @ [blk_new a]\<rparr>)"
    if "ensure_range_available bus a 0x1000 = Ok u" for u
    using registered_free [OF assms(1) that] assms(1)
      sorted_wrt_snoc [of ranges_disjoint "registered_ranges bus" "blk_range (blk_new a)"]
    by (simp add: bus_inv_def registered_ranges_def blk_inv_new)
  with wp_commit [where I = bus_inv, OF _ assms(1) assms(2) [unfolded register_virtio_blk_device_at_def]]
  show ?thesis by simp (simp add: wp_iff)
qed

subsection \<open>Events and queue processing\<close>

lemma take_byte_event_ranges:
  "take_byte_event ds = (e, ds') \<Longrightarrow> map byte_address_range ds' = map byte_address_range ds"
  by (induction ds arbitrary: e ds')
    (auto split: prod.splits option.splits dest: byte_take_event_range)

lemma take_event_inv:
  "bus_inv bus \<Longrightarrow> take_device_event_record bus = (e, bus') \<Longrightarrow>
     bus_inv bus' \<and> registered_ranges bus' = registered_ranges bus
     \<and> rng_devices bus' = rng_devices bus \<and> blk_devices bus' = blk_devices bus"
  by (auto simp: take_device_event_record_def bus_inv_def registered_ranges_def
      split: prod.splits option.splits list.splits dest: take_byte_event_ranges)

lemma rng_process_bar: "rng_process_notified_queue (d, m) = (r, (d', m')) \<Longrightarrow> rng_bar0 d' = rng_bar0 d"
  by (auto simp: rng_process_notified_queue_def split: outcome.splits prod.splits)

lemma blk_process_bar:
  "blk_process_notified_queue (d, m) = (r, (d', m')) \<Longrightarrow> blk_bar0 d' = blk_bar0 d"
  "blk_process_notified_queue_atomic io (d, m, files) = (r, (d', m', files')) \<Longrightarrow> blk_bar0 d' = blk_bar0 d"
  by (auto simp: blk_process_notified_queue_def blk_process_notified_queue_atomic_def blk_dev_served_def
      split: outcome.splits prod.splits)

lemma process_at_cases:
  assumes "process_at bar f a (ds, m) = (r, (ds', m'))"
  obtains "r = Ok None" "ds' = ds" "m' = m" "\<forall>d \<in> set ds. bar d \<noteq> a"
  | i q d where "i < length ds" "bar (ds ! i) = a" "f (ds ! i, m) = (q, (d, m'))" "r = map_ok Some q"
      "ds' = ds[i := d]"
  using assms position_Some [of "\<lambda>d. bar d = a" ds] position_None [of "\<lambda>d. bar d = a" ds]
  by (auto simp: process_at_def split: option.splits prod.splits)

lemma process_rng_safe:
  assumes "bus_inv bus" "memory_wf m" and "process_virtio_rng_notification a (bus, m) = (r, (bus', m'))"
  shows "bus_inv bus' \<and> memory_wf m' \<and> \<not> is_fault r"
proof -
  obtain ds where p: "process_at rng_bar0 rng_process_notified_queue a (rng_devices bus, m) = (r, (ds, m'))"
    and bus': "bus' = bus\<lparr>rng_devices := ds\<rparr>"
    using assms(3) by (auto simp: process_virtio_rng_notification_def split: prod.splits)
  from p show ?thesis
  proof (cases rule: process_at_cases)
    case 1 with assms(1,2) bus' show ?thesis by (simp add: bus_inv_def registered_ranges_def)
  next
    case (2 i q d)
    have "rng_inv d \<and> memory_wf m' \<and> \<not> is_fault q"
      using rng.pr_inv [of "(rng_devices bus ! i, m)" q "(d, m')"] 2(3) assms(2) bus_inv_nth(1) [OF assms(1) 2(1)]
      by (simp add: rng_state_inv_def)
    with 2 bus' assms(1) rng_process_bar [OF 2(3)] show ?thesis
      by (simp add: bus_inv_def registered_ranges_def map_update_same list_all_update rng_range_def)
  qed
qed

lemma process_blk_safe:
  assumes "bus_inv bus" "memory_wf m" and "process_virtio_blk_notification a (bus, m) = (r, (bus', m'))"
  shows "bus_inv bus' \<and> memory_wf m' \<and> \<not> is_fault r"
proof -
  obtain ds where p: "process_at blk_bar0 blk_process_notified_queue a (blk_devices bus, m) = (r, (ds, m'))"
    and bus': "bus' = bus\<lparr>blk_devices := ds\<rparr>"
    using assms(3) by (auto simp: process_virtio_blk_notification_def split: prod.splits)
  from p show ?thesis
  proof (cases rule: process_at_cases)
    case 1 with assms(1,2) bus' show ?thesis by (simp add: bus_inv_def registered_ranges_def)
  next
    case (2 i q d)
    have "blk_inv d \<and> memory_wf m' \<and> \<not> is_fault q"
      using blk_process_read_safe [OF assms(2) bus_inv_nth(2) [OF assms(1) 2(1)] 2(3)] .
    with 2 bus' assms(1) blk_process_bar(1) [OF 2(3)] show ?thesis
      by (simp add: bus_inv_def registered_ranges_def map_update_same list_all_update blk_range_def)
  qed
qed

lemma process_blk_atomic_safe:
  assumes "bus_inv bus" "memory_wf m"
    and "process_virtio_blk_notification_atomic io a (bus, m, fs) = (r, (bus', m', fs'))"
  shows "bus_inv bus' \<and> memory_wf m' \<and> \<not> is_fault r"
proof -
  obtain ds where p: "process_at blk_bar0 (blk_process_notified_queue_atomic io) a (blk_devices bus, m, fs)
      = (r, (ds, m', fs'))"
    and bus': "bus' = bus\<lparr>blk_devices := ds\<rparr>"
    using assms(3) by (auto simp: process_virtio_blk_notification_atomic_def split: prod.splits)
  from p show ?thesis
  proof (cases rule: process_at_cases)
    case 1 with assms(1,2) bus' show ?thesis by (simp add: bus_inv_def registered_ranges_def)
  next
    case (2 i q d)
    have "blk_inv d \<and> memory_wf m' \<and> \<not> is_fault q"
      using blk_atomic_safe [OF assms(2) bus_inv_nth(2) [OF assms(1) 2(1)] 2(3)] .
    with 2 bus' assms(1) blk_process_bar(2) [OF 2(3)] show ?thesis
      by (simp add: bus_inv_def registered_ranges_def map_update_same list_all_update blk_range_def)
  qed
qed

lemma host_notification_safe:
  assumes "bus_inv bus" and "apply_virtio_blk_host_notification a queue bus = (r, bus')"
  shows "bus_inv bus' \<and> \<not> is_fault r"
proof (cases "with_first (\<lambda>d. blk_bar0 d = a)
    (op_map_err blk_mmio_error (blk_write VIRTIO_NOTIFY_OFFSET (to_le_bytes queue))) (blk_devices bus)")
  case None with assms show ?thesis by (auto simp: apply_virtio_blk_host_notification_def)
next
  case (Some qd)
  then obtain q ds where q: "with_first (\<lambda>d. blk_bar0 d = a)
    (op_map_err blk_mmio_error (blk_write VIRTIO_NOTIFY_OFFSET (to_le_bytes queue))) (blk_devices bus)
      = Some (q, ds)" by (cases qd) auto
  then obtain i d where i: "i < length (blk_devices bus)" "ds = (blk_devices bus)[i := d]"
    and "op_map_err blk_mmio_error (blk_write VIRTIO_NOTIFY_OFFSET (to_le_bytes queue)) (blk_devices bus ! i) = (q, d)"
    by (auto elim: with_first_Some)
  then obtain w where w: "blk_write VIRTIO_NOTIFY_OFFSET (to_le_bytes queue) (blk_devices bus ! i) = (w, d)"
    "q = map_err blk_mmio_error w"
    by (auto simp: op_map_err_def split: prod.splits)
  have "blk_inv d \<and> \<not> is_fault w" using blk_write_inv [OF bus_inv_nth(2) [OF assms(1) i(1)] w(1)] .
  moreover have "\<not> is_fault (case event of
      Some (Blk_QueueNotified observed) \<Rightarrow> if observed = queue then Ok True else Err host_notification_error
    | None \<Rightarrow> Err host_notification_error)" for event
    by (simp split: option.split blk_event.split)
  ultimately show ?thesis
    using q i w assms blk_write_bar [OF w(1)]
    by (auto simp: apply_virtio_blk_host_notification_def bus_inv_def registered_ranges_def
        map_update_same list_all_update blk_range_def)
qed

lemma bus_step_safe: "bus_step io s f s' \<Longrightarrow> machine_inv s \<Longrightarrow> machine_inv s' \<and> \<not> f"
  by (induction rule: bus_step.induct)
    (auto dest: mmio_dispatch_safe take_event_inv process_rng_safe process_blk_safe process_blk_atomic_safe
      host_notification_safe)

lemma bus_reach_inv: "bus_reach io s t \<Longrightarrow> machine_inv s \<Longrightarrow> machine_inv t"
  by (induction rule: bus_reach.induct) (auto dest: bus_step_safe)

subsection \<open>Level-triggered devices\<close>

lemma snd_commit: "I s \<Longrightarrow> (\<And>x t. r = Ok (x, t) \<Longrightarrow> I t) \<Longrightarrow> I (snd (commit s r))"
  by (cases r) auto

lemma byte_handle_level_line:
  "level_line_asserted (snd (byte_handle_level x d)) = level_line_asserted d
     \<and> byte_device_mode (snd (byte_handle_level x d)) = byte_device_mode d"
  unfolding byte_handle_level_def by (rule snd_commit) (auto simp: outcome_simps split: if_splits)

lemma byte_handle_line:
  assumes "byte_device_mode d = LevelInterrupt"
  shows "level_line_asserted (snd (byte_handle x d)) = level_line_asserted d"
    and "byte_device_mode (snd (byte_handle x d)) = LevelInterrupt"
  using assms byte_handle_level_line [of x d] by (simp_all add: byte_handle_def)

lemma level_run:
  "byte_run as d = (es, d') \<Longrightarrow> byte_device_mode d = LevelInterrupt \<Longrightarrow>
     alternating (level_line_asserted d) es \<and> byte_device_mode d' = LevelInterrupt
     \<and> level_line_asserted d' = (level_line_asserted d = even (length es))"
proof (induction as d arbitrary: es rule: byte_run.induct)
  case (1 d) then show ?case by auto
next
  case (2 x as d) then show ?case by (simp add: byte_handle_line)
next
  case (3 as d)
  then show ?case
    by (auto simp: byte_take_event_def split: prod.splits if_splits)
qed

subsection \<open>Routes\<close>

lemma check_route_Ok:
  "check_route r rs = Ok u \<longleftrightarrow>
     route_device_address r \<notin> route_device_address ` set rs \<and> route_gsi r \<notin> route_gsi ` set rs"
  by (induction rs) (auto simp: if_Err_Ok)

lemma check_routes_Ok:
  "distinct (map route_device_address rs) \<Longrightarrow> distinct (map route_gsi rs) \<Longrightarrow>
   check_routes rs qs = Ok u \<longleftrightarrow>
     distinct (map route_device_address (rs @ qs)) \<and> distinct (map route_gsi (rs @ qs))"
proof (induction qs arbitrary: rs)
  case Nil then show ?case by simp
next
  case (Cons q qs)
  show ?case
  proof (cases "check_route q rs = Ok ()")
    case True
    with Cons.prems Cons.IH [of "rs @ [q]"] show ?thesis by (simp add: outcome_simps check_route_Ok)
  next
    case False
    then show ?thesis by (auto simp: outcome_simps check_route_Ok)
  qed
qed

lemma pic_route_new_eq:
  "pic_route_new a gsi =
     (if gsi < 8 then Ok \<lparr>route_device_address = a, route_gsi = gsi, route_vector = 0x40 + ucast gsi\<rparr>
      else Err (GsiOutsideMasterPic gsi))"
proof (cases "gsi < 8")
  case True
  then have "unat gsi < 8" by (simp add: word_less_nat_alt)
  then have "unat (ucast gsi :: u8) < 8" by (simp add: unsigned_ucast_eq take_bit_nat_eq_self)
  with True show ?thesis
    by (simp add: pic_route_new_def checked_add_def word_less_nat_alt not_le)
next
  case False then show ?thesis by (simp add: pic_route_new_def not_less)
qed

lemma example_bus_inv: "bus_inv example_bus"
  by (simp add: bus_inv_def example_bus_def registered_ranges_def rng_inv_new blk_inv_new
      byte_address_range_def byte_device_new_def ranges_disjoint_def)

section \<open>Properties\<close>

text \<open>
  C17. No reachable state of the machine has a step that panics: from a bus and a memory that satisfy
  their invariants, every sequence of MMIO accesses, polls, queue notifications of either processing
  path and host notifications keeps the invariants (device invariants, disjoint ranges, well-formed
  memory), and the next step does not fault either.
\<close>

theorem machine_never_faults:
  assumes "machine_inv s" and "bus_reach io s t" and "bus_step io t faulted u"
  shows "machine_inv t \<and> machine_inv u \<and> \<not> faulted"
  using bus_step_safe [OF assms(3) bus_reach_inv [OF assms(2,1)]] bus_reach_inv [OF assms(2,1)] by blast

theorem machine_never_faults_witness:
  "\<not> is_fault (fst (mmio_dispatch (example_access 0x2000) example_bus))
   \<and> bus_inv (snd (mmio_dispatch (example_access 0x2000) example_bus))"
proof -
  have "machine_inv (example_bus, example_ram [], Map.empty)"
    using example_bus_inv by (simp add: example_ram_wf)
  from machine_never_faults [OF this bus_reach.start bus_step.access [OF surjective_pairing]]
  show ?thesis by simp
qed

text \<open>
  C18. Isolation on the bus: an MMIO access changes no device whose range does not contain the address,
  at most one registered range contains it, ranges never move, and an address in no range is refused
  without any change.
\<close>

theorem mmio_dispatch_isolated:
  assumes "bus_inv bus" and "mmio_dispatch x bus = (r, bus')"
  shows "registered_ranges bus' = registered_ranges bus
    \<and> same_except (\<lambda>d. byte_handles d (mx_address x)) (byte_devices bus) (byte_devices bus')
    \<and> same_except (\<lambda>d. virtio_rng_handles d (mx_address x)) (rng_devices bus) (rng_devices bus')
    \<and> same_except (\<lambda>d. virtio_blk_handles d (mx_address x)) (blk_devices bus) (blk_devices bus')
    \<and> (\<forall>i j. i < j \<and> j < length (registered_ranges bus) \<longrightarrow>
         \<not> (range_contains (registered_ranges bus ! i) (mx_address x)
            \<and> range_contains (registered_ranges bus ! j) (mx_address x)))
    \<and> ((\<forall>q \<in> set (registered_ranges bus). \<not> range_contains q (mx_address x)) \<longrightarrow>
         bus' = bus \<and> r = Err (Mmio (UnhandledAddress (mx_address x)
           (mmio_direction_raw (mx_direction x)) (mx_length x))))"
proof -
  have "\<not> (range_contains (registered_ranges bus ! i) a \<and> range_contains (registered_ranges bus ! j) a)"
    if "i < j" "j < length (registered_ranges bus)" for i j a
    using that assms(1) disjoint_in_range [of "registered_ranges bus ! i" "registered_ranges bus ! j" a]
    by (auto simp: bus_inv_def sorted_wrt_iff_nth_less range_contains_iff)
  moreover have "bus' = bus \<and> r = Err (Mmio (UnhandledAddress (mx_address x)
      (mmio_direction_raw (mx_direction x)) (mx_length x)))"
    if none: "\<forall>q \<in> set (registered_ranges bus). \<not> range_contains q (mx_address x)"
    using assms(2) none
    by (cases rule: mmio_dispatch_cases)
      (auto simp: registered_ranges_def byte_handles_def virtio_rng_handles_def virtio_blk_handles_def)
  ultimately show ?thesis using mmio_dispatch_safe [OF assms] by blast
qed

theorem mmio_dispatch_isolated_witness:
  "same_except (\<lambda>d. virtio_rng_handles d 0x2000) (rng_devices example_bus)
     (rng_devices (snd (mmio_dispatch (example_access 0x2000) example_bus)))"
  using mmio_dispatch_isolated [OF example_bus_inv surjective_pairing, of "example_access 0x2000"]
  by (simp add: example_access_def)

text \<open>
  C19. Registration is exact for every kind of device, byte devices, virtio-rng and virtio-blk: it
  succeeds precisely when the range of the device and all registered ranges end below the top of the
  address space and the range is disjoint from the registered ones, and then the bus is the old one
  with the device appended to its kind.  Every registration keeps the bus invariant and never panics,
  and a refused one leaves the bus unchanged.
\<close>

theorem mmio_registration_iff:
  assumes "bus_inv bus"
  shows "(register_virtio_blk_device_at a bus = (Ok (), bus') \<longleftrightarrow> range_free bus (a, 0x1000)
      \<and> bus' = bus\<lparr>blk_devices := blk_devices bus @ [blk_new a]\<rparr>)
    \<and> (register_virtio_rng_device_at a bus = (Ok (), bus') \<longleftrightarrow> range_free bus (a, 0x1000)
      \<and> bus' = bus\<lparr>rng_devices := rng_devices bus @ [rng_new a]\<rparr>)
    \<and> (register_device d bus = (Ok (), bus') \<longleftrightarrow> range_free bus (byte_address_range d)
      \<and> bus' = bus\<lparr>byte_devices := byte_devices bus @ [d]\<rparr>)
    \<and> (register_virtio_blk_device_at a bus = (r, bus'') \<or> register_virtio_rng_device_at a bus = (r, bus'')
       \<or> register_device d bus = (r, bus'')
       \<longrightarrow> bus_inv bus'' \<and> \<not> is_fault r \<and> (r \<noteq> Ok () \<longrightarrow> bus'' = bus))"
proof -
  have free: "ensure_range_available bus (fst q) (snd q) = Ok () \<longleftrightarrow> range_free bus q" for q
    by (simp add: ensure_range_available_Ok range_free_def)
  have "register_virtio_blk_device_at a bus = (Ok (), bus') \<longleftrightarrow> range_free bus (a, 0x1000)
      \<and> bus' = bus\<lparr>blk_devices := blk_devices bus @ [blk_new a]\<rparr>"
    using free [of "(a, 0x1000)"] by (auto simp: register_virtio_blk_device_at_def outcome_simps)
  moreover have "register_virtio_rng_device_at a bus = (Ok (), bus') \<longleftrightarrow> range_free bus (a, 0x1000)
      \<and> bus' = bus\<lparr>rng_devices := rng_devices bus @ [rng_new a]\<rparr>"
    using free [of "(a, 0x1000)"] by (auto simp: register_virtio_rng_device_at_def outcome_simps)
  moreover have "register_device d bus = (Ok (), bus') \<longleftrightarrow> range_free bus (byte_address_range d)
      \<and> bus' = bus\<lparr>byte_devices := byte_devices bus @ [d]\<rparr>"
    using free [of "byte_address_range d"] by (auto simp: register_device_def outcome_simps)
  moreover have "r \<noteq> Ok () \<longrightarrow> bus'' = bus"
    if "register_virtio_blk_device_at a bus = (r, bus'') \<or> register_virtio_rng_device_at a bus = (r, bus'')
       \<or> register_device d bus = (r, bus'')"
    using that
    by (cases r) (auto simp: register_virtio_blk_device_at_def register_virtio_rng_device_at_def
        register_device_def outcome_simps)
  ultimately show ?thesis
    using register_device_inv [OF assms] register_rng_inv [OF assms] register_blk_inv [OF assms]
    by blast
qed

theorem mmio_registration_iff_witness:
  "register_virtio_blk_device_at 0x30000 example_bus
     = (Ok (), example_bus\<lparr>blk_devices := blk_devices example_bus @ [blk_new 0x30000]\<rparr>)"
proof -
  have "range_free example_bus (0x30000, 0x1000)"
    by (simp add: range_free_def example_bus_def registered_ranges_def byte_address_range_def byte_device_new_def
        ranges_disjoint_def)
  with mmio_registration_iff [OF example_bus_inv, of "0x30000"
      "example_bus\<lparr>blk_devices := blk_devices example_bus @ [blk_new 0x30000]\<rparr>"]
  show ?thesis by simp
qed

text \<open>
  C28. A level-triggered device drives its interrupt line consistently: over any sequence of guest
  accesses and polls, the events it produces are asserts and deasserts in turn, the recorded line
  level is the parity of the events delivered, and whenever a poll finds nothing to report the line
  equals the pending flag that the guest reads.
\<close>

theorem level_interrupt_alternates:
  assumes "byte_device_mode d = LevelInterrupt" and "byte_run as d = (es, d')"
  shows "alternating (level_line_asserted d) es
    \<and> level_line_asserted d' = (level_line_asserted d = even (length es))
    \<and> (fst (byte_take_event d') = None \<longleftrightarrow> level_line_asserted d' = level_interrupt_pending d')"
  using level_run [OF assms(2,1)] by (auto simp: byte_take_event_def)

theorem level_interrupt_alternates_witness:
  "fst (byte_run [Access (example_access 0x2000), Poll, Poll, Access (example_access 0x2002), Poll]
     (byte_device_new 0x2000 0 LevelInterrupt))
   = [InterruptLineAssertRequested, InterruptLineDeassertRequested]
   \<and> alternating False (fst (byte_run [Access (example_access 0x2000), Poll, Poll,
        Access (example_access 0x2002), Poll] (byte_device_new 0x2000 0 LevelInterrupt)))"
  using level_interrupt_alternates [of "byte_device_new 0x2000 0 LevelInterrupt"
      "[Access (example_access 0x2000), Poll, Poll, Access (example_access 0x2002), Poll]", OF _ surjective_pairing]
  by (simp add: byte_device_new_def byte_handle_def byte_handle_level_def example_access_def sub_ov_def
      checked_sub_def exact_write_byte_def byte_take_event_def)

text \<open>
  C29. Interrupt routes: a route exists exactly for the eight lines of the master PIC and carries vector
  \<open>0x40 + gsi\<close>; a set of routes is accepted exactly when it is non-empty with distinct device addresses
  and distinct lines, and then every route is the one found for its device.
\<close>

theorem pic_routes_exact:
  "pic_route_new a gsi = (if gsi < 8
     then Ok \<lparr>route_device_address = a, route_gsi = gsi, route_vector = 0x40 + ucast gsi\<rparr>
     else Err (GsiOutsideMasterPic gsi))
   \<and> (pic_routes_new rs = Ok qs \<longleftrightarrow>
        rs \<noteq> [] \<and> distinct (map route_device_address rs) \<and> distinct (map route_gsi rs) \<and> qs = rs)
   \<and> (pic_routes_new rs = Ok qs \<longrightarrow>
        (\<forall>q \<in> set qs. route_for_device (route_device_address q) qs = Some q))"
proof -
  have "find (\<lambda>r. route_device_address r = route_device_address q) xs = Some q"
    if "q \<in> set xs" "distinct (map route_device_address xs)" for q xs
    using that by (induction xs) auto
  then show ?thesis
    by (auto simp: pic_route_new_eq pic_routes_new_def outcome_simps check_routes_Ok route_for_device_def)
qed

theorem pic_routes_exact_witness:
  "pic_routes_new [\<lparr>route_device_address = 0x2000, route_gsi = 5, route_vector = 0x45\<rparr>,
     \<lparr>route_device_address = 0x3000, route_gsi = 6, route_vector = 0x46\<rparr>] = Ok [\<lparr>route_device_address = 0x2000, route_gsi = 5, route_vector = 0x45\<rparr>,
     \<lparr>route_device_address = 0x3000, route_gsi = 6, route_vector = 0x46\<rparr>]
   \<and> route_for_device 0x3000 [\<lparr>route_device_address = 0x2000, route_gsi = 5, route_vector = 0x45\<rparr>,
     \<lparr>route_device_address = 0x3000, route_gsi = 6, route_vector = 0x46\<rparr>]
     = Some \<lparr>route_device_address = 0x3000, route_gsi = 6, route_vector = 0x46\<rparr>"
  using pic_routes_exact [of "0x2000" 5 "[\<lparr>route_device_address = 0x2000, route_gsi = 5, route_vector = 0x45\<rparr>,
     \<lparr>route_device_address = 0x3000, route_gsi = 6, route_vector = 0x46\<rparr>]"
    "[\<lparr>route_device_address = 0x2000, route_gsi = 5, route_vector = 0x45\<rparr>,
     \<lparr>route_device_address = 0x3000, route_gsi = 6, route_vector = 0x46\<rparr>]"]
  by simp

end
