(* ===== verification/Vcpu_Regs.thy ===== *)
theory Vcpu_Regs
  imports Errors
begin

text \<open>
  The register state of a vCPU: KVM's register structures (\<open>src/src/kvm/sys.rs\<close>), the snapshots of the
  general and special registers with their comparison (\<open>src/src/vcpu/register_snapshot.rs\<close>,
  \<open>src/src/vcpu/special_register_snapshot.rs\<close>), restoring them
  (\<open>src/src/vcpu/special_register_restore.rs\<close>), and the mode set-up of \<open>src/src/vcpu.rs\<close>.

  KVM itself is a parameter: \<open>kvm_ops\<close> has the calls that the sources make on the file descriptor of
  a vCPU, over a state of KVM that the development never looks into.

  The main results: a comparison is empty exactly when the snapshots are equal and otherwise lists the
  differing fields with both values, and a restored snapshot is captured again unchanged on every KVM
  that returns the registers it was given.
\<close>

section \<open>KVM's register structures\<close>

record kvm_regs =
  kr_rax :: u64
  kr_rbx :: u64
  kr_rcx :: u64
  kr_rdx :: u64
  kr_rsi :: u64
  kr_rdi :: u64
  kr_rsp :: u64
  kr_rbp :: u64
  kr_r8 :: u64
  kr_r9 :: u64
  kr_r10 :: u64
  kr_r11 :: u64
  kr_r12 :: u64
  kr_r13 :: u64
  kr_r14 :: u64
  kr_r15 :: u64
  kr_rip :: u64
  kr_rflags :: u64

record kvm_segment =
  kseg_base :: u64
  kseg_limit :: u32
  kseg_selector :: u16
  kseg_segment_type :: u8
  kseg_present :: u8
  kseg_dpl :: u8
  kseg_db :: u8
  kseg_s :: u8
  kseg_l :: u8
  kseg_g :: u8
  kseg_avl :: u8
  kseg_unusable :: u8
  kseg_padding :: u8

record kvm_dtable =
  kdt_base :: u64
  kdt_limit :: u16
  kdt_padding :: "u16 list"

record kvm_sregs =
  ks_cs :: kvm_segment
  ks_ds :: kvm_segment
  ks_es :: kvm_segment
  ks_fs :: kvm_segment
  ks_gs :: kvm_segment
  ks_ss :: kvm_segment
  ks_tr :: kvm_segment
  ks_ldt :: kvm_segment
  ks_gdt :: kvm_dtable
  ks_idt :: kvm_dtable
  ks_cr0 :: u64
  ks_cr2 :: u64
  ks_cr3 :: u64
  ks_cr4 :: u64
  ks_cr8 :: u64
  ks_efer :: u64
  ks_apic_base :: u64
  ks_interrupt_bitmap :: "u64 list"

text \<open>A vCPU, and the calls on its file descriptor.\<close>

record 'k vcpu =
  vcpu_id :: u16
  vcpu_fd :: 'k
  vcpu_run :: "u8 list"
  vcpu_supports_internal_error_data :: bool

record 'k kvm_ops =
  kvm_run_vcpu :: "'k \<Rightarrow> u8 list \<Rightarrow> io_error option \<times> 'k \<times> u8 list"
  kvm_get_regs :: "'k \<Rightarrow> io_error + kvm_regs"
  kvm_set_regs :: "kvm_regs \<Rightarrow> 'k \<Rightarrow> io_error option \<times> 'k"
  kvm_get_sregs :: "'k \<Rightarrow> io_error + kvm_sregs"
  kvm_set_sregs :: "kvm_sregs \<Rightarrow> 'k \<Rightarrow> io_error option \<times> 'k"

definition vcpu_operation :: "u16 \<Rightarrow> string \<Rightarrow> io_error \<Rightarrow> vm_error" where
  "vcpu_operation vid operation source = HostEnvironment (VcpuOperation vid operation source)"

definition vcpu_get_regs :: "'k kvm_ops \<Rightarrow> 'k vcpu \<Rightarrow> (kvm_regs, vm_error) outcome" where
  "vcpu_get_regs K v =
     (case kvm_get_regs K (vcpu_fd v) of
        Inl e \<Rightarrow> Err (vcpu_operation (vcpu_id v) ''KVM_GET_REGS'' e) | Inr regs \<Rightarrow> Ok regs)"

definition vcpu_set_regs :: "'k kvm_ops \<Rightarrow> kvm_regs \<Rightarrow> ('k vcpu, unit, vm_error) op" where
  "vcpu_set_regs K regs v =
     (case kvm_set_regs K regs (vcpu_fd v) of
        (Some e, k) \<Rightarrow> (Err (vcpu_operation (vcpu_id v) ''KVM_SET_REGS'' e), v\<lparr>vcpu_fd := k\<rparr>)
      | (None, k) \<Rightarrow> (Ok (), v\<lparr>vcpu_fd := k\<rparr>))"

definition vcpu_get_sregs :: "'k kvm_ops \<Rightarrow> string \<Rightarrow> 'k vcpu \<Rightarrow> (kvm_sregs, vm_error) outcome" where
  "vcpu_get_sregs K operation v =
     (case kvm_get_sregs K (vcpu_fd v) of
        Inl e \<Rightarrow> Err (vcpu_operation (vcpu_id v) operation e) | Inr sregs \<Rightarrow> Ok sregs)"

definition vcpu_set_sregs :: "'k kvm_ops \<Rightarrow> string \<Rightarrow> kvm_sregs \<Rightarrow> ('k vcpu, unit, vm_error) op" where
  "vcpu_set_sregs K operation sregs v =
     (case kvm_set_sregs K sregs (vcpu_fd v) of
        (Some e, k) \<Rightarrow> (Err (vcpu_operation (vcpu_id v) operation e), v\<lparr>vcpu_fd := k\<rparr>)
      | (None, k) \<Rightarrow> (Ok (), v\<lparr>vcpu_fd := k\<rparr>))"

section \<open>General registers\<close>

datatype (plugins only: code) register_field =
    F_Rax | F_Rbx | F_Rcx | F_Rdx | F_Rsi | F_Rdi | F_Rsp | F_Rbp | F_R8
  | F_R9 | F_R10 | F_R11 | F_R12 | F_R13 | F_R14 | F_R15 | F_Rip | F_Rflags

definition REGISTER_FIELDS :: "register_field list" where
  "REGISTER_FIELDS = [F_Rax, F_Rbx, F_Rcx, F_Rdx, F_Rsi, F_Rdi, F_Rsp, F_Rbp, F_R8,
     F_R9, F_R10, F_R11, F_R12, F_R13, F_R14, F_R15, F_Rip, F_Rflags]"

record register_mismatch =
  mm_field :: register_field
  mm_reference :: u64
  mm_observed :: u64

record register_snapshot =
  rs_rax :: u64
  rs_rbx :: u64
  rs_rcx :: u64
  rs_rdx :: u64
  rs_rsi :: u64
  rs_rdi :: u64
  rs_rsp :: u64
  rs_rbp :: u64
  rs_r8 :: u64
  rs_r9 :: u64
  rs_r10 :: u64
  rs_r11 :: u64
  rs_r12 :: u64
  rs_r13 :: u64
  rs_r14 :: u64
  rs_r15 :: u64
  rs_rip :: u64
  rs_rflags :: u64

definition from_kvm_regs :: "kvm_regs \<Rightarrow> register_snapshot" where
  "from_kvm_regs k = \<lparr>rs_rax = kr_rax k, rs_rbx = kr_rbx k, rs_rcx = kr_rcx k, rs_rdx = kr_rdx k,
     rs_rsi = kr_rsi k, rs_rdi = kr_rdi k, rs_rsp = kr_rsp k, rs_rbp = kr_rbp k,
     rs_r8 = kr_r8 k, rs_r9 = kr_r9 k, rs_r10 = kr_r10 k, rs_r11 = kr_r11 k,
     rs_r12 = kr_r12 k, rs_r13 = kr_r13 k, rs_r14 = kr_r14 k, rs_r15 = kr_r15 k,
     rs_rip = kr_rip k, rs_rflags = kr_rflags k\<rparr>"

definition to_kvm_regs :: "register_snapshot \<Rightarrow> kvm_regs" where
  "to_kvm_regs s = \<lparr>kr_rax = rs_rax s, kr_rbx = rs_rbx s, kr_rcx = rs_rcx s, kr_rdx = rs_rdx s,
     kr_rsi = rs_rsi s, kr_rdi = rs_rdi s, kr_rsp = rs_rsp s, kr_rbp = rs_rbp s,
     kr_r8 = rs_r8 s, kr_r9 = rs_r9 s, kr_r10 = rs_r10 s, kr_r11 = rs_r11 s,
     kr_r12 = rs_r12 s, kr_r13 = rs_r13 s, kr_r14 = rs_r14 s, kr_r15 = rs_r15 s,
     kr_rip = rs_rip s, kr_rflags = rs_rflags s\<rparr>"

fun register_value :: "register_snapshot \<Rightarrow> register_field \<Rightarrow> u64" where
  "register_value s F_Rax = rs_rax s"
| "register_value s F_Rbx = rs_rbx s"
| "register_value s F_Rcx = rs_rcx s"
| "register_value s F_Rdx = rs_rdx s"
| "register_value s F_Rsi = rs_rsi s"
| "register_value s F_Rdi = rs_rdi s"
| "register_value s F_Rsp = rs_rsp s"
| "register_value s F_Rbp = rs_rbp s"
| "register_value s F_R8 = rs_r8 s"
| "register_value s F_R9 = rs_r9 s"
| "register_value s F_R10 = rs_r10 s"
| "register_value s F_R11 = rs_r11 s"
| "register_value s F_R12 = rs_r12 s"
| "register_value s F_R13 = rs_r13 s"
| "register_value s F_R14 = rs_r14 s"
| "register_value s F_R15 = rs_r15 s"
| "register_value s F_Rip = rs_rip s"
| "register_value s F_Rflags = rs_rflags s"

record register_comparison =
  cmp_reference :: register_snapshot
  cmp_observed :: register_snapshot
  cmp_mismatches :: "register_mismatch list"

fun register_mismatches :: "register_snapshot \<Rightarrow> register_snapshot \<Rightarrow> register_field list \<Rightarrow> register_mismatch list" where
  "register_mismatches s t [] = []"
| "register_mismatches s t (f # fs) =
     (if register_value s f \<noteq> register_value t f
      then [\<lparr>mm_field = f, mm_reference = register_value s f, mm_observed = register_value t f\<rparr>] else [])
     @ register_mismatches s t fs"

definition register_compare :: "register_snapshot \<Rightarrow> register_snapshot \<Rightarrow> register_comparison" where
  "register_compare s t =
     \<lparr>cmp_reference = s, cmp_observed = t, cmp_mismatches = register_mismatches s t REGISTER_FIELDS\<rparr>"

definition register_exact_match :: "register_comparison \<Rightarrow> bool" where
  "register_exact_match c \<longleftrightarrow> cmp_mismatches c = []"

definition capture_register_snapshot :: "'k kvm_ops \<Rightarrow> 'k vcpu \<Rightarrow> (register_snapshot, vm_error) outcome" where
  "capture_register_snapshot K v = map_ok from_kvm_regs (vcpu_get_regs K v)"

definition restore_register_snapshot :: "'k kvm_ops \<Rightarrow> register_snapshot \<Rightarrow> ('k vcpu, unit, vm_error) op" where
  "restore_register_snapshot K s = vcpu_set_regs K (to_kvm_regs s)"

definition restore_and_verify_register_snapshot ::
  "'k kvm_ops \<Rightarrow> register_snapshot \<Rightarrow> ('k vcpu, register_comparison, vm_error) op" where
  "restore_and_verify_register_snapshot K s =
     op_then (restore_register_snapshot K s) (\<lambda>_ v.
       (map_ok (register_compare s) (capture_register_snapshot K v), v))"

section \<open>Special registers\<close>

datatype (plugins only: code) segment_register = Seg_Cs | Seg_Ds | Seg_Es | Seg_Fs | Seg_Gs | Seg_Ss | Seg_Tr | Seg_Ldt

definition SEGMENT_REGISTERS :: "segment_register list" where
  "SEGMENT_REGISTERS = [Seg_Cs, Seg_Ds, Seg_Es, Seg_Fs, Seg_Gs, Seg_Ss, Seg_Tr, Seg_Ldt]"

datatype (plugins only: code) segment_field =
    Sf_Base | Sf_Limit | Sf_Selector | Sf_SegmentType | Sf_Present | Sf_Dpl
  | Sf_Db | Sf_S | Sf_L | Sf_G | Sf_Avl | Sf_Unusable

definition SEGMENT_FIELDS :: "segment_field list" where
  "SEGMENT_FIELDS = [Sf_Base, Sf_Limit, Sf_Selector, Sf_SegmentType, Sf_Present, Sf_Dpl,
     Sf_Db, Sf_S, Sf_L, Sf_G, Sf_Avl, Sf_Unusable]"

datatype (plugins only: code) table_register = Tab_Gdt | Tab_Idt

definition DESCRIPTOR_TABLE_REGISTERS :: "table_register list" where
  "DESCRIPTOR_TABLE_REGISTERS = [Tab_Gdt, Tab_Idt]"

datatype (plugins only: code) table_field = Tf_Base | Tf_Limit

definition DESCRIPTOR_TABLE_FIELDS :: "table_field list" where
  "DESCRIPTOR_TABLE_FIELDS = [Tf_Base, Tf_Limit]"

datatype (plugins only: code) bitmap_word = Word0 | Word1 | Word2 | Word3

definition INTERRUPT_BITMAP_WORDS :: "bitmap_word list" where
  "INTERRUPT_BITMAP_WORDS = [Word0, Word1, Word2, Word3]"

fun bitmap_index :: "bitmap_word \<Rightarrow> nat" where
  "bitmap_index Word0 = 0"
| "bitmap_index Word1 = 1"
| "bitmap_index Word2 = 2"
| "bitmap_index Word3 = 3"

datatype (plugins only: code) special_field =
    Sp_Segment segment_register segment_field
  | Sp_Table table_register table_field
  | Sp_Cr0 | Sp_Cr2 | Sp_Cr3 | Sp_Cr4 | Sp_Cr8 | Sp_Efer | Sp_ApicBase
  | Sp_InterruptBitmap bitmap_word

record special_mismatch =
  smm_field :: special_field
  smm_reference :: u64
  smm_observed :: u64

definition canonical_segment_type :: "u8 \<Rightarrow> u8 \<Rightarrow> u8" where
  "canonical_segment_type segment_type unusable =
     (if unusable \<noteq> 0 then segment_type AND NOT 1 else segment_type)"

record segment_state =
  seg_base :: u64
  seg_limit :: u32
  seg_selector :: u16
  seg_segment_type :: u8
  seg_present :: u8
  seg_dpl :: u8
  seg_db :: u8
  seg_s :: u8
  seg_l :: u8
  seg_g :: u8
  seg_avl :: u8
  seg_unusable :: u8

definition from_kvm_segment :: "kvm_segment \<Rightarrow> segment_state" where
  "from_kvm_segment k = \<lparr>seg_base = kseg_base k, seg_limit = kseg_limit k, seg_selector = kseg_selector k,
     seg_segment_type = canonical_segment_type (kseg_segment_type k) (kseg_unusable k), seg_present = kseg_present k, seg_dpl = kseg_dpl k,
     seg_db = kseg_db k, seg_s = kseg_s k, seg_l = kseg_l k,
     seg_g = kseg_g k, seg_avl = kseg_avl k, seg_unusable = kseg_unusable k\<rparr>"

fun segment_value :: "segment_state \<Rightarrow> segment_field \<Rightarrow> u64" where
  "segment_value s Sf_Base = seg_base s"
| "segment_value s Sf_Limit = ucast (seg_limit s)"
| "segment_value s Sf_Selector = ucast (seg_selector s)"
| "segment_value s Sf_SegmentType = ucast (seg_segment_type s)"
| "segment_value s Sf_Present = ucast (seg_present s)"
| "segment_value s Sf_Dpl = ucast (seg_dpl s)"
| "segment_value s Sf_Db = ucast (seg_db s)"
| "segment_value s Sf_S = ucast (seg_s s)"
| "segment_value s Sf_L = ucast (seg_l s)"
| "segment_value s Sf_G = ucast (seg_g s)"
| "segment_value s Sf_Avl = ucast (seg_avl s)"
| "segment_value s Sf_Unusable = ucast (seg_unusable s)"

record table_state =
  tab_base :: u64
  tab_limit :: u16

definition from_kvm_dtable :: "kvm_dtable \<Rightarrow> table_state" where
  "from_kvm_dtable k = \<lparr>tab_base = kdt_base k, tab_limit = kdt_limit k\<rparr>"

fun table_value :: "table_state \<Rightarrow> table_field \<Rightarrow> u64" where
  "table_value t Tf_Base = tab_base t"
| "table_value t Tf_Limit = ucast (tab_limit t)"

record special_snapshot =
  sr_cs :: segment_state
  sr_ds :: segment_state
  sr_es :: segment_state
  sr_fs :: segment_state
  sr_gs :: segment_state
  sr_ss :: segment_state
  sr_tr :: segment_state
  sr_ldt :: segment_state
  sr_gdt :: table_state
  sr_idt :: table_state
  sr_cr0 :: u64
  sr_cr2 :: u64
  sr_cr3 :: u64
  sr_cr4 :: u64
  sr_cr8 :: u64
  sr_efer :: u64
  sr_apic_base :: u64
  sr_interrupt_bitmap :: "u64 list"

definition from_kvm_sregs :: "kvm_sregs \<Rightarrow> special_snapshot" where
  "from_kvm_sregs k = \<lparr>sr_cs = from_kvm_segment (ks_cs k), sr_ds = from_kvm_segment (ks_ds k),
     sr_es = from_kvm_segment (ks_es k), sr_fs = from_kvm_segment (ks_fs k),
     sr_gs = from_kvm_segment (ks_gs k), sr_ss = from_kvm_segment (ks_ss k),
     sr_tr = from_kvm_segment (ks_tr k), sr_ldt = from_kvm_segment (ks_ldt k),
     sr_gdt = from_kvm_dtable (ks_gdt k), sr_idt = from_kvm_dtable (ks_idt k),
     sr_cr0 = ks_cr0 k, sr_cr2 = ks_cr2 k,
     sr_cr3 = ks_cr3 k, sr_cr4 = ks_cr4 k,
     sr_cr8 = ks_cr8 k, sr_efer = ks_efer k,
     sr_apic_base = ks_apic_base k, sr_interrupt_bitmap = ks_interrupt_bitmap k\<rparr>"

fun segment_of :: "special_snapshot \<Rightarrow> segment_register \<Rightarrow> segment_state" where
  "segment_of s Seg_Cs = sr_cs s"
| "segment_of s Seg_Ds = sr_ds s"
| "segment_of s Seg_Es = sr_es s"
| "segment_of s Seg_Fs = sr_fs s"
| "segment_of s Seg_Gs = sr_gs s"
| "segment_of s Seg_Ss = sr_ss s"
| "segment_of s Seg_Tr = sr_tr s"
| "segment_of s Seg_Ldt = sr_ldt s"

fun table_of :: "special_snapshot \<Rightarrow> table_register \<Rightarrow> table_state" where
  "table_of s Tab_Gdt = sr_gdt s"
| "table_of s Tab_Idt = sr_idt s"

definition mismatch_if_different :: "special_field \<Rightarrow> u64 \<Rightarrow> u64 \<Rightarrow> special_mismatch list" where
  "mismatch_if_different f a b =
     (if a \<noteq> b then [\<lparr>smm_field = f, smm_reference = a, smm_observed = b\<rparr>] else [])"

record special_comparison =
  scmp_reference :: special_snapshot
  scmp_observed :: special_snapshot
  scmp_mismatches :: "special_mismatch list"

definition segment_mismatches :: "special_snapshot \<Rightarrow> special_snapshot \<Rightarrow> special_mismatch list" where
  "segment_mismatches s t =
     concat (map (\<lambda>r. concat (map (\<lambda>f. mismatch_if_different (Sp_Segment r f)
       (segment_value (segment_of s r) f) (segment_value (segment_of t r) f)) SEGMENT_FIELDS)) SEGMENT_REGISTERS)"

definition table_mismatches :: "special_snapshot \<Rightarrow> special_snapshot \<Rightarrow> special_mismatch list" where
  "table_mismatches s t =
     concat (map (\<lambda>r. concat (map (\<lambda>f. mismatch_if_different (Sp_Table r f)
       (table_value (table_of s r) f) (table_value (table_of t r) f)) DESCRIPTOR_TABLE_FIELDS))
       DESCRIPTOR_TABLE_REGISTERS)"

definition control_mismatches :: "special_snapshot \<Rightarrow> special_snapshot \<Rightarrow> special_mismatch list" where
  "control_mismatches s t =
     concat (map (\<lambda>(f, a, b). mismatch_if_different f a b)
       [(Sp_Cr0, sr_cr0 s, sr_cr0 t), (Sp_Cr2, sr_cr2 s, sr_cr2 t), (Sp_Cr3, sr_cr3 s, sr_cr3 t),
        (Sp_Cr4, sr_cr4 s, sr_cr4 t), (Sp_Cr8, sr_cr8 s, sr_cr8 t), (Sp_Efer, sr_efer s, sr_efer t),
        (Sp_ApicBase, sr_apic_base s, sr_apic_base t)])"

text \<open>The bitmap is an array of four words; indexing it is an access that is checked at run time.\<close>

fun bitmap_mismatches :: "u64 list \<Rightarrow> u64 list \<Rightarrow> bitmap_word list \<Rightarrow> (special_mismatch list, 'e) outcome" where
  "bitmap_mismatches a b [] = Ok []"
| "bitmap_mismatches a b (w # ws) =
     (if bitmap_index w < length a \<and> bitmap_index w < length b
      then map_ok (\<lambda>ms. mismatch_if_different (Sp_InterruptBitmap w) (a ! bitmap_index w) (b ! bitmap_index w) @ ms)
        (bitmap_mismatches a b ws)
      else Fault Index_Out_Of_Range)"

definition special_compare :: "special_snapshot \<Rightarrow> special_snapshot \<Rightarrow> (special_comparison, 'e) outcome" where
  "special_compare s t =
     map_ok (\<lambda>bitmap. \<lparr>scmp_reference = s, scmp_observed = t,
       scmp_mismatches = segment_mismatches s t @ table_mismatches s t @ control_mismatches s t @ bitmap\<rparr>)
       (bitmap_mismatches (sr_interrupt_bitmap s) (sr_interrupt_bitmap t) INTERRUPT_BITMAP_WORDS)"

definition special_exact_match :: "special_comparison \<Rightarrow> bool" where
  "special_exact_match c \<longleftrightarrow> scmp_mismatches c = []"

definition capture_special_register_snapshot :: "'k kvm_ops \<Rightarrow> 'k vcpu \<Rightarrow> (special_snapshot, vm_error) outcome" where
  "capture_special_register_snapshot K v = map_ok from_kvm_sregs (vcpu_get_sregs K ''KVM_GET_SREGS'' v)"

section \<open>Restoring special registers\<close>

definition to_kvm_segment :: "segment_state \<Rightarrow> kvm_segment" where
  "to_kvm_segment s = \<lparr>kseg_base = seg_base s, kseg_limit = seg_limit s, kseg_selector = seg_selector s,
     kseg_segment_type = seg_segment_type s, kseg_present = seg_present s, kseg_dpl = seg_dpl s,
     kseg_db = seg_db s, kseg_s = seg_s s, kseg_l = seg_l s,
     kseg_g = seg_g s, kseg_avl = seg_avl s, kseg_unusable = seg_unusable s,
     kseg_padding = 0\<rparr>"

definition to_kvm_dtable :: "table_state \<Rightarrow> kvm_dtable" where
  "to_kvm_dtable t = \<lparr>kdt_base = tab_base t, kdt_limit = tab_limit t, kdt_padding = [0, 0, 0]\<rparr>"

definition encode_snapshot :: "special_snapshot \<Rightarrow> kvm_sregs" where
  "encode_snapshot s = \<lparr>ks_cs = to_kvm_segment (sr_cs s), ks_ds = to_kvm_segment (sr_ds s),
     ks_es = to_kvm_segment (sr_es s), ks_fs = to_kvm_segment (sr_fs s),
     ks_gs = to_kvm_segment (sr_gs s), ks_ss = to_kvm_segment (sr_ss s),
     ks_tr = to_kvm_segment (sr_tr s), ks_ldt = to_kvm_segment (sr_ldt s),
     ks_gdt = to_kvm_dtable (sr_gdt s), ks_idt = to_kvm_dtable (sr_idt s),
     ks_cr0 = sr_cr0 s, ks_cr2 = sr_cr2 s,
     ks_cr3 = sr_cr3 s, ks_cr4 = sr_cr4 s,
     ks_cr8 = sr_cr8 s, ks_efer = sr_efer s,
     ks_apic_base = sr_apic_base s, ks_interrupt_bitmap = sr_interrupt_bitmap s\<rparr>"

definition restore_special_register_snapshot :: "'k kvm_ops \<Rightarrow> special_snapshot \<Rightarrow> ('k vcpu, unit, vm_error) op" where
  "restore_special_register_snapshot K s = vcpu_set_sregs K ''KVM_SET_SREGS'' (encode_snapshot s)"

definition restore_and_verify_special_register_snapshot ::
  "'k kvm_ops \<Rightarrow> special_snapshot \<Rightarrow> ('k vcpu, special_comparison, vm_error) op" where
  "restore_and_verify_special_register_snapshot K s =
     op_then (restore_special_register_snapshot K s) (\<lambda>_ v.
       (and_then (capture_special_register_snapshot K v) (special_compare s), v))"

definition efer_with_required_bits :: "u64 \<Rightarrow> u64 \<Rightarrow> u64" where
  "efer_with_required_bits current required_bits = current OR required_bits"

definition enable_efer_bits_preserving :: "'k kvm_ops \<Rightarrow> u64 \<Rightarrow> ('k vcpu, u64, vm_error) op" where
  "enable_efer_bits_preserving K required_bits =
     (\<lambda>v. op_then (op_lift (vcpu_get_sregs K ''KVM_GET_SREGS EFER'' v)) (\<lambda>sregs.
      let expected = efer_with_required_bits (ks_efer sregs) required_bits in
      op_then (vcpu_set_sregs K ''KVM_SET_SREGS EFER'' (sregs\<lparr>ks_efer := expected\<rparr>)) (\<lambda>_ v.
      (and_then (vcpu_get_sregs K ''KVM_GET_SREGS EFER readback'' v) (\<lambda>readback.
         if ks_efer readback \<noteq> expected
         then Err (vcpu_operation (vcpu_id v) ''verify KVM_SET_SREGS EFER readback''
           (Custom InvalidData (Message ''expected EFER {expected:#x}, got {observed:#x}''
             [expected, ks_efer readback])))
         else Ok (ks_efer readback)), v))) v)"

section \<open>Real mode\<close>

abbreviation REAL_MODE_MAX_RIP :: u64 where "REAL_MODE_MAX_RIP \<equiv> 0xffff"
abbreviation CR0_PROTECTED_MODE_ENABLE :: u64 where "CR0_PROTECTED_MODE_ENABLE \<equiv> 1"
abbreviation CR0_PAGING_ENABLE :: u64 where "CR0_PAGING_ENABLE \<equiv> 0x80000000"
abbreviation RFLAGS_RESERVED_BIT :: u64 where "RFLAGS_RESERVED_BIT \<equiv> 2"

definition validate_real_mode_entry :: "u64 \<Rightarrow> (u64, vm_error) outcome" where
  "validate_real_mode_entry entry =
     (if REAL_MODE_MAX_RIP < entry
      then Err (Configuration (RealModeEntryOutOfRange entry REAL_MODE_MAX_RIP)) else Ok entry)"

definition initialize_real_mode_segment :: "kvm_segment \<Rightarrow> kvm_segment" where
  "initialize_real_mode_segment s = s\<lparr>kseg_base := 0, kseg_selector := 0\<rparr>"

definition kvm_regs_default :: kvm_regs where
  "kvm_regs_default = \<lparr>kr_rax = 0, kr_rbx = 0, kr_rcx = 0, kr_rdx = 0, kr_rsi = 0, kr_rdi = 0,
     kr_rsp = 0, kr_rbp = 0, kr_r8 = 0, kr_r9 = 0, kr_r10 = 0, kr_r11 = 0,
     kr_r12 = 0, kr_r13 = 0, kr_r14 = 0, kr_r15 = 0, kr_rip = 0, kr_rflags = 0\<rparr>"

definition real_mode_sregs :: "kvm_sregs \<Rightarrow> kvm_sregs" where
  "real_mode_sregs k = k\<lparr>
     ks_cs := initialize_real_mode_segment (ks_cs k), ks_ds := initialize_real_mode_segment (ks_ds k),
     ks_es := initialize_real_mode_segment (ks_es k), ks_fs := initialize_real_mode_segment (ks_fs k),
     ks_gs := initialize_real_mode_segment (ks_gs k), ks_ss := initialize_real_mode_segment (ks_ss k),
     ks_cr0 := ks_cr0 k AND NOT (CR0_PROTECTED_MODE_ENABLE OR CR0_PAGING_ENABLE)\<rparr>"

definition initialize_real_mode :: "'k kvm_ops \<Rightarrow> u64 \<Rightarrow> ('k vcpu, unit, vm_error) op" where
  "initialize_real_mode K entry =
     op_then (op_lift (validate_real_mode_entry entry)) (\<lambda>rip v.
     op_then (op_lift (vcpu_get_sregs K ''KVM_GET_SREGS'' v)) (\<lambda>sregs.
     op_then (vcpu_set_sregs K ''KVM_SET_SREGS'' (real_mode_sregs sregs)) (\<lambda>_.
     vcpu_set_regs K (kvm_regs_default\<lparr>kr_rip := rip, kr_rflags := RFLAGS_RESERVED_BIT\<rparr>))) v)"

record vcpu_registers =
  reg_rip :: u64
  reg_rflags :: u64

definition vcpu_read_registers :: "'k kvm_ops \<Rightarrow> 'k vcpu \<Rightarrow> (vcpu_registers, vm_error) outcome" where
  "vcpu_read_registers K v =
     map_ok (\<lambda>regs. \<lparr>reg_rip = kr_rip regs, reg_rflags = kr_rflags regs\<rparr>) (vcpu_get_regs K v)"

section \<open>Specification\<close>

fun special_value :: "special_snapshot \<Rightarrow> special_field \<Rightarrow> u64" where
  "special_value s (Sp_Segment r f) = segment_value (segment_of s r) f"
| "special_value s (Sp_Table r f) = table_value (table_of s r) f"
| "special_value s Sp_Cr0 = sr_cr0 s"
| "special_value s Sp_Cr2 = sr_cr2 s"
| "special_value s Sp_Cr3 = sr_cr3 s"
| "special_value s Sp_Cr4 = sr_cr4 s"
| "special_value s Sp_Cr8 = sr_cr8 s"
| "special_value s Sp_Efer = sr_efer s"
| "special_value s Sp_ApicBase = sr_apic_base s"
| "special_value s (Sp_InterruptBitmap w) = sr_interrupt_bitmap s ! bitmap_index w"

definition SPECIAL_FIELDS :: "special_field list" where
  "SPECIAL_FIELDS =
     concat (map (\<lambda>r. map (Sp_Segment r) SEGMENT_FIELDS) SEGMENT_REGISTERS)
     @ concat (map (\<lambda>r. map (Sp_Table r) DESCRIPTOR_TABLE_FIELDS) DESCRIPTOR_TABLE_REGISTERS)
     @ [Sp_Cr0, Sp_Cr2, Sp_Cr3, Sp_Cr4, Sp_Cr8, Sp_Efer, Sp_ApicBase]
     @ map Sp_InterruptBitmap INTERRUPT_BITMAP_WORDS"

text \<open>
  What the sources rely on when they restore registers.  \<open>KVM_GET_REGS\<close> returns the registers that
  \<open>KVM_SET_REGS\<close> was given, with the reserved bit 1 of \<open>RFLAGS\<close> set, as it is in every vCPU.
\<close>

definition regs_wf :: "kvm_regs \<Rightarrow> bool" where
  "regs_wf regs \<longleftrightarrow> kr_rflags regs OR RFLAGS_RESERVED_BIT = kr_rflags regs"

definition regs_kept :: "'k kvm_ops \<Rightarrow> bool" where
  "regs_kept K \<longleftrightarrow>
     (\<forall>regs k k'. kvm_set_regs K regs k = (None, k') \<longrightarrow>
        kvm_get_regs K k' = Inr (regs\<lparr>kr_rflags := kr_rflags regs OR RFLAGS_RESERVED_BIT\<rparr>))
     \<and> (\<forall>regs k. kvm_get_regs K k = Inr regs \<longrightarrow> regs_wf regs)"

text \<open>
  \<open>KVM_GET_SREGS\<close> returns the special registers that \<open>KVM_SET_SREGS\<close> was given, up to padding and up
  to bit 0 of the type of a segment that is marked unusable.  The interrupt bitmap has four words, of
  which at most one bit may be set.
\<close>

definition segment_agrees :: "kvm_segment \<Rightarrow> kvm_segment \<Rightarrow> bool" where
  "segment_agrees s t \<longleftrightarrow>
     t = s\<lparr>kseg_segment_type := kseg_segment_type t, kseg_padding := kseg_padding t\<rparr>
     \<and> (if kseg_unusable s = 0 then kseg_segment_type t = kseg_segment_type s
        else kseg_segment_type t AND NOT 1 = kseg_segment_type s AND NOT 1)"

definition dtable_agrees :: "kvm_dtable \<Rightarrow> kvm_dtable \<Rightarrow> bool" where
  "dtable_agrees s t \<longleftrightarrow> kdt_base t = kdt_base s \<and> kdt_limit t = kdt_limit s"

definition sregs_agree :: "kvm_sregs \<Rightarrow> kvm_sregs \<Rightarrow> bool" where
  "sregs_agree s t \<longleftrightarrow>
     list_all (\<lambda>r. segment_agrees (r s) (r t)) [ks_cs, ks_ds, ks_es, ks_fs, ks_gs, ks_ss, ks_tr, ks_ldt]
     \<and> dtable_agrees (ks_gdt s) (ks_gdt t) \<and> dtable_agrees (ks_idt s) (ks_idt t)
     \<and> list_all (\<lambda>r. r t = r s) [ks_cr0, ks_cr2, ks_cr3, ks_cr4, ks_cr8, ks_efer, ks_apic_base]
     \<and> ks_interrupt_bitmap t = ks_interrupt_bitmap s"

definition pending_interrupts :: "u64 list \<Rightarrow> nat list" where
  "pending_interrupts ws = concat (map (\<lambda>w. filter (bit w) [0..<64]) ws)"

definition sregs_wf :: "kvm_sregs \<Rightarrow> bool" where
  "sregs_wf s \<longleftrightarrow> length (ks_interrupt_bitmap s) = 4 \<and> length (pending_interrupts (ks_interrupt_bitmap s)) \<le> 1"

definition sregs_kept :: "'k kvm_ops \<Rightarrow> bool" where
  "sregs_kept K \<longleftrightarrow>
     (\<forall>s k k'. kvm_set_sregs K s k = (None, k') \<longrightarrow> sregs_wf s \<longrightarrow>
        (\<exists>t. kvm_get_sregs K k' = Inr t \<and> sregs_agree s t))
     \<and> (\<forall>s k. kvm_get_sregs K k = Inr s \<longrightarrow> sregs_wf s)"

text \<open>
  A KVM that stores both register files, sets the reserved bit of \<open>RFLAGS\<close>, clears bit 0 of the type of
  unusable segments and refuses a malformed interrupt bitmap.
\<close>

definition clear_accessed :: "kvm_segment \<Rightarrow> kvm_segment" where
  "clear_accessed s = (if kseg_unusable s = 0 then s else s\<lparr>kseg_segment_type := kseg_segment_type s AND NOT 1\<rparr>)"

definition example_kvm :: "(kvm_regs \<times> kvm_sregs) kvm_ops" where
  "example_kvm = \<lparr>kvm_run_vcpu = (\<lambda>k run. (None, k, run)),
     kvm_get_regs = (\<lambda>(r, s). Inr (r\<lparr>kr_rflags := kr_rflags r OR RFLAGS_RESERVED_BIT\<rparr>)),
     kvm_set_regs = (\<lambda>r (_, s). (None, (r, s))),
     kvm_get_sregs = (\<lambda>(r, s). if sregs_wf s then Inr s else Inl (Os_Error 22)),
     kvm_set_sregs = (\<lambda>s (r, s0). if sregs_wf s
       then (None, (r, s\<lparr>ks_tr := clear_accessed (ks_tr s), ks_ldt := clear_accessed (ks_ldt s)\<rparr>))
       else (Some (Os_Error 22), (r, s0)))\<rparr>"

definition example_segment :: kvm_segment where
  "example_segment = \<lparr>kseg_base = 0, kseg_limit = 0xffff, kseg_selector = 8, kseg_segment_type = 3,
     kseg_present = 1, kseg_dpl = 0, kseg_db = 0, kseg_s = 1, kseg_l = 0, kseg_g = 0, kseg_avl = 0,
     kseg_unusable = 0, kseg_padding = 0\<rparr>"

definition example_sregs :: kvm_sregs where
  "example_sregs = \<lparr>ks_cs = example_segment, ks_ds = example_segment, ks_es = example_segment,
     ks_fs = example_segment, ks_gs = example_segment, ks_ss = example_segment,
     ks_tr = example_segment\<lparr>kseg_segment_type := 0xb\<rparr>, ks_ldt = example_segment\<lparr>kseg_unusable := 1\<rparr>,
     ks_gdt = \<lparr>kdt_base = 0x1000, kdt_limit = 0x17, kdt_padding = [0, 0, 0]\<rparr>,
     ks_idt = \<lparr>kdt_base = 0, kdt_limit = 0xffff, kdt_padding = [0, 0, 0]\<rparr>,
     ks_cr0 = 0x11, ks_cr2 = 0, ks_cr3 = 0, ks_cr4 = 0, ks_cr8 = 0, ks_efer = 0, ks_apic_base = 0xfee00900,
     ks_interrupt_bitmap = [0, 0, 0, 0]\<rparr>"

definition example_vcpu :: "(kvm_regs \<times> kvm_sregs) vcpu" where
  "example_vcpu = \<lparr>vcpu_id = 0, vcpu_fd = (kvm_regs_default, example_sregs\<lparr>ks_cr3 := 0x5000\<rparr>),
     vcpu_run = [], vcpu_supports_internal_error_data = True\<rparr>"

section \<open>Lemmas\<close>

subsection \<open>Comparing general registers\<close>

lemma REGISTER_FIELDS_complete: "f \<in> set REGISTER_FIELDS"
  by (cases f) (simp_all add: REGISTER_FIELDS_def)

lemma REGISTER_FIELDS_distinct: "distinct REGISTER_FIELDS"
  by (simp add: REGISTER_FIELDS_def)

lemma register_snapshot_eqI:
  assumes "\<And>f. register_value s f = register_value t f"
  shows "s = t"
  using assms [of F_Rax] assms [of F_Rbx] assms [of F_Rcx] assms [of F_Rdx] assms [of F_Rsi]
    assms [of F_Rdi] assms [of F_Rsp] assms [of F_Rbp] assms [of F_R8] assms [of F_R9] assms [of F_R10]
    assms [of F_R11] assms [of F_R12] assms [of F_R13] assms [of F_R14] assms [of F_R15]
    assms [of F_Rip] assms [of F_Rflags]
  by (cases s; cases t) simp

lemma register_mismatches_eq:
  "register_mismatches s t fs =
     map (\<lambda>f. \<lparr>mm_field = f, mm_reference = register_value s f, mm_observed = register_value t f\<rparr>)
       (filter (\<lambda>f. register_value s f \<noteq> register_value t f) fs)"
  by (induction fs) simp_all

lemma register_exact_match_iff: "register_exact_match (register_compare s t) \<longleftrightarrow> s = t"
proof
  assume "register_exact_match (register_compare s t)"
  then have "\<forall>f \<in> set REGISTER_FIELDS. register_value s f = register_value t f"
    by (simp add: register_exact_match_def register_compare_def register_mismatches_eq filter_empty_conv)
  then show "s = t" by (auto intro: register_snapshot_eqI simp: REGISTER_FIELDS_complete)
qed (simp add: register_exact_match_def register_compare_def register_mismatches_eq)

lemma register_mismatch_iff:
  "m \<in> set (cmp_mismatches (register_compare s t)) \<longleftrightarrow>
     mm_reference m = register_value s (mm_field m) \<and> mm_observed m = register_value t (mm_field m)
     \<and> mm_reference m \<noteq> mm_observed m"
  by (cases m) (auto simp: register_compare_def register_mismatches_eq REGISTER_FIELDS_complete)

lemma from_to_kvm_regs [simp]: "from_kvm_regs (to_kvm_regs s) = s"
  by (cases s) (simp add: from_kvm_regs_def to_kvm_regs_def)

subsection \<open>Comparing special registers\<close>

lemmas special_field_lists = SEGMENT_REGISTERS_def SEGMENT_FIELDS_def DESCRIPTOR_TABLE_REGISTERS_def
  DESCRIPTOR_TABLE_FIELDS_def INTERRUPT_BITMAP_WORDS_def

lemma special_field_lists_complete:
  "set SEGMENT_REGISTERS = UNIV" "set SEGMENT_FIELDS = UNIV" "set DESCRIPTOR_TABLE_REGISTERS = UNIV"
  "set DESCRIPTOR_TABLE_FIELDS = UNIV" "set INTERRUPT_BITMAP_WORDS = UNIV"
proof -
  have "r \<in> set SEGMENT_REGISTERS" for r by (cases r) (simp_all add: SEGMENT_REGISTERS_def)
  then show "set SEGMENT_REGISTERS = UNIV" by auto
  have "f \<in> set SEGMENT_FIELDS" for f by (cases f) (simp_all add: SEGMENT_FIELDS_def)
  then show "set SEGMENT_FIELDS = UNIV" by auto
  have "r \<in> set DESCRIPTOR_TABLE_REGISTERS" for r by (cases r) (simp_all add: DESCRIPTOR_TABLE_REGISTERS_def)
  then show "set DESCRIPTOR_TABLE_REGISTERS = UNIV" by auto
  have "f \<in> set DESCRIPTOR_TABLE_FIELDS" for f by (cases f) (simp_all add: DESCRIPTOR_TABLE_FIELDS_def)
  then show "set DESCRIPTOR_TABLE_FIELDS = UNIV" by auto
  have "w \<in> set INTERRUPT_BITMAP_WORDS" for w by (cases w) (simp_all add: INTERRUPT_BITMAP_WORDS_def)
  then show "set INTERRUPT_BITMAP_WORDS = UNIV" by auto
qed

lemma SPECIAL_FIELDS_complete: "f \<in> set SPECIAL_FIELDS"
  by (cases f) (simp_all add: SPECIAL_FIELDS_def special_field_lists_complete image_iff)

lemma unat_ucast_up:
  "LENGTH('a::len) \<le> LENGTH('b::len) \<Longrightarrow> unat (ucast (x :: 'a word) :: 'b word) = unat x"
  using order.strict_trans2 [OF unat_lt [of x], of "2 ^ LENGTH('b)"]
  by (simp add: unsigned_ucast_eq take_bit_nat_eq_self)

lemma ucast_inject_up:
  "LENGTH('a::len) \<le> LENGTH('b::len) \<Longrightarrow> (ucast (x :: 'a word) :: 'b word) = ucast y \<longleftrightarrow> x = y"
  by (metis unat_ucast_up word_unat_eq_iff)

lemma SPECIAL_FIELDS_distinct: "distinct SPECIAL_FIELDS"
  by (simp add: SPECIAL_FIELDS_def special_field_lists)

lemma concat_map_concat: "concat (map f (concat xss)) = concat (map (\<lambda>xs. concat (map f xs)) xss)"
  by (induction xss) simp_all

lemma concat_mismatches:
  "concat (map (\<lambda>f. mismatch_if_different f (v f) (w f)) fs) =
     map (\<lambda>f. \<lparr>smm_field = f, smm_reference = v f, smm_observed = w f\<rparr>) (filter (\<lambda>f. v f \<noteq> w f) fs)"
  by (induction fs) (simp_all add: mismatch_if_different_def)

lemma bitmap_mismatches_Ok:
  assumes "length a = 4" "length b = 4"
  shows "bitmap_mismatches a b ws =
    Ok (concat (map (\<lambda>w. mismatch_if_different (Sp_InterruptBitmap w) (a ! bitmap_index w) (b ! bitmap_index w)) ws))"
proof (induction ws)
  case (Cons w ws)
  have "bitmap_index w < 4" by (cases w) simp_all
  with Cons assms show ?case by simp
qed simp

lemma special_compare_Ok:
  assumes "length (sr_interrupt_bitmap s) = 4" "length (sr_interrupt_bitmap t) = 4"
  shows "special_compare s t = Ok \<lparr>scmp_reference = s, scmp_observed = t,
    scmp_mismatches =
      map (\<lambda>f. \<lparr>smm_field = f, smm_reference = special_value s f, smm_observed = special_value t f\<rparr>)
        (filter (\<lambda>f. special_value s f \<noteq> special_value t f) SPECIAL_FIELDS)\<rparr>"
proof -
  let ?m = "\<lambda>f. mismatch_if_different f (special_value s f) (special_value t f)"
  have "segment_mismatches s t = concat (map ?m (concat (map (\<lambda>r. map (Sp_Segment r) SEGMENT_FIELDS) SEGMENT_REGISTERS)))"
    by (simp add: segment_mismatches_def concat_map_concat comp_def)
  moreover have "table_mismatches s t = concat (map ?m
      (concat (map (\<lambda>r. map (Sp_Table r) DESCRIPTOR_TABLE_FIELDS) DESCRIPTOR_TABLE_REGISTERS)))"
    by (simp add: table_mismatches_def concat_map_concat comp_def)
  moreover have "control_mismatches s t =
      concat (map ?m [Sp_Cr0, Sp_Cr2, Sp_Cr3, Sp_Cr4, Sp_Cr8, Sp_Efer, Sp_ApicBase])"
    by (simp add: control_mismatches_def)
  ultimately show ?thesis
    unfolding concat_mismatches [symmetric]
    by (simp add: special_compare_def bitmap_mismatches_Ok assms SPECIAL_FIELDS_def comp_def)
qed

lemma segment_state_eqI:
  assumes "\<And>f. segment_value s f = segment_value t f"
  shows "s = t"
proof -
  note widths = ucast_inject_up
  show ?thesis
    using assms [of Sf_Base] assms [of Sf_Limit] assms [of Sf_Selector] assms [of Sf_SegmentType]
      assms [of Sf_Present] assms [of Sf_Dpl] assms [of Sf_Db] assms [of Sf_S] assms [of Sf_L]
      assms [of Sf_G] assms [of Sf_Avl] assms [of Sf_Unusable]
    by (cases s; cases t) (simp add: widths)
qed

lemma table_state_eqI:
  assumes "\<And>f. table_value s f = table_value t f"
  shows "s = t"
  using assms [of Tf_Base] assms [of Tf_Limit] by (cases s; cases t) (simp add: ucast_inject_up)

lemma four_word_eqI:
  assumes "length a = 4" "length b = 4" "\<And>w. a ! bitmap_index w = b ! bitmap_index w"
  shows "a = b"
proof (rule nth_equalityI)
  fix i assume "i < length a"
  with assms(1) have "i = 0 \<or> i = 1 \<or> i = 2 \<or> i = 3" by auto
  with assms(3) [of Word0] assms(3) [of Word1] assms(3) [of Word2] assms(3) [of Word3]
  show "a ! i = b ! i" by auto
qed (simp add: assms)

lemma special_snapshot_eqI:
  assumes "length (sr_interrupt_bitmap s) = 4" "length (sr_interrupt_bitmap t) = 4"
    and same: "\<And>f. special_value s f = special_value t f"
  shows "s = t"
proof -
  have "segment_of s r = segment_of t r" for r
    by (rule segment_state_eqI) (use same [of "Sp_Segment r _"] in simp)
  note segs = this [of Seg_Cs] this [of Seg_Ds] this [of Seg_Es] this [of Seg_Fs] this [of Seg_Gs]
    this [of Seg_Ss] this [of Seg_Tr] this [of Seg_Ldt]
  have "table_of s r = table_of t r" for r
    by (rule table_state_eqI) (use same [of "Sp_Table r _"] in simp)
  note tabs = this [of Tab_Gdt] this [of Tab_Idt]
  have "sr_interrupt_bitmap s = sr_interrupt_bitmap t"
    by (rule four_word_eqI) (use assms(1,2) same [of "Sp_InterruptBitmap _"] in simp_all)
  with segs tabs same [of Sp_Cr0] same [of Sp_Cr2] same [of Sp_Cr3] same [of Sp_Cr4] same [of Sp_Cr8]
    same [of Sp_Efer] same [of Sp_ApicBase]
  show ?thesis by (cases s; cases t) simp
qed

subsection \<open>Restoring\<close>

lemma canonical_segment_type_idem [simp]:
  "canonical_segment_type (canonical_segment_type ty u) u = canonical_segment_type ty u"
  by (simp add: canonical_segment_type_def and.assoc)

lemma from_to_kvm_segment [simp]: "from_kvm_segment (to_kvm_segment (from_kvm_segment k)) = from_kvm_segment k"
  by (simp add: from_kvm_segment_def to_kvm_segment_def)

lemma from_to_kvm_dtable [simp]: "from_kvm_dtable (to_kvm_dtable t) = t"
  by (simp add: from_kvm_dtable_def to_kvm_dtable_def)

lemma from_encode_snapshot [simp]: "from_kvm_sregs (encode_snapshot (from_kvm_sregs k)) = from_kvm_sregs k"
  by (simp add: from_kvm_sregs_def encode_snapshot_def)

lemma segment_agrees_from: "segment_agrees s t \<Longrightarrow> from_kvm_segment t = from_kvm_segment s"
  unfolding segment_agrees_def from_kvm_segment_def canonical_segment_type_def
  by (cases s; cases t) (simp split: if_splits)

lemma sregs_agree_from: "sregs_agree s t \<Longrightarrow> from_kvm_sregs t = from_kvm_sregs s"
  by (simp add: sregs_agree_def from_kvm_sregs_def segment_agrees_from dtable_agrees_def from_kvm_dtable_def)

lemma length_bitmap_from [simp]: "length (sr_interrupt_bitmap (from_kvm_sregs k)) = length (ks_interrupt_bitmap k)"
  by (simp add: from_kvm_sregs_def)

lemma vcpu_calls [simp]:
  "vcpu_set_regs K regs v = (case kvm_set_regs K regs (vcpu_fd v) of (e, k) \<Rightarrow>
     (case e of None \<Rightarrow> Ok () | Some err \<Rightarrow> Err (vcpu_operation (vcpu_id v) ''KVM_SET_REGS'' err), v\<lparr>vcpu_fd := k\<rparr>))"
  "vcpu_set_sregs K operation sregs v = (case kvm_set_sregs K sregs (vcpu_fd v) of (e, k) \<Rightarrow>
     (case e of None \<Rightarrow> Ok () | Some err \<Rightarrow> Err (vcpu_operation (vcpu_id v) operation err), v\<lparr>vcpu_fd := k\<rparr>))"
  by (simp_all add: vcpu_set_regs_def vcpu_set_sregs_def split: prod.splits option.splits)

lemma vcpu_gets [simp]:
  "vcpu_get_regs K v = (case kvm_get_regs K (vcpu_fd v) of
     Inl e \<Rightarrow> Err (vcpu_operation (vcpu_id v) ''KVM_GET_REGS'' e) | Inr regs \<Rightarrow> Ok regs)"
  "vcpu_get_sregs K operation v = (case kvm_get_sregs K (vcpu_fd v) of
     Inl e \<Rightarrow> Err (vcpu_operation (vcpu_id v) operation e) | Inr sregs \<Rightarrow> Ok sregs)"
  by (simp_all add: vcpu_get_regs_def vcpu_get_sregs_def)

lemma regs_keptD: "regs_kept K \<Longrightarrow> kvm_set_regs K regs k = (None, k') \<Longrightarrow> regs_wf regs \<Longrightarrow> kvm_get_regs K k' = Inr regs"
  unfolding regs_kept_def regs_wf_def by simp

lemma regs_kept_wf: "regs_kept K \<Longrightarrow> kvm_get_regs K k = Inr regs \<Longrightarrow> regs_wf regs"
  unfolding regs_kept_def by blast

lemma sregs_keptE:
  assumes "sregs_kept K" and "kvm_set_sregs K s k = (None, k')" and "sregs_wf s"
  obtains t where "kvm_get_sregs K k' = Inr t" "sregs_agree s t"
  using assms unfolding sregs_kept_def by blast

lemma sregs_kept_wf: "sregs_kept K \<Longrightarrow> kvm_get_sregs K k = Inr s \<Longrightarrow> sregs_wf s"
  unfolding sregs_kept_def by blast

lemma sregs_wf_encode [simp]: "sregs_wf (encode_snapshot (from_kvm_sregs k)) = sregs_wf k"
  by (simp add: sregs_wf_def encode_snapshot_def from_kvm_sregs_def)

lemma regs_wf_to_from [simp]: "regs_wf (to_kvm_regs (from_kvm_regs r)) = regs_wf r"
  by (simp add: regs_wf_def to_kvm_regs_def from_kvm_regs_def)

lemma capture_registers_wf:
  "regs_kept K \<Longrightarrow> capture_register_snapshot K v = Ok g \<Longrightarrow> regs_wf (to_kvm_regs g)"
  by (auto simp: capture_register_snapshot_def split: sum.splits dest: regs_kept_wf)

lemma capture_special_Ok:
  assumes "capture_special_register_snapshot K v = Ok s"
  obtains k where "kvm_get_sregs K (vcpu_fd v) = Inr k" "s = from_kvm_sregs k"
  using assms by (auto simp: capture_special_register_snapshot_def split: sum.splits)

lemma restore_and_verify_registers:
  assumes "regs_kept K" and "regs_wf (to_kvm_regs s)"
  shows "restore_and_verify_register_snapshot K s v =
    (case kvm_set_regs K (to_kvm_regs s) (vcpu_fd v) of
       (None, k) \<Rightarrow> (Ok (register_compare s s), v\<lparr>vcpu_fd := k\<rparr>)
     | (Some e, k) \<Rightarrow> (Err (vcpu_operation (vcpu_id v) ''KVM_SET_REGS'' e), v\<lparr>vcpu_fd := k\<rparr>))"
  by (simp add: restore_and_verify_register_snapshot_def restore_register_snapshot_def op_then_def
      capture_register_snapshot_def regs_keptD [OF assms(1) _ assms(2)] split: prod.splits option.splits)

lemma special_compare_self:
  "length (sr_interrupt_bitmap s) = 4 \<Longrightarrow>
     special_compare s s = Ok \<lparr>scmp_reference = s, scmp_observed = s, scmp_mismatches = []\<rparr>"
  by (simp add: special_compare_Ok)

lemma restore_and_verify_specials:
  assumes "sregs_kept K" and "sregs_wf k0" and s: "s = from_kvm_sregs k0"
  shows "restore_and_verify_special_register_snapshot K s v =
      (case kvm_set_sregs K (encode_snapshot s) (vcpu_fd v) of
         (None, k) \<Rightarrow> (Ok \<lparr>scmp_reference = s, scmp_observed = s, scmp_mismatches = []\<rparr>, v\<lparr>vcpu_fd := k\<rparr>)
       | (Some e, k) \<Rightarrow> (Err (vcpu_operation (vcpu_id v) ''KVM_SET_SREGS'' e), v\<lparr>vcpu_fd := k\<rparr>))"
proof -
  have bitmap: "length (sr_interrupt_bitmap s) = 4" using assms(2) by (simp add: s sregs_wf_def)
  obtain e k where set: "kvm_set_sregs K (encode_snapshot s) (vcpu_fd v) = (e, k)" by fastforce
  show ?thesis
  proof (cases e)
    case None
    with set assms obtain t where "kvm_get_sregs K k = Inr t" "sregs_agree (encode_snapshot s) t"
      by (auto elim: sregs_keptE)
    then have "capture_special_register_snapshot K (v\<lparr>vcpu_fd := k\<rparr>) = Ok s"
      by (simp add: capture_special_register_snapshot_def sregs_agree_from s)
    with None set bitmap show ?thesis
      by (simp add: restore_and_verify_special_register_snapshot_def restore_special_register_snapshot_def
          op_then_def special_compare_self)
  next
    case (Some err)
    with set show ?thesis
      by (simp add: restore_and_verify_special_register_snapshot_def restore_special_register_snapshot_def
          op_then_def)
  qed
qed

subsection \<open>An example host\<close>

lemma segment_agrees_refl [simp]: "segment_agrees s s"
  by (simp add: segment_agrees_def)

lemma clear_accessed_agrees [simp]: "segment_agrees s (clear_accessed s)"
  by (cases s) (simp add: segment_agrees_def clear_accessed_def and.assoc)

lemma example_kvm_kept: "regs_kept example_kvm" "sregs_kept example_kvm"
proof -
  show "regs_kept example_kvm" by (auto simp: regs_kept_def regs_wf_def example_kvm_def or.assoc)
  show "sregs_kept example_kvm"
    by (auto simp: sregs_kept_def sregs_wf_def example_kvm_def sregs_agree_def dtable_agrees_def split: if_splits)
qed

lemma example_sregs_wf [simp]: "sregs_wf example_sregs" "sregs_wf (example_sregs\<lparr>ks_cr3 := x\<rparr>)"
  by (simp_all add: sregs_wf_def example_sregs_def pending_interrupts_def)

section \<open>Properties\<close>

text \<open>
  C30. Comparing snapshots is exact: the comparison of two special register snapshots never panics, its
  mismatches are the fields that differ, each once and with both values, and it is an exact match
  precisely when the snapshots are equal; likewise for the general registers.
\<close>

theorem register_comparison_exact:
  assumes "length (sr_interrupt_bitmap s) = 4" and "length (sr_interrupt_bitmap t) = 4"
  shows "\<exists>c. special_compare s t = Ok c \<and> (special_exact_match c \<longleftrightarrow> s = t)
    \<and> distinct (map smm_field (scmp_mismatches c))
    \<and> (\<forall>m. m \<in> set (scmp_mismatches c) \<longleftrightarrow>
         smm_reference m = special_value s (smm_field m) \<and> smm_observed m = special_value t (smm_field m)
         \<and> smm_reference m \<noteq> smm_observed m)
    \<and> (register_exact_match (register_compare g h) \<longleftrightarrow> g = h)
    \<and> distinct (map mm_field (cmp_mismatches (register_compare g h)))
    \<and> (\<forall>m. m \<in> set (cmp_mismatches (register_compare g h)) \<longleftrightarrow>
         mm_reference m = register_value g (mm_field m) \<and> mm_observed m = register_value h (mm_field m)
         \<and> mm_reference m \<noteq> mm_observed m)"
proof -
  let ?diff = "filter (\<lambda>f. special_value s f \<noteq> special_value t f) SPECIAL_FIELDS"
  let ?ms = "map (\<lambda>f. \<lparr>smm_field = f, smm_reference = special_value s f, smm_observed = special_value t f\<rparr>) ?diff"
  have "?ms = [] \<longleftrightarrow> s = t"
    using special_snapshot_eqI [OF assms] SPECIAL_FIELDS_complete by (auto simp: filter_empty_conv)
  moreover have "distinct (map smm_field ?ms)"
    using SPECIAL_FIELDS_distinct by (simp add: comp_def)
  moreover have "m \<in> set ?ms \<longleftrightarrow> smm_reference m = special_value s (smm_field m)
      \<and> smm_observed m = special_value t (smm_field m) \<and> smm_reference m \<noteq> smm_observed m" for m
    using SPECIAL_FIELDS_complete by (cases m) auto
  moreover have "distinct (map mm_field (cmp_mismatches (register_compare g h)))"
    using REGISTER_FIELDS_distinct by (simp add: register_compare_def register_mismatches_eq comp_def)
  ultimately show ?thesis
    by (simp add: special_compare_Ok [OF assms] special_exact_match_def register_exact_match_iff
        register_mismatch_iff)
qed

theorem register_comparison_exact_witness:
  "\<not> register_exact_match (register_compare (from_kvm_regs kvm_regs_default)
       (from_kvm_regs (kvm_regs_default\<lparr>kr_rip := 7\<rparr>)))
   \<and> cmp_mismatches (register_compare (from_kvm_regs kvm_regs_default)
       (from_kvm_regs (kvm_regs_default\<lparr>kr_rip := 7\<rparr>)))
     = [\<lparr>mm_field = F_Rip, mm_reference = 0, mm_observed = 7\<rparr>]
   \<and> (\<exists>c. special_compare (from_kvm_sregs example_sregs) (from_kvm_sregs example_sregs) = (Ok c :: (_, unit) outcome)
        \<and> special_exact_match c)"
  using register_comparison_exact [of "from_kvm_sregs example_sregs" "from_kvm_sregs example_sregs"
      "from_kvm_regs kvm_regs_default" "from_kvm_regs (kvm_regs_default\<lparr>kr_rip := 7\<rparr>)"]
  by (auto simp: example_sregs_def register_compare_def REGISTER_FIELDS_def from_kvm_regs_def
      kvm_regs_default_def)

text \<open>
  C31. Restoring registers: snapshots captured from one vCPU and restored into another verify as exact
  whenever KVM accepts them, and the state captured afterwards is the snapshot.  KVM may choose the
  padding and bit 0 of the type of unusable segments; it is relied on to return every other register
  as given, the type of usable segments and the reserved bit of \<open>RFLAGS\<close> included.
\<close>

theorem register_restore_round_trip:
  assumes "regs_kept K" and "sregs_kept K"
    and "capture_register_snapshot K v = Ok g" and "capture_special_register_snapshot K v = Ok s"
    and "restore_and_verify_special_register_snapshot K s w = (r1, w1)"
    and "restore_and_verify_register_snapshot K g w1 = (r2, w2)"
  shows "(if fst (kvm_set_sregs K (encode_snapshot s) (vcpu_fd w)) = None
          then capture_special_register_snapshot K w1 = Ok s
            \<and> (\<exists>c. r1 = Ok c \<and> special_exact_match c \<and> scmp_observed c = s)
          else \<exists>e. r1 = Err e)
    \<and> (if fst (kvm_set_regs K (to_kvm_regs g) (vcpu_fd w1)) = None
       then capture_register_snapshot K w2 = Ok g
         \<and> (\<exists>c. r2 = Ok c \<and> register_exact_match c \<and> cmp_observed c = g)
       else \<exists>e. r2 = Err e)"
proof -
  obtain k0 where k0: "kvm_get_sregs K (vcpu_fd v) = Inr k0" and s: "s = from_kvm_sregs k0"
    using assms(4) by (rule capture_special_Ok)
  have wf: "sregs_wf k0" "regs_wf (to_kvm_regs g)"
    using sregs_kept_wf [OF assms(2) k0] capture_registers_wf [OF assms(1,3)] by simp_all
  have "capture_special_register_snapshot K w1 = Ok s" if "kvm_set_sregs K (encode_snapshot s) (vcpu_fd w) = (None, k)"
    "w1 = w\<lparr>vcpu_fd := k\<rparr>" for k
    using that wf(1) by (auto simp: capture_special_register_snapshot_def s sregs_agree_from
        elim!: sregs_keptE [OF assms(2)])
  moreover have "capture_register_snapshot K w2 = Ok g" if "kvm_set_regs K (to_kvm_regs g) (vcpu_fd w1) = (None, k)"
    "w2 = w1\<lparr>vcpu_fd := k\<rparr>" for k
    using that wf(2) by (simp add: capture_register_snapshot_def regs_keptD [OF assms(1)])
  moreover have "register_exact_match (register_compare g g)"
    by (simp add: register_exact_match_iff)
  ultimately show ?thesis
    using assms(5,6)
    by (auto simp: restore_and_verify_specials [OF assms(2) wf(1) s] restore_and_verify_registers [OF assms(1) wf(2)]
        special_exact_match_def register_compare_def split: prod.splits option.splits)
qed

theorem register_restore_round_trip_witness:
  "capture_special_register_snapshot example_kvm
     (snd (restore_and_verify_special_register_snapshot example_kvm
       (from_kvm_sregs example_sregs) example_vcpu))
   = Ok (from_kvm_sregs example_sregs)"
  using register_restore_round_trip [of example_kvm "example_vcpu\<lparr>vcpu_fd := (kvm_regs_default, example_sregs)\<rparr>"
      "from_kvm_regs (kvm_regs_default\<lparr>kr_rflags := RFLAGS_RESERVED_BIT\<rparr>)" "from_kvm_sregs example_sregs" example_vcpu,
      OF example_kvm_kept]
  by (simp add: example_kvm_def capture_register_snapshot_def kvm_regs_default_def
      capture_special_register_snapshot_def split_def prod_eq_iff)

end
