(* ===== verification/Vm_Exec.thy ===== *)
theory Vm_Exec
  imports Port_Io Mmio_Bus Vcpu_Regs
begin

text \<open>
  The run loop of a virtual CPU: \<open>Vcpu::run_once\<close> (\<open>vcpu.rs\<close>), the dispatch of one exit (\<open>vmexit.rs\<close>)
  and \<open>run_vcpu_until_stopped\<close> with its exit budget (\<open>execution.rs\<close>).  The state is the vCPU with its
  shared page, the port I/O bus and the MMIO bus; \<open>KVM_RUN\<close> and the observer closure are parameters,
  and both may change the kernel side of the vCPU (guest RAM included), which is the type \<open>'k\<close>.
  \<open>None\<close> is the result of a loop that never returns.
\<close>

section \<open>One run of the vCPU\<close>

text \<open>\<open>io::ErrorKind::Interrupted\<close> is the kind of \<open>EINTR\<close>.\<close>

definition EINTR :: int where "EINTR = 4"

definition interrupted :: "io_error \<Rightarrow> bool" where
  "interrupted e \<longleftrightarrow> e = Os_Error EINTR"

partial_function (option) run_once ::
  "'k kvm_ops \<Rightarrow> 'k vcpu \<Rightarrow> ((vcpu_exit, vm_error) outcome \<times> 'k vcpu) option" where
  "run_once K v =
     (case kvm_run_vcpu K (vcpu_fd v) (vcpu_run v) of (r, k, page) \<Rightarrow>
        (case r of
           None \<Rightarrow> Some (map_ok exit_from_raw (run_exit_reason page), v\<lparr>vcpu_fd := k, vcpu_run := page\<rparr>)
         | Some e \<Rightarrow>
             if interrupted e then run_once K (v\<lparr>vcpu_fd := k, vcpu_run := page\<rparr>)
             else Some (Err (vcpu_operation (vcpu_id v) ''KVM_RUN'' e), v\<lparr>vcpu_fd := k, vcpu_run := page\<rparr>)))"

section \<open>Dispatching one exit\<close>

record vm_exit_report =
  report_vcpu_id :: u16
  report_exit :: vcpu_exit
  report_rip :: u64
  report_rflags :: u64

datatype (plugins only: code) vm_exit_continuation = Cont_PortIo port_io_exit | Cont_Mmio mmio_exit

datatype (plugins only: code) vm_exit_disposition = Continue vm_exit_continuation | Stopped vm_exit_report

record 'k vm_state =
  exec_vcpu :: "'k vcpu"
  exec_port_io :: port_io_bus
  exec_mmio :: mmio_bus

text \<open>Running an operation of one part on the whole state.\<close>

definition on_vcpu :: "('k vcpu \<Rightarrow> ('a, 'e) outcome) \<Rightarrow> ('k vm_state, 'a, 'e) op" where
  "on_vcpu f s = (f (exec_vcpu s), s)"

definition on_page :: "(u16 \<Rightarrow> (u8 list, 'a, 'e) op) \<Rightarrow> ('k vm_state, 'a, 'e) op" where
  "on_page f s =
     (case f (vcpu_id (exec_vcpu s)) (vcpu_run (exec_vcpu s)) of
        (r, page) \<Rightarrow> (r, s\<lparr>exec_vcpu := (exec_vcpu s)\<lparr>vcpu_run := page\<rparr>\<rparr>))"

definition on_port_io :: "(port_io_bus, 'a, 'e) op \<Rightarrow> ('k vm_state, 'a, 'e) op" where
  "on_port_io f s = (case f (exec_port_io s) of (r, bus) \<Rightarrow> (r, s\<lparr>exec_port_io := bus\<rparr>))"

definition on_mmio :: "(mmio_bus, 'a, 'e) op \<Rightarrow> ('k vm_state, 'a, 'e) op" where
  "on_mmio f s = (case f (exec_mmio s) of (r, bus) \<Rightarrow> (r, s\<lparr>exec_mmio := bus\<rparr>))"

definition stopped_report :: "u16 \<Rightarrow> vcpu_exit \<Rightarrow> vcpu_registers \<Rightarrow> (vm_exit_report, 'e) outcome" where
  "stopped_report vid exit registers =
     and_then (debug_assert (exit = Ex_Debug \<or> exit = Ex_Hlt \<or> exit = Ex_Shutdown)) (\<lambda>_.
     Ok \<lparr>report_vcpu_id = vid, report_exit = exit, report_rip = reg_rip registers,
         report_rflags = reg_rflags registers\<rparr>)"

definition kvm_unknown_exit :: "u16 \<Rightarrow> u64 \<Rightarrow> vm_error" where
  "kvm_unknown_exit vid reason = VmExit (Exit_KvmUnknownExit vid reason [exit_reason Ex_KvmUnknown])"

definition exception_exit :: "u16 \<Rightarrow> u32 \<Rightarrow> u32 \<Rightarrow> vm_error" where
  "exception_exit vid exception code = VmExit (Exit_Exception vid exception code [exit_reason Ex_Exception])"

definition entry_failure :: "u16 \<Rightarrow> u64 \<Rightarrow> u32 \<Rightarrow> vm_error" where
  "entry_failure vid reason cpu = VmExit (Exit_EntryFailure vid reason cpu [exit_reason Ex_FailEntry])"

definition internal_error :: "u16 \<Rightarrow> u32 \<Rightarrow> u64 list option \<Rightarrow> vm_error" where
  "internal_error vid suberror data =
     VmExit (Exit_InternalError vid suberror data [exit_reason Ex_InternalError])"

definition unsupported_system_event :: "u16 \<Rightarrow> system_event_type \<Rightarrow> u64 list \<Rightarrow> vcpu_registers \<Rightarrow> vm_error" where
  "unsupported_system_event vid event_type data registers =
     VmExit (Exit_UnsupportedSystemEvent vid (system_event_raw event_type) data (reg_rip registers)
       (reg_rflags registers) [exit_reason Ex_SystemEvent])"

definition unhandled_exit :: "u16 \<Rightarrow> u32 \<Rightarrow> vcpu_registers \<Rightarrow> vm_error" where
  "unhandled_exit vid reason registers =
     VmExit (Exit_Unhandled vid reason (reg_rip registers) (reg_rflags registers) [reason])"

definition stop_vcpu :: "'k kvm_ops \<Rightarrow> vcpu_exit \<Rightarrow> 'k vcpu \<Rightarrow> (vm_exit_disposition, vm_error) outcome" where
  "stop_vcpu K exit v =
     and_then (vcpu_read_registers K v) (\<lambda>registers.
     map_ok Stopped (stopped_report (vcpu_id v) exit registers))"

definition respond_port_io :: "port_io_service \<Rightarrow> ('k vm_state, unit, vm_error) op" where
  "respond_port_io service =
     (case service of
        Port_Output \<Rightarrow> op_return ()
      | Port_Input response \<Rightarrow> on_page (\<lambda>vid. run_write_port_io_input vid response))"

definition respond_mmio :: "mmio_service \<Rightarrow> ('k vm_state, unit, vm_error) op" where
  "respond_mmio service =
     (case service of
        Service_Write \<Rightarrow> op_return ()
      | Service_Read response \<Rightarrow> on_page (\<lambda>vid. run_write_mmio_read_response vid response))"

definition dispatch_vcpu_exit ::
  "'k kvm_ops \<Rightarrow> vcpu_exit \<Rightarrow> ('k vm_state, vm_exit_disposition, vm_error) op" where
  "dispatch_vcpu_exit K exit =
     (case exit of
        Ex_Io \<Rightarrow>
          op_then (on_vcpu (\<lambda>v. run_port_io_exit (vcpu_id v) (vcpu_run v))) (\<lambda>io.
          op_then (on_port_io (port_dispatch io)) (\<lambda>service.
          op_then (respond_port_io service) (\<lambda>_.
          op_return (Continue (Cont_PortIo io)))))
      | Ex_Mmio \<Rightarrow>
          op_then (on_vcpu (\<lambda>v. run_mmio_exit (vcpu_id v) (vcpu_run v))) (\<lambda>access.
          op_then (on_mmio (mmio_dispatch access)) (\<lambda>service.
          op_then (respond_mmio service) (\<lambda>_.
          op_return (Continue (Cont_Mmio access)))))
      | Ex_Debug \<Rightarrow> on_vcpu (stop_vcpu K exit)
      | Ex_Hlt \<Rightarrow> on_vcpu (stop_vcpu K exit)
      | Ex_Shutdown \<Rightarrow> on_vcpu (stop_vcpu K exit)
      | Ex_KvmUnknown \<Rightarrow> on_vcpu (\<lambda>v.
          and_then (run_kvm_unknown_exit (vcpu_id v) (vcpu_run v)) (\<lambda>reason.
          Err (kvm_unknown_exit (vcpu_id v) reason)))
      | Ex_Exception \<Rightarrow> on_vcpu (\<lambda>v.
          and_then (run_exception (vcpu_id v) (vcpu_run v)) (\<lambda>x.
          Err (exception_exit (vcpu_id v) (exc_exception x) (exc_error_code x))))
      | Ex_FailEntry \<Rightarrow> on_vcpu (\<lambda>v.
          and_then (run_fail_entry (vcpu_id v) (vcpu_run v)) (\<lambda>x.
          Err (entry_failure (vcpu_id v) (fail_hardware_reason x) (fail_cpu x))))
      | Ex_InternalError \<Rightarrow> on_vcpu (\<lambda>v.
          and_then (run_internal_error (vcpu_id v) (vcpu_supports_internal_error_data v) (vcpu_run v)) (\<lambda>x.
          and_then (internal_error_data x) (\<lambda>data.
          Err (internal_error (vcpu_id v) (ie_suberror x) data))))
      | Ex_SystemEvent \<Rightarrow> on_vcpu (\<lambda>v.
          and_then (run_system_event (vcpu_id v) (vcpu_run v)) (\<lambda>event.
          and_then (vcpu_read_registers K v) (\<lambda>registers.
          Err (unsupported_system_event (vcpu_id v) (sys_event_type event) (sys_event_data event) registers))))
      | Ex_Unhandled reason \<Rightarrow> on_vcpu (\<lambda>v.
          and_then (vcpu_read_registers K v) (\<lambda>registers.
          Err (unhandled_exit (vcpu_id v) reason registers))))"

section \<open>The run loop\<close>

record exit_budget =
  budget_vcpu_id :: u16
  budget_limit :: u32
  budget_completed :: u32
  budget_last_exit_reason :: "u32 option"

definition exit_budget_new :: "u16 \<Rightarrow> u32 \<Rightarrow> exit_budget" where
  "exit_budget_new vid limit =
     \<lparr>budget_vcpu_id = vid, budget_limit = limit, budget_completed = 0, budget_last_exit_reason = None\<rparr>"

text \<open>\<open>slice.last().copied()\<close>.\<close>

definition last_copied :: "'a list \<Rightarrow> 'a option" where
  "last_copied xs = (if xs = [] then None else Some (last xs))"

definition ensure_run_allowed :: "exit_budget \<Rightarrow> u32 list \<Rightarrow> (unit, vm_error) outcome" where
  "ensure_run_allowed b exit_reasons =
     and_then (debug_assert (length exit_reasons = unat (budget_completed b))) (\<lambda>_.
     and_then (debug_assert (last_copied exit_reasons = budget_last_exit_reason b)) (\<lambda>_.
     if budget_completed b < budget_limit b then Ok ()
     else Err (VmExit (Exit_ExitBudgetExhausted (budget_vcpu_id b) (budget_limit b) (budget_completed b)
       (budget_last_exit_reason b) exit_reasons))))"

definition budget_record :: "u32 \<Rightarrow> exit_budget \<Rightarrow> (exit_budget, 'e) outcome" where
  "budget_record reason b =
     and_then (debug_assert (budget_completed b < budget_limit b)) (\<lambda>_.
     and_then (add_ov (budget_completed b) 1) (\<lambda>completed.
     Ok (b\<lparr>budget_completed := completed, budget_last_exit_reason := Some reason\<rparr>)))"

definition record_completed_exit ::
  "u32 \<Rightarrow> exit_budget \<times> u32 list \<Rightarrow> (exit_budget \<times> u32 list, 'e) outcome" where
  "record_completed_exit reason = (\<lambda>(b, exit_reasons).
     and_then (budget_record reason b) (\<lambda>b'.
     and_then (debug_assert (length (exit_reasons @ [reason]) = unat (budget_completed b'))) (\<lambda>_.
     Ok (b', exit_reasons @ [reason]))))"

text \<open>Errors that carry the exits so far get the complete list.\<close>

definition attach_completed_exit_trace :: "u32 list \<Rightarrow> vm_error \<Rightarrow> (vm_error, 'e) outcome" where
  "attach_completed_exit_trace exit_reasons error =
     (let traced = \<lambda>reason e. and_then (debug_assert (last_copied exit_reasons = Some reason)) (\<lambda>_. Ok (VmExit e)) in
      case error of
        VmExit (Exit_Unhandled vid reason rip rflags _) \<Rightarrow>
          traced reason (Exit_Unhandled vid reason rip rflags exit_reasons)
      | VmExit (Exit_KvmUnknownExit vid reason _) \<Rightarrow>
          traced (exit_reason Ex_KvmUnknown) (Exit_KvmUnknownExit vid reason exit_reasons)
      | VmExit (Exit_Exception vid exception code _) \<Rightarrow>
          traced (exit_reason Ex_Exception) (Exit_Exception vid exception code exit_reasons)
      | VmExit (Exit_EntryFailure vid reason cpu _) \<Rightarrow>
          traced (exit_reason Ex_FailEntry) (Exit_EntryFailure vid reason cpu exit_reasons)
      | VmExit (Exit_InternalError vid suberror data _) \<Rightarrow>
          traced (exit_reason Ex_InternalError) (Exit_InternalError vid suberror data exit_reasons)
      | VmExit (Exit_InvalidInternalErrorDataCount vid suberror ndata capacity _) \<Rightarrow>
          traced (exit_reason Ex_InternalError)
            (Exit_InvalidInternalErrorDataCount vid suberror ndata capacity exit_reasons)
      | VmExit (Exit_UnsupportedSystemEvent vid event_type data rip rflags _) \<Rightarrow>
          traced (exit_reason Ex_SystemEvent)
            (Exit_UnsupportedSystemEvent vid event_type data rip rflags exit_reasons)
      | VmExit (Exit_InvalidSystemEventDataCount vid ndata capacity _) \<Rightarrow>
          traced (exit_reason Ex_SystemEvent) (Exit_InvalidSystemEventDataCount vid ndata capacity exit_reasons)
      | error \<Rightarrow> Ok error)"

text \<open>\<open>map_err(|error| attach_completed_exit_trace(error, ..))\<close>.\<close>

fun with_trace :: "u32 list \<Rightarrow> ('a, vm_error) outcome \<Rightarrow> ('a, vm_error) outcome" where
  "with_trace exit_reasons (Ok x) = Ok x"
| "with_trace exit_reasons (Err e) = and_then (attach_completed_exit_trace exit_reasons e) Err"
| "with_trace exit_reasons (Fault p) = Fault p"

definition op_with_trace :: "u32 list \<Rightarrow> ('s, 'a, vm_error) op \<Rightarrow> ('s, 'a, vm_error) op" where
  "op_with_trace exit_reasons m s = (case m s of (r, s') \<Rightarrow> (with_trace exit_reasons r, s'))"

type_synonym 'k observer = "vm_exit_continuation \<Rightarrow> mmio_bus \<Rightarrow> 'k \<Rightarrow> (unit, vm_error) outcome \<times> mmio_bus \<times> 'k"

definition observe :: "'k observer \<Rightarrow> vm_exit_continuation \<Rightarrow> ('k vm_state, unit, vm_error) op" where
  "observe obs c s =
     (case obs c (exec_mmio s) (vcpu_fd (exec_vcpu s)) of
        (r, bus, k) \<Rightarrow> (r, s\<lparr>exec_mmio := bus, exec_vcpu := (exec_vcpu s)\<lparr>vcpu_fd := k\<rparr>\<rparr>))"

record vm_execution_result =
  result_report :: vm_exit_report
  result_io_exits :: "port_io_exit list"
  result_mmio_exits :: "mmio_exit list"
  result_exit_reasons :: "u32 list"
  result_completed_exits :: u32

text \<open>The local variables of the loop.\<close>

record run_locals =
  loc_budget :: exit_budget
  loc_io_exits :: "port_io_exit list"
  loc_mmio_exits :: "mmio_exit list"
  loc_exit_reasons :: "u32 list"

definition push_continuation :: "vm_exit_continuation \<Rightarrow> run_locals \<Rightarrow> run_locals" where
  "push_continuation c l =
     (case c of
        Cont_PortIo io \<Rightarrow> l\<lparr>loc_io_exits := loc_io_exits l @ [io]\<rparr>
      | Cont_Mmio access \<Rightarrow> l\<lparr>loc_mmio_exits := loc_mmio_exits l @ [access]\<rparr>)"

text \<open>An exit after \<open>KVM_RUN\<close> returned: it is recorded, dispatched and observed.\<close>

definition observe_disposition ::
  "'k observer \<Rightarrow> run_locals \<Rightarrow> vm_exit_disposition \<Rightarrow>
     ('k vm_state, run_locals \<times> vm_exit_disposition, vm_error) op" where
  "observe_disposition obs l disposition =
     (case disposition of
        Continue c \<Rightarrow>
          op_then (op_with_trace (loc_exit_reasons l) (observe obs c)) (\<lambda>_.
          op_return (push_continuation c l, disposition))
      | Stopped report \<Rightarrow> op_return (l, disposition))"

definition handle_exit ::
  "'k kvm_ops \<Rightarrow> 'k observer \<Rightarrow> vcpu_exit \<Rightarrow> run_locals \<Rightarrow>
     ('k vm_state, run_locals \<times> vm_exit_disposition, vm_error) op" where
  "handle_exit K obs exit l =
     op_then (op_lift (record_completed_exit (exit_reason exit) (loc_budget l, loc_exit_reasons l))) (\<lambda>(b, reasons).
     op_then (op_with_trace reasons (dispatch_vcpu_exit K exit))
       (observe_disposition obs (l\<lparr>loc_budget := b, loc_exit_reasons := reasons\<rparr>)))"

definition finish_run :: "run_locals \<Rightarrow> vm_exit_report \<Rightarrow> (vm_execution_result, vm_error) outcome" where
  "finish_run l report =
     and_then (debug_assert (length (loc_exit_reasons l) = unat (budget_completed (loc_budget l)))) (\<lambda>_.
     and_then (debug_assert (last_copied (loc_exit_reasons l) = Some (exit_reason (report_exit report)))) (\<lambda>_.
     Ok \<lparr>result_report = report, result_io_exits = loc_io_exits l, result_mmio_exits = loc_mmio_exits l,
         result_exit_reasons = loc_exit_reasons l, result_completed_exits = budget_completed (loc_budget l)\<rparr>))"

text \<open>One iteration up to the disposition of the exit; \<open>None\<close> when \<open>KVM_RUN\<close> is interrupted for ever.\<close>

definition run_iteration ::
  "'k kvm_ops \<Rightarrow> 'k observer \<Rightarrow> run_locals \<Rightarrow> 'k vm_state \<Rightarrow>
     ((run_locals \<times> vm_exit_disposition, vm_error) outcome \<times> 'k vm_state) option" where
  "run_iteration K obs l s =
     (case ensure_run_allowed (loc_budget l) (loc_exit_reasons l) of
        Err e \<Rightarrow> Some (Err e, s)
      | Fault p \<Rightarrow> Some (Fault p, s)
      | Ok _ \<Rightarrow>
          (case run_once K (exec_vcpu s) of
             None \<Rightarrow> None
           | Some (r, v) \<Rightarrow>
               Some (op_then (op_lift r) (\<lambda>exit. handle_exit K obs exit l) (s\<lparr>exec_vcpu := v\<rparr>))))"

function run_loop ::
  "'k kvm_ops \<Rightarrow> 'k observer \<Rightarrow> run_locals \<Rightarrow> 'k vm_state \<Rightarrow>
     ((vm_execution_result, vm_error) outcome \<times> 'k vm_state) option" where
  "run_loop K obs l s =
     (case run_iteration K obs l s of
        None \<Rightarrow> None
      | Some (Ok (l', Continue c), s') \<Rightarrow> run_loop K obs l' s'
      | Some (Ok (l', Stopped report), s') \<Rightarrow> Some (finish_run l' report, s')
      | Some (Err e, s') \<Rightarrow> Some (Err e, s')
      | Some (Fault p, s') \<Rightarrow> Some (Fault p, s'))"
  by pat_completeness auto
termination
proof (relation "measure (\<lambda>(K, obs, l, s). unat (budget_limit (loc_budget l)) - unat (budget_completed (loc_budget l)))")
  fix K :: "'k kvm_ops" and obs :: "'k observer" and l l' s s' c x y p q
  assume "run_iteration K obs l s = Some x" "(y, s') = x" "y = Ok p" "(l', q) = p" "q = Continue c"
  then obtain exit b reasons d u where "(Ok (b, reasons) :: (_, vm_error) outcome)
      = record_completed_exit (exit_reason exit) (loc_budget l, loc_exit_reasons l)"
    and "observe_disposition obs (l\<lparr>loc_budget := b, loc_exit_reasons := reasons\<rparr>) d u = (Ok (l', Continue c), s')"
    by (auto simp: run_iteration_def handle_exit_def outcome_simps split: outcome.splits option.splits prod.splits)
  moreover from this(2) have "loc_budget l' = b"
    by (cases d) (auto simp: observe_disposition_def push_continuation_def op_return_def outcome_simps
        split: vm_exit_continuation.splits)
  moreover from calculation(1) have "budget_limit b = budget_limit (loc_budget l)"
    "budget_completed (loc_budget l) < budget_limit (loc_budget l)"
    "unat (budget_completed b) = unat (budget_completed (loc_budget l)) + 1"
    by (auto simp: record_completed_exit_def budget_record_def outcome_simps unat_word_ariths dest!: sym [of "Ok _"])
  ultimately show "((K, obs, l', s'), K, obs, l, s) \<in> measure (\<lambda>(K, obs, l, s).
      unat (budget_limit (loc_budget l)) - unat (budget_completed (loc_budget l)))"
    by (simp add: word_less_nat_alt)
qed simp

definition run_vcpu_until_stopped_with_mmio_observer ::
  "'k kvm_ops \<Rightarrow> 'k observer \<Rightarrow> u32 \<Rightarrow> 'k vm_state \<Rightarrow>
     ((vm_execution_result, vm_error) outcome \<times> 'k vm_state) option" where
  "run_vcpu_until_stopped_with_mmio_observer K obs exit_budget s =
     run_loop K obs \<lparr>loc_budget = exit_budget_new (vcpu_id (exec_vcpu s)) exit_budget, loc_io_exits = [],
       loc_mmio_exits = [], loc_exit_reasons = []\<rparr> s"

definition run_vcpu_until_stopped_with_mmio ::
  "'k kvm_ops \<Rightarrow> u32 \<Rightarrow> 'k vm_state \<Rightarrow> ((vm_execution_result, vm_error) outcome \<times> 'k vm_state) option" where
  "run_vcpu_until_stopped_with_mmio K =
     run_vcpu_until_stopped_with_mmio_observer K (\<lambda>c bus k. (Ok (), bus, k))"

definition run_vcpu_until_stopped ::
  "'k kvm_ops \<Rightarrow> u32 \<Rightarrow> 'k vcpu \<times> port_io_bus \<Rightarrow>
     ((vm_execution_result, vm_error) outcome \<times> 'k vcpu \<times> port_io_bus) option" where
  "run_vcpu_until_stopped K exit_budget = (\<lambda>(v, port_io).
     map_option (\<lambda>(r, s). (r, exec_vcpu s, exec_port_io s))
       (run_vcpu_until_stopped_with_mmio K exit_budget
         \<lparr>exec_vcpu = v, exec_port_io = port_io, exec_mmio = bus_empty\<rparr>))"

section \<open>Specification\<close>

text \<open>\<open>KVM_RUN\<close> called again after each interruption returns at last.\<close>

inductive kvm_run_returns :: "'k kvm_ops \<Rightarrow> 'k \<Rightarrow> u8 list \<Rightarrow> bool" for K where
  returned: "kvm_run_vcpu K k page = (r, k', page') \<Longrightarrow> (\<And>e. r = Some e \<Longrightarrow> \<not> interrupted e)
    \<Longrightarrow> kvm_run_returns K k page"
| again: "kvm_run_vcpu K k page = (Some e, k', page') \<Longrightarrow> interrupted e \<Longrightarrow> kvm_run_returns K k' page'
    \<Longrightarrow> kvm_run_returns K k page"

text \<open>One served exit, and sequences of them, without any budget or trace.\<close>

definition serves_exit ::
  "'k kvm_ops \<Rightarrow> 'k observer \<Rightarrow> 'k vm_state \<Rightarrow> vm_exit_continuation \<Rightarrow> 'k vm_state \<Rightarrow> bool" where
  "serves_exit K obs s c t \<longleftrightarrow> (\<exists>exit v u. run_once K (exec_vcpu s) = Some (Ok exit, v)
     \<and> dispatch_vcpu_exit K exit (s\<lparr>exec_vcpu := v\<rparr>) = (Ok (Continue c), u) \<and> observe obs c u = (Ok (), t))"

definition stops_at :: "'k kvm_ops \<Rightarrow> 'k vm_state \<Rightarrow> vm_exit_report \<Rightarrow> 'k vm_state \<Rightarrow> bool" where
  "stops_at K s report t \<longleftrightarrow> (\<exists>exit v. run_once K (exec_vcpu s) = Some (Ok exit, v)
     \<and> dispatch_vcpu_exit K exit (s\<lparr>exec_vcpu := v\<rparr>) = (Ok (Stopped report), t))"

inductive serves ::
  "'k kvm_ops \<Rightarrow> 'k observer \<Rightarrow> 'k vm_state \<Rightarrow> vm_exit_continuation list \<Rightarrow> 'k vm_state \<Rightarrow> bool" for K obs where
  serves_nil: "serves K obs s [] s"
| serves_step: "serves_exit K obs s c t \<Longrightarrow> serves K obs t cs u \<Longrightarrow> serves K obs s (c # cs) u"

fun cont_reason :: "vm_exit_continuation \<Rightarrow> u32" where
  "cont_reason (Cont_PortIo io) = KVM_EXIT_IO"
| "cont_reason (Cont_Mmio access) = KVM_EXIT_MMIO"

fun cont_port_io :: "vm_exit_continuation \<Rightarrow> port_io_exit list" where
  "cont_port_io (Cont_PortIo io) = [io]"
| "cont_port_io (Cont_Mmio access) = []"

fun cont_mmio :: "vm_exit_continuation \<Rightarrow> mmio_exit list" where
  "cont_mmio (Cont_PortIo io) = []"
| "cont_mmio (Cont_Mmio access) = [access]"

text \<open>The local variables after a sequence of served exits.\<close>

definition locals_after :: "u16 \<Rightarrow> u32 \<Rightarrow> vm_exit_continuation list \<Rightarrow> run_locals" where
  "locals_after vid limit cs =
     \<lparr>loc_budget = \<lparr>budget_vcpu_id = vid, budget_limit = limit, budget_completed = of_nat (length cs),
        budget_last_exit_reason = last_copied (map cont_reason cs)\<rparr>,
      loc_io_exits = concat (map cont_port_io cs), loc_mmio_exits = concat (map cont_mmio cs),
      loc_exit_reasons = map cont_reason cs\<rparr>"

definition recorded_locals :: "u16 \<Rightarrow> u32 \<Rightarrow> vm_exit_continuation list \<Rightarrow> u32 \<Rightarrow> run_locals" where
  "recorded_locals vid limit cs reason = locals_after vid limit cs\<lparr>
     loc_budget := \<lparr>budget_vcpu_id = vid, budget_limit = limit, budget_completed = of_nat (length cs + 1),
       budget_last_exit_reason = Some reason\<rparr>,
     loc_exit_reasons := map cont_reason cs @ [reason]\<rparr>"

definition execution_of :: "vm_exit_continuation list \<Rightarrow> vm_exit_report \<Rightarrow> vm_execution_result" where
  "execution_of cs report =
     \<lparr>result_report = report, result_io_exits = concat (map cont_port_io cs),
      result_mmio_exits = concat (map cont_mmio cs),
      result_exit_reasons = map cont_reason cs @ [exit_reason (report_exit report)],
      result_completed_exits = of_nat (length cs + 1)\<rparr>"

definition exhausted_error :: "u16 \<Rightarrow> u32 \<Rightarrow> vm_exit_continuation list \<Rightarrow> vm_error" where
  "exhausted_error vid limit cs =
     VmExit (Exit_ExitBudgetExhausted vid limit limit (last_copied (map cont_reason cs)) (map cont_reason cs))"

text \<open>The exit reason that an error with a trace stands for.\<close>

fun traced_reason :: "vm_error \<Rightarrow> u32 option" where
  "traced_reason (VmExit (Exit_Unhandled _ reason _ _ _)) = Some reason"
| "traced_reason (VmExit (Exit_KvmUnknownExit _ _ _)) = Some KVM_EXIT_UNKNOWN"
| "traced_reason (VmExit (Exit_Exception _ _ _ _)) = Some KVM_EXIT_EXCEPTION"
| "traced_reason (VmExit (Exit_EntryFailure _ _ _ _)) = Some KVM_EXIT_FAIL_ENTRY"
| "traced_reason (VmExit (Exit_InternalError _ _ _ _)) = Some KVM_EXIT_INTERNAL_ERROR"
| "traced_reason (VmExit (Exit_InvalidInternalErrorDataCount _ _ _ _ _)) = Some KVM_EXIT_INTERNAL_ERROR"
| "traced_reason (VmExit (Exit_UnsupportedSystemEvent _ _ _ _ _ _)) = Some KVM_EXIT_SYSTEM_EVENT"
| "traced_reason (VmExit (Exit_InvalidSystemEventDataCount _ _ _ _)) = Some KVM_EXIT_SYSTEM_EVENT"
| "traced_reason _ = None"

text \<open>What the mapping of the shared page, the bus and a caller's observer guarantee.\<close>

definition vm_state_ok :: "'k vm_state \<Rightarrow> bool" where
  "vm_state_ok s \<longleftrightarrow> required_kvm_run_prefix_size \<le> length (vcpu_run (exec_vcpu s)) \<and> bus_inv (exec_mmio s)"

definition page_kept :: "'k kvm_ops \<Rightarrow> bool" where
  "page_kept K \<longleftrightarrow> (\<forall>k page. length (snd (snd (kvm_run_vcpu K k page))) = length page)"

definition observer_ok :: "'k observer \<Rightarrow> bool" where
  "observer_ok obs \<longleftrightarrow> (\<forall>c bus k r bus' k'. bus_inv bus \<longrightarrow> obs c bus k = (r, bus', k') \<longrightarrow>
     bus_inv bus' \<and> \<not> is_fault r \<and> (\<forall>e. r = Err e \<longrightarrow> traced_reason e = None))"

text \<open>
  An operation that never faults, keeps the state well formed, and whose errors carry a trace only for
  the exit being handled.
\<close>

definition exit_safe :: "u32 \<Rightarrow> ('k vm_state, 'a, vm_error) op \<Rightarrow> bool" where
  "exit_safe reason m \<longleftrightarrow> (\<forall>s r t. vm_state_ok s \<longrightarrow> m s = (r, t) \<longrightarrow>
     vm_state_ok t \<and> \<not> is_fault r \<and> (\<forall>e. r = Err e \<longrightarrow> traced_reason e \<in> {None, Some reason}))"

text \<open>A guest that prints a number of bytes to the debug port and halts, on a page of 256 bytes.\<close>

definition example_guest :: "nat kvm_ops" where
  "example_guest =
     \<lparr>kvm_run_vcpu = (\<lambda>n page. (None, n - 1, if length page \<noteq> 256 then page
        else if 0 < n then example_io_page 1 else replicate 8 0 @ [5, 0, 0, 0] @ replicate 244 0)),
      kvm_get_regs = (\<lambda>n. Inr kvm_regs_default), kvm_set_regs = (\<lambda>regs n. (None, n)),
      kvm_get_sregs = (\<lambda>n. Inr example_sregs), kvm_set_sregs = (\<lambda>sregs n. (None, n))\<rparr>"

definition example_vm :: "nat \<Rightarrow> u8 list \<Rightarrow> u8 list \<Rightarrow> nat vm_state" where
  "example_vm n page printed =
     \<lparr>exec_vcpu = \<lparr>vcpu_id = 0, vcpu_fd = n, vcpu_run = page, vcpu_supports_internal_error_data = True\<rparr>,
      exec_port_io = \<lparr>bus_debug_port = Some \<lparr>debug_bytes = printed, debug_input_byte = 0\<rparr>, bus_pci_config = None\<rparr>,
      exec_mmio = bus_empty\<rparr>"

definition example_print :: vm_exit_continuation where
  "example_print = Cont_PortIo \<lparr>pio_direction = Io_Out, pio_size = 1, pio_port = 0xE9, pio_count = 1,
     pio_output_data = [0x4B]\<rparr>"

section \<open>Lemmas\<close>

declare run_loop.simps [simp del]

subsection \<open>One run of the vCPU\<close>

lemma run_once_returns: "kvm_run_returns K k page \<Longrightarrow>
  vcpu_fd v = k \<Longrightarrow> vcpu_run v = page \<Longrightarrow> run_once K v \<noteq> None"
proof (induction k page arbitrary: v rule: kvm_run_returns.induct)
  case (returned k page r k' page')
  then show ?case by (subst run_once.simps) (auto split: option.splits)
next
  case (again k page e k' page')
  then show ?case by (subst run_once.simps) auto
qed

lemma run_once_Some:
  assumes "run_once K v = Some r"
  shows "kvm_run_returns K (vcpu_fd v) (vcpu_run v)"
proof (rule run_once.raw_induct [where P = "\<lambda>K v r. kvm_run_returns K (vcpu_fd v) (vcpu_run v)", OF _ assms])
  fix self :: "'a kvm_ops \<Rightarrow> 'a vcpu \<Rightarrow> ((vcpu_exit, vm_error) outcome \<times> 'a vcpu) option" and K v r
  assume IH: "\<And>K v r. self K v = Some r \<Longrightarrow> kvm_run_returns K (vcpu_fd v) (vcpu_run v)"
    and step: "(case kvm_run_vcpu K (vcpu_fd v) (vcpu_run v) of (q, k, page) \<Rightarrow>
      (case q of
         None \<Rightarrow> Some (map_ok exit_from_raw (run_exit_reason page), v\<lparr>vcpu_fd := k, vcpu_run := page\<rparr>)
       | Some e \<Rightarrow> if interrupted e then self K (v\<lparr>vcpu_fd := k, vcpu_run := page\<rparr>)
           else Some (Err (vcpu_operation (vcpu_id v) ''KVM_RUN'' e), v\<lparr>vcpu_fd := k, vcpu_run := page\<rparr>))) = Some r"
  obtain q k page where call: "kvm_run_vcpu K (vcpu_fd v) (vcpu_run v) = (q, k, page)"
    by (cases "kvm_run_vcpu K (vcpu_fd v) (vcpu_run v)")
  show "kvm_run_returns K (vcpu_fd v) (vcpu_run v)"
  proof (cases "\<exists>e. q = Some e \<and> interrupted e")
    case True
    with step call have "self K (v\<lparr>vcpu_fd := k, vcpu_run := page\<rparr>) = Some r" by auto
    from IH [OF this] have "kvm_run_returns K k page" by simp
    with True call show ?thesis by (auto intro: again)
  next
    case False
    with call show ?thesis by (auto intro: returned)
  qed
qed

lemma run_once_None: "run_once K v = None \<longleftrightarrow> \<not> kvm_run_returns K (vcpu_fd v) (vcpu_run v)"
  using run_once_returns run_once_Some by (metis option.exhaust)

lemma run_once_safe:
  "kvm_run_returns K k page \<Longrightarrow> page_kept K \<Longrightarrow> 168 \<le> length page \<Longrightarrow> vcpu_fd v = k \<Longrightarrow> vcpu_run v = page \<Longrightarrow>
    run_once K v = Some (r, v') \<Longrightarrow> length (vcpu_run v') = length page \<and> \<not> is_fault r"
proof (induction k page arbitrary: v rule: kvm_run_returns.induct)
  case (returned k page q k' page')
  then have "length page' = length page" unfolding page_kept_def by (metis snd_conv)
  with returned show ?case
    by (subst (asm) run_once.simps) (auto simp: run_exit_reason_Ok split: option.splits)
next
  case (again k page e k' page')
  then have "length page' = length page" unfolding page_kept_def by (metis snd_conv)
  moreover have "run_once K (v\<lparr>vcpu_fd := k', vcpu_run := page'\<rparr>) = Some (r, v')"
    using again.prems again.hyps by (subst (asm) run_once.simps) simp
  ultimately show ?case using again.IH [of "v\<lparr>vcpu_fd := k', vcpu_run := page'\<rparr>"] again.prems by simp
qed

subsection \<open>One iteration\<close>

lemma on_part_Ok [outcome_simps]:
  "on_vcpu f s = (r, t) \<longleftrightarrow> f (exec_vcpu s) = r \<and> t = s"
  "on_port_io g s = (q, t) \<longleftrightarrow> (\<exists>bus. g (exec_port_io s) = (q, bus) \<and> t = s\<lparr>exec_port_io := bus\<rparr>)"
  "on_mmio h s = (o', t) \<longleftrightarrow> (\<exists>bus. h (exec_mmio s) = (o', bus) \<and> t = s\<lparr>exec_mmio := bus\<rparr>)"
  "on_page w s = (p, t) \<longleftrightarrow> (\<exists>page. w (vcpu_id (exec_vcpu s)) (vcpu_run (exec_vcpu s)) = (p, page)
     \<and> t = s\<lparr>exec_vcpu := (exec_vcpu s)\<lparr>vcpu_run := page\<rparr>\<rparr>)"
  by (auto simp: on_vcpu_def on_port_io_def on_mmio_def on_page_def split: prod.splits)

lemma op_with_trace_Ok [outcome_simps]:
  "op_with_trace reasons m s = (Ok x, t) \<longleftrightarrow> m s = (Ok x, t)"
proof -
  have "with_trace reasons r = Ok x \<longleftrightarrow> r = Ok x" for r by (cases r) (auto simp: outcome_simps)
  then show ?thesis by (auto simp: op_with_trace_def split: prod.splits)
qed

lemma dispatch_Continue:
  "dispatch_vcpu_exit K exit s = (Ok (Continue c), t) \<Longrightarrow> exit_reason exit = cont_reason c"
  by (cases exit)
    (auto simp: dispatch_vcpu_exit_def stop_vcpu_def op_return_def outcome_simps stopped_report_def)

lemma dispatch_Stopped:
  "dispatch_vcpu_exit K exit s = (Ok (Stopped report), t) \<Longrightarrow>
    exit = report_exit report \<and> t = s \<and> exit \<in> {Ex_Debug, Ex_Hlt, Ex_Shutdown}"
  by (cases exit)
    (auto simp: dispatch_vcpu_exit_def stop_vcpu_def op_return_def outcome_simps stopped_report_def)

lemma last_copied_snoc [simp]: "last_copied (xs @ [x]) = Some x"
  by (simp add: last_copied_def)

lemma unat_completed:
  "n \<le> unat (limit :: u32) \<Longrightarrow> unat (of_nat n :: u32) = n"
  using unat_lt [of limit] by (simp add: unat_of_nat take_bit_nat_eq_self)

lemma ensure_run_allowed_after:
  assumes "length cs \<le> unat limit"
  shows "ensure_run_allowed (loc_budget (locals_after vid limit cs)) (loc_exit_reasons (locals_after vid limit cs)) =
    (if length cs < unat limit then Ok () else Err (exhausted_error vid limit cs))"
proof -
  have "(of_nat (length cs) :: u32) = limit" if "length cs = unat limit" using that by simp
  with assms show ?thesis
    by (auto simp: ensure_run_allowed_def locals_after_def unat_completed word_less_nat_alt exhausted_error_def)
qed

lemma record_completed_exit_after:
  assumes "length cs < unat limit"
  shows "record_completed_exit reason (loc_budget (locals_after vid limit cs),
      loc_exit_reasons (locals_after vid limit cs)) =
    (Ok (\<lparr>budget_vcpu_id = vid, budget_limit = limit, budget_completed = of_nat (length cs + 1),
         budget_last_exit_reason = Some reason\<rparr>, map cont_reason cs @ [reason]) :: (_, 'e) outcome)"
proof -
  have n: "unat (of_nat (length cs) :: u32) = length cs" "unat (of_nat (length cs) + 1 :: u32) = length cs + 1"
    using assms unat_completed [of "length cs" limit] unat_completed [of "length cs + 1" limit]
    by (simp_all add: add.commute)
  have "(of_nat (length cs) :: u32) < limit" using assms n by (simp add: word_less_nat_alt)
  moreover have "add_ov (of_nat (length cs)) 1 = (Ok (of_nat (length cs) + 1 :: u32) :: (_, 'e) outcome)"
    using assms n unat_lt [of limit] by (simp add: add_ov_Ok)
  ultimately show ?thesis
    using n by (simp add: record_completed_exit_def budget_record_def locals_after_def add.commute)
qed

lemma handle_exit_after:
  assumes "length cs < unat limit"
  shows "handle_exit K obs exit (locals_after vid limit cs) =
    op_then (op_with_trace (map cont_reason cs @ [exit_reason exit]) (dispatch_vcpu_exit K exit))
      (observe_disposition obs (recorded_locals vid limit cs (exit_reason exit)))"
  by (simp add: handle_exit_def record_completed_exit_after [OF assms] recorded_locals_def)

lemma push_continuation_after:
  "exit_reason exit = cont_reason c \<Longrightarrow>
    push_continuation c (recorded_locals vid limit cs (exit_reason exit)) = locals_after vid limit (cs @ [c])"
  by (cases c) (simp_all add: push_continuation_def locals_after_def recorded_locals_def)

lemma iteration_Continue:
  assumes "length cs \<le> unat limit"
  shows "run_iteration K obs (locals_after vid limit cs) s = Some (Ok (l, Continue c), t) \<longleftrightarrow>
    length cs < unat limit \<and> serves_exit K obs s c t \<and> l = locals_after vid limit (cs @ [c])"
proof (cases "length cs < unat limit")
  case False with assms show ?thesis by (simp add: run_iteration_def ensure_run_allowed_after)
next
  case True
  have *: "observe_disposition obs L d u = (Ok (l, Continue c), t) \<longleftrightarrow>
      d = Continue c \<and> observe obs c u = (Ok (), t) \<and> l = push_continuation c L" for L d u
    by (cases d) (auto simp: observe_disposition_def op_return_def outcome_simps)
  from True show ?thesis
    by (auto simp: run_iteration_def ensure_run_allowed_after handle_exit_after *
        serves_exit_def outcome_simps push_continuation_after [OF dispatch_Continue]
        split: option.splits)
qed

lemma iteration_None:
  assumes "length cs \<le> unat limit"
  shows "run_iteration K obs (locals_after vid limit cs) s = None \<longleftrightarrow>
    length cs < unat limit \<and> \<not> kvm_run_returns K (vcpu_fd (exec_vcpu s)) (vcpu_run (exec_vcpu s))"
  using assms
  by (auto simp: run_iteration_def ensure_run_allowed_after run_once_None [symmetric] split: option.splits)

lemma iteration_Stopped:
  assumes "length cs \<le> unat limit"
  shows "(\<exists>l. run_iteration K obs (locals_after vid limit cs) s = Some (Ok (l, Stopped report), t)
      \<and> finish_run l report = r) \<longleftrightarrow>
    length cs < unat limit \<and> stops_at K s report t \<and> r = Ok (execution_of cs report)"
proof (cases "length cs < unat limit")
  case False with assms show ?thesis by (simp add: run_iteration_def ensure_run_allowed_after)
next
  case True
  have *: "observe_disposition obs L d u = (Ok (l, Stopped report), t) \<longleftrightarrow>
      d = Stopped report \<and> l = L \<and> t = u" for L l d u
    by (cases d) (auto simp: observe_disposition_def op_return_def outcome_simps)
  have "unat (of_nat (length cs + 1) :: u32) = length cs + 1"
    using True unat_completed [of "length cs + 1" limit] by simp
  then have fin: "exit = report_exit report \<Longrightarrow> finish_run (recorded_locals vid limit cs (exit_reason exit)) report
      = Ok (execution_of cs report)" for exit
    by (simp add: finish_run_def execution_of_def locals_after_def recorded_locals_def)
  from True show ?thesis
    by (auto simp: run_iteration_def ensure_run_allowed_after handle_exit_after *
        stops_at_def outcome_simps fin [OF dispatch_Stopped [THEN conjunct1]]
        split: option.splits)
qed

subsection \<open>The whole loop\<close>

text \<open>The loop follows the served exits, and ends where the budget does or where no exit is served.\<close>

lemma run_loop_follows:
  "serves K obs s cs' t \<Longrightarrow> length cs + length cs' \<le> unat limit \<Longrightarrow>
    run_loop K obs (locals_after vid limit cs) s = run_loop K obs (locals_after vid limit (cs @ cs')) t"
proof (induction s cs' t arbitrary: cs rule: serves.induct)
  case (serves_step s c t cs' u)
  then have "run_iteration K obs (locals_after vid limit cs) s
      = Some (Ok (locals_after vid limit (cs @ [c]), Continue c), t)"
    by (simp add: iteration_Continue)
  then have "run_loop K obs (locals_after vid limit cs) s = run_loop K obs (locals_after vid limit (cs @ [c])) t"
    by (subst run_loop.simps) simp
  with serves_step show ?case by simp
qed simp

lemma serves_maximal:
  "\<exists>cs t. serves K obs s cs t \<and> length cs \<le> n \<and> (length cs = n \<or> (\<nexists>c u. serves_exit K obs t c u))"
proof (induction n arbitrary: s)
  case 0 show ?case by (auto intro: serves_nil)
next
  case (Suc n)
  show ?case
  proof (cases "\<exists>c u. serves_exit K obs s c u")
    case True
    then obtain c u where "serves_exit K obs s c u" by blast
    moreover obtain cs t where "serves K obs u cs t" "length cs \<le> n"
      "length cs = n \<or> (\<nexists>c u. serves_exit K obs t c u)"
      using Suc by blast
    ultimately show ?thesis by (auto intro!: exI [of _ "c # cs"] serves_step)
  next
    case False then show ?thesis using serves_nil [of K obs s] by (intro exI [of _ "[]"] exI [of _ s]) auto
  qed
qed

lemma run_loop_ends:
  assumes "length cs \<le> unat limit" and "length cs = unat limit \<or> (\<nexists>c u. serves_exit K obs s c u)"
  shows "run_loop K obs (locals_after vid limit cs) s = None \<longleftrightarrow>
      length cs < unat limit \<and> \<not> kvm_run_returns K (vcpu_fd (exec_vcpu s)) (vcpu_run (exec_vcpu s))"
    and "run_loop K obs (locals_after vid limit cs) s = Some (Ok r, t) \<longleftrightarrow>
      length cs < unat limit \<and> (\<exists>report. stops_at K s report t \<and> r = execution_of cs report)"
proof -
  have no: "run_iteration K obs (locals_after vid limit cs) s \<noteq> Some (Ok (l, Continue c), u)" for l c u
    using assms by (auto simp: iteration_Continue)
  have "run_loop K obs (locals_after vid limit cs) s = None \<longleftrightarrow> run_iteration K obs (locals_after vid limit cs) s = None"
    using no by (subst run_loop.simps) (auto split: option.splits outcome.splits vm_exit_disposition.splits)
  then show "run_loop K obs (locals_after vid limit cs) s = None \<longleftrightarrow>
      length cs < unat limit \<and> \<not> kvm_run_returns K (vcpu_fd (exec_vcpu s)) (vcpu_run (exec_vcpu s))"
    by (simp add: iteration_None [OF assms(1)])
  have "run_loop K obs (locals_after vid limit cs) s = Some (Ok r, t) \<longleftrightarrow>
      (\<exists>report l. run_iteration K obs (locals_after vid limit cs) s = Some (Ok (l, Stopped report), t)
        \<and> finish_run l report = Ok r)" (is "_ \<longleftrightarrow> (\<exists>report. ?stop report)")
    using no by (subst run_loop.simps) (auto split: option.splits outcome.splits vm_exit_disposition.splits)
  then show "run_loop K obs (locals_after vid limit cs) s = Some (Ok r, t) \<longleftrightarrow>
      length cs < unat limit \<and> (\<exists>report. stops_at K s report t \<and> r = execution_of cs report)"
    unfolding iteration_Stopped [OF assms(1)] by auto
qed

lemma stops_at_unique: "stops_at K s report t \<Longrightarrow> \<not> serves_exit K obs s c u"
  by (auto simp: stops_at_def serves_exit_def)

lemma stops_at_returns:
  "stops_at K s report t \<Longrightarrow> kvm_run_returns K (vcpu_fd (exec_vcpu s)) (vcpu_run (exec_vcpu s))"
  by (auto simp: stops_at_def dest: run_once_Some)

lemma serves_exit_returns:
  "serves_exit K obs s c t \<Longrightarrow> kvm_run_returns K (vcpu_fd (exec_vcpu s)) (vcpu_run (exec_vcpu s))"
  by (auto simp: serves_exit_def dest: run_once_Some)

lemma run_start:
  "run_vcpu_until_stopped_with_mmio_observer K obs limit s = run_loop K obs (locals_after (vcpu_id (exec_vcpu s)) limit []) s"
  by (simp add: run_vcpu_until_stopped_with_mmio_observer_def locals_after_def exit_budget_new_def last_copied_def)

lemma run_follows:
  assumes "serves K obs s cs t" and "length cs \<le> unat limit"
  shows "run_vcpu_until_stopped_with_mmio_observer K obs limit s =
    run_loop K obs (locals_after (vcpu_id (exec_vcpu s)) limit cs) t"
  using run_loop_follows [OF assms(1), of "[]" limit] assms(2) by (simp add: run_start)

lemma run_exhausts:
  assumes "serves K obs s cs t" and "length cs = unat limit"
  shows "run_vcpu_until_stopped_with_mmio_observer K obs limit s =
    Some (Err (exhausted_error (vcpu_id (exec_vcpu s)) limit cs), t)"
proof -
  have "run_loop K obs (locals_after vid limit cs) t = Some (Err (exhausted_error vid limit cs), t)" for vid
    using assms(2) by (subst run_loop.simps) (simp add: run_iteration_def ensure_run_allowed_after)
  with run_follows [OF assms(1)] assms(2) show ?thesis by simp
qed

text \<open>A run looked at where it ends.\<close>

lemma run_endsE:
  obtains cs t where "serves K obs s cs t" and "length cs \<le> unat limit"
    and "length cs = unat limit \<or> (\<nexists>c u. serves_exit K obs t c u)"
    and "run_vcpu_until_stopped_with_mmio_observer K obs limit s =
      run_loop K obs (locals_after (vcpu_id (exec_vcpu s)) limit cs) t"
  using serves_maximal [of K obs s "unat limit"] run_follows by metis

subsection \<open>Panics\<close>

lemma attach_safe:
  "\<not> is_fault (attach_completed_exit_trace reasons e) \<longleftrightarrow>
    (\<forall>reason. traced_reason e = Some reason \<longrightarrow> last_copied reasons = Some reason)"
  by (auto simp: attach_completed_exit_trace_def Let_def split: vm_error.split vm_exit_error.split)

lemma with_trace_safe:
  "\<not> is_fault r \<Longrightarrow> (\<And>e reason. r = Err e \<Longrightarrow> traced_reason e = Some reason \<Longrightarrow> last_copied reasons = Some reason)
    \<Longrightarrow> \<not> is_fault (with_trace reasons r)"
  using attach_safe [where 'a = vm_error] by (cases r) (auto simp: is_fault_iff outcome_simps)

lemma port_dispatch_untraced: "port_dispatch io bus = (Err e, bus') \<Longrightarrow> traced_reason e = None"
  by (auto simp: port_dispatch_def outcome_simps split: if_splits option.splits prod.splits)

lemma finish_virtio_Err: "finish_virtio q a bus = (Err e, bus') \<Longrightarrow> q = Err e"
  by (cases q) auto

lemma dispatch_device_untraced:
  "dispatch_device read write bar to_error to_event x d = (Err e, d') \<Longrightarrow> (\<And>u. traced_reason (to_error u) = None)
    \<Longrightarrow> traced_reason e = None"
  by (cases "mx_direction x") (auto simp: dispatch_device_def outcome_simps op_return_def dest!: sym [of "Err _"])

lemma mmio_dispatch_untraced:
  assumes "mmio_dispatch x bus = (Err e, bus')"
  shows "traced_reason e = None"
  using assms
proof (cases rule: mmio_dispatch_cases)
  case (byte i d q) then show ?thesis by (cases q) auto
next
  case (rng i d q a)
  with finish_virtio_Err [OF rng(4) [symmetric]] show ?thesis
    by (auto simp: dispatch_virtio_rng_def rng_mmio_error_def dest: dispatch_device_untraced)
next
  case (blk i d q a)
  with finish_virtio_Err [OF blk(4) [symmetric]] show ?thesis
    by (auto simp: dispatch_virtio_blk_def blk_mmio_error_def dest: dispatch_device_untraced)
qed simp

lemma decoders_traced:
  assumes "168 \<le> length page"
  shows "run_port_io_exit vid page = Err e1 \<Longrightarrow> traced_reason e1 = None"
    and "run_mmio_exit vid page = Err e2 \<Longrightarrow> traced_reason e2 = None"
    and "run_kvm_unknown_exit vid page = Err e3 \<Longrightarrow> traced_reason e3 = None"
    and "run_exception vid page = Err e4 \<Longrightarrow> traced_reason e4 = None"
    and "run_fail_entry vid page = Err e5 \<Longrightarrow> traced_reason e5 = None"
    and "run_internal_error vid b page = Err e6 \<Longrightarrow> traced_reason e6 \<in> {None, Some KVM_EXIT_INTERNAL_ERROR}"
    and "run_system_event vid page = Err e7 \<Longrightarrow> traced_reason e7 \<in> {None, Some KVM_EXIT_SYSTEM_EVENT}"
    and "run_write_port_io_input vid response page = (Err e8, page') \<Longrightarrow> traced_reason e8 = None"
    and "run_write_mmio_read_response vid response page = (Err e9, page') \<Longrightarrow> traced_reason e9 = None"
  subgoal using assms by (auto simp: run_port_io_exit_def run_exit_reason_Ok checked_io_data_range_eq Let_def copy_from_run_def
      decode_port_io_direction_def outcome_simps split: if_splits)
  subgoal using assms by (auto simp: run_mmio_exit_def run_exit_reason_Ok prefix_size_defs decode_mmio_def checked_mmio_length_eq
      decode_mmio_direction_def index_range_def outcome_simps split: if_splits)
  subgoal using assms by (auto simp: run_kvm_unknown_exit_def run_exit_reason_Ok prefix_size_defs split: if_splits)
  subgoal using assms by (auto simp: run_exception_def run_exit_reason_Ok prefix_size_defs split: if_splits)
  subgoal using assms by (auto simp: run_fail_entry_def run_exit_reason_Ok prefix_size_defs split: if_splits)
  subgoal using assms by (auto simp: run_internal_error_def run_exit_reason_Ok prefix_size_defs
      decode_internal_error_with_data_def index_range_def outcome_simps split: if_splits)
  subgoal using assms by (auto simp: run_system_event_def run_exit_reason_Ok prefix_size_defs decode_system_event_def
      index_range_def outcome_simps split: if_splits)
  subgoal using assms by (auto simp: run_write_port_io_input_eq checked_io_response_range_def decode_port_io_direction_def
      checked_io_data_range_eq Let_def outcome_simps split: if_splits outcome.splits)
  subgoal using assms by (auto simp: run_write_mmio_read_response_def run_exit_reason_Ok prefix_size_defs Let_def
      decode_mmio_direction_def checked_mmio_length_eq index_range_def outcome_simps split: if_splits)
  done

lemma internal_error_data_safe:
  assumes "run_internal_error vid b page = Ok x"
  shows "\<not> is_fault (internal_error_data x)"
  using assms
  by (auto simp: run_internal_error_def decode_internal_error_with_data_def decode_internal_error_base_def
      internal_error_data_def index_range_def outcome_simps length_splice split: if_splits)

lemma read_registers_safe:
  "\<not> is_fault (vcpu_read_registers K v)" "vcpu_read_registers K v = Err e \<Longrightarrow> traced_reason e = None"
  by (auto simp: vcpu_read_registers_def vcpu_get_regs_def vcpu_operation_def outcome_simps split: sum.splits)

lemma exit_safeD:
  "exit_safe reason m \<Longrightarrow> vm_state_ok s \<Longrightarrow> m s = (r, t) \<Longrightarrow>
    vm_state_ok t \<and> \<not> is_fault r \<and> (\<forall>e. r = Err e \<longrightarrow> traced_reason e \<in> {None, Some reason})"
  by (simp add: exit_safe_def)

lemma exit_safe_then:
  assumes m: "exit_safe reason m" and k: "\<And>x. exit_safe reason (k x)"
  shows "exit_safe reason (op_then m k)"
  unfolding exit_safe_def
proof (intro allI impI)
  fix s r t assume s: "vm_state_ok s" and run: "op_then m k s = (r, t)"
  obtain q u where q: "m s = (q, u)" by (cases "m s")
  note safe = exit_safeD [OF m s q]
  show "vm_state_ok t \<and> \<not> is_fault r \<and> (\<forall>e. r = Err e \<longrightarrow> traced_reason e \<in> {None, Some reason})"
  proof (cases q)
    case (Ok x)
    with run q have "k x u = (r, t)" by (simp add: op_then_def)
    with exit_safeD [OF k] safe show ?thesis by blast
  qed (use run q safe in \<open>auto simp: op_then_def\<close>)
qed

lemma exit_safe_return [simp]: "exit_safe reason (op_return x)"
  by (simp add: exit_safe_def op_return_def)

lemma exit_safe_on_vcpu:
  assumes "\<And>v. 168 \<le> length (vcpu_run v) \<Longrightarrow> \<not> is_fault (f v)
    \<and> (\<forall>e. f v = Err e \<longrightarrow> traced_reason e \<in> {None, Some reason})"
  shows "exit_safe reason (on_vcpu f)"
  using assms by (auto simp: exit_safe_def on_vcpu_def vm_state_ok_def required_prefix_size)

lemma exit_safe_on_page:
  assumes "\<And>vid page r page'. 168 \<le> length page \<Longrightarrow> f vid page = (r, page') \<Longrightarrow>
    length page' = length page \<and> \<not> is_fault r \<and> (\<forall>e. r = Err e \<longrightarrow> traced_reason e = None)"
  shows "exit_safe reason (on_page f)"
  unfolding exit_safe_def
proof (intro allI impI)
  fix s r t assume s: "vm_state_ok s" and run: "on_page f s = (r, t)"
  then obtain page where page: "f (vcpu_id (exec_vcpu s)) (vcpu_run (exec_vcpu s)) = (r, page)"
    and t: "t = s\<lparr>exec_vcpu := (exec_vcpu s)\<lparr>vcpu_run := page\<rparr>\<rparr>"
    by (auto simp: on_part_Ok)
  from assms [OF _ page] s t
  show "vm_state_ok t \<and> \<not> is_fault r \<and> (\<forall>e. r = Err e \<longrightarrow> traced_reason e \<in> {None, Some reason})"
    by (auto simp: vm_state_ok_def required_prefix_size)
qed

lemma exit_safe_on_buses: "exit_safe reason (on_port_io (port_dispatch io))" "exit_safe reason (on_mmio (mmio_dispatch x))"
proof -
  show "exit_safe reason (on_port_io (port_dispatch io))"
    by (auto simp: exit_safe_def on_part_Ok vm_state_ok_def dest: port_dispatch_step port_dispatch_untraced)
  show "exit_safe reason (on_mmio (mmio_dispatch x))"
    by (auto simp: exit_safe_def on_part_Ok vm_state_ok_def dest: mmio_dispatch_safe mmio_dispatch_untraced)
qed

lemma respond_safe: "exit_safe reason (respond_port_io service)" "exit_safe reason (respond_mmio service')"
proof -
  have "exit_safe reason (on_page (\<lambda>vid. run_write_port_io_input vid response))" for response
    by (rule exit_safe_on_page) (auto dest: run_write_port_io_input_safe decoders_traced(8))
  then show "exit_safe reason (respond_port_io service)"
    by (cases service) (simp_all add: respond_port_io_def)
  have "length page' = length page" if "168 \<le> length page"
    and "run_write_mmio_read_response vid response page = (r, page')" for vid page r page' response
    using run_write_mmio_read_response_wp [OF that] that(1) by (auto simp: length_splice split: if_splits)
  then have "exit_safe reason (on_page (\<lambda>vid. run_write_mmio_read_response vid response))" for response
    by (intro exit_safe_on_page) (auto dest: run_write_mmio_read_response_wp decoders_traced(9))
  then show "exit_safe reason (respond_mmio service')"
    by (cases service') (simp_all add: respond_mmio_def)
qed

lemma dispatch_exit_safe: "exit_safe (exit_reason exit) (dispatch_vcpu_exit K exit)"
proof -
  have stop: "exit_safe (exit_reason exit) (on_vcpu (stop_vcpu K exit))" if "exit \<in> {Ex_Debug, Ex_Hlt, Ex_Shutdown}"
    using that read_registers_safe
    by (intro exit_safe_on_vcpu) (auto simp: stop_vcpu_def stopped_report_def outcome_simps)
  show ?thesis
  proof (cases exit)
    case Ex_Io
    have "exit_safe r (on_vcpu (\<lambda>v. run_port_io_exit (vcpu_id v) (vcpu_run v)))" for r
      by (rule exit_safe_on_vcpu) (auto simp: run_port_io_exit_safe dest: decoders_traced(1))
    then show ?thesis
      unfolding Ex_Io dispatch_vcpu_exit_def vcpu_exit.case
      by (intro exit_safe_then exit_safe_on_buses respond_safe exit_safe_return)
  next
    case Ex_Mmio
    have "exit_safe r (on_vcpu (\<lambda>v. run_mmio_exit (vcpu_id v) (vcpu_run v)))" for r
      by (rule exit_safe_on_vcpu) (auto simp: run_mmio_exit_safe dest: decoders_traced(2))
    then show ?thesis
      unfolding Ex_Mmio dispatch_vcpu_exit_def vcpu_exit.case
      by (intro exit_safe_then exit_safe_on_buses respond_safe exit_safe_return)
  next
    case Ex_KvmUnknown then show ?thesis
      by (simp add: dispatch_vcpu_exit_def, intro exit_safe_on_vcpu)
        (auto simp: other_payloads_safe kvm_unknown_exit_def outcome_simps dest: decoders_traced(3))
  next
    case Ex_Exception then show ?thesis
      by (simp add: dispatch_vcpu_exit_def, intro exit_safe_on_vcpu)
        (auto simp: other_payloads_safe exception_exit_def outcome_simps dest: decoders_traced(4))
  next
    case Ex_FailEntry then show ?thesis
      by (simp add: dispatch_vcpu_exit_def, intro exit_safe_on_vcpu)
        (auto simp: other_payloads_safe entry_failure_def outcome_simps dest: decoders_traced(5))
  next
    case Ex_InternalError then show ?thesis
      by (simp add: dispatch_vcpu_exit_def, intro exit_safe_on_vcpu)
        (auto simp: other_payloads_safe internal_error_def internal_error_data_def index_range_def outcome_simps
          dest: decoders_traced(6) internal_error_data_safe split: if_splits)
  next
    case Ex_SystemEvent then show ?thesis
      by (simp add: dispatch_vcpu_exit_def, intro exit_safe_on_vcpu)
        (auto simp: other_payloads_safe unsupported_system_event_def read_registers_safe outcome_simps
          dest: decoders_traced(7) read_registers_safe(2))
  next
    case (Ex_Unhandled reason) then show ?thesis
      by (simp add: dispatch_vcpu_exit_def, intro exit_safe_on_vcpu)
        (auto simp: unhandled_exit_def read_registers_safe outcome_simps dest: read_registers_safe(2))
  qed (use stop in \<open>simp_all add: dispatch_vcpu_exit_def\<close>)
qed

lemma observer_okD:
  "observer_ok obs \<Longrightarrow> obs c bus k = (r, bus', k') \<Longrightarrow> bus_inv bus \<Longrightarrow>
    bus_inv bus' \<and> \<not> is_fault r \<and> (\<forall>e. r = Err e \<longrightarrow> traced_reason e = None)"
  unfolding observer_ok_def by blast

lemma observe_safe: "observer_ok obs \<Longrightarrow> exit_safe reason (observe obs c)"
  unfolding exit_safe_def observe_def vm_state_ok_def by (force dest: observer_okD split: prod.splits)

lemma run_once_ok:
  assumes "page_kept K" and "vm_state_ok s" and "run_once K (exec_vcpu s) = Some (r, v)"
  shows "\<not> is_fault r \<and> vm_state_ok (s\<lparr>exec_vcpu := v\<rparr>)"
  using run_once_safe [OF run_once_Some [OF assms(3)] assms(1) _ refl refl assms(3)] assms(2)
  by (simp add: vm_state_ok_def required_prefix_size)

lemma serves_exit_ok:
  assumes "page_kept K" and "observer_ok obs" and "vm_state_ok s" and "serves_exit K obs s c t"
  shows "vm_state_ok t"
  using assms(4) run_once_ok [OF assms(1,3)] exit_safeD [OF dispatch_exit_safe [of _ K]] exit_safeD [OF observe_safe [OF assms(2)]]
  unfolding serves_exit_def by meson

lemma serves_ok:
  "serves K obs s cs t \<Longrightarrow> page_kept K \<Longrightarrow> observer_ok obs \<Longrightarrow> vm_state_ok s \<Longrightarrow> vm_state_ok t"
  by (induction rule: serves.induct) (auto dest: serves_exit_ok)

lemma op_with_trace_safe:
  assumes "exit_safe reason m" and "vm_state_ok s" and "op_with_trace (reasons @ [reason]) m s = (r, t)"
  shows "vm_state_ok t \<and> \<not> is_fault r"
proof -
  obtain q where q: "m s = (q, t)" "r = with_trace (reasons @ [reason]) q"
    using assms(3) by (auto simp: op_with_trace_def split: prod.splits)
  note safe = exit_safeD [OF assms(1,2) q(1)]
  have "\<not> is_fault (with_trace (reasons @ [reason]) q)"
    by (rule with_trace_safe) (use safe in auto)
  with safe q(2) show ?thesis by simp
qed

lemma iteration_safe:
  assumes "page_kept K" and "observer_ok obs" and "vm_state_ok s" and "length cs \<le> unat limit"
    and "run_iteration K obs (locals_after vid limit cs) s = Some (r, t)"
  shows "vm_state_ok t \<and> \<not> is_fault r"
proof (cases "length cs < unat limit")
  case False with assms show ?thesis by (auto simp: run_iteration_def ensure_run_allowed_after)
next
  case True
  with assms(5) obtain q v where q: "run_once K (exec_vcpu s) = Some (q, v)"
    and r: "(r, t) = op_then (op_lift q) (\<lambda>exit. handle_exit K obs exit (locals_after vid limit cs)) (s\<lparr>exec_vcpu := v\<rparr>)"
    by (auto simp: run_iteration_def ensure_run_allowed_after split: option.splits)
  have ok: "\<not> is_fault q" "vm_state_ok (s\<lparr>exec_vcpu := v\<rparr>)" using run_once_ok [OF assms(1,3) q] by auto
  show ?thesis
  proof (cases q)
    case (Ok exit)
    let ?trace = "map cont_reason cs @ [exit_reason exit]"
    obtain d u where d: "op_with_trace ?trace (dispatch_vcpu_exit K exit) (s\<lparr>exec_vcpu := v\<rparr>) = (d, u)"
      by fastforce
    note safe = op_with_trace_safe [OF dispatch_exit_safe ok(2) d]
    have "vm_state_ok t' \<and> \<not> is_fault r'" if "observe_disposition obs (recorded_locals vid limit cs (exit_reason exit)) x u = (r', t')"
      for x r' t'
    proof (cases x)
      case (Continue c)
      obtain o' w where w: "op_with_trace ?trace (observe obs c) u = (o', w)" by fastforce
      have "loc_exit_reasons (recorded_locals vid limit cs (exit_reason exit)) = ?trace"
        by (simp add: recorded_locals_def)
      with that w op_with_trace_safe [OF observe_safe [OF assms(2)] _ w] safe Continue show ?thesis
        by (cases o') (auto simp: observe_disposition_def op_then_def op_return_def)
    next
      case (Stopped report)
      with that safe show ?thesis by (auto simp: observe_disposition_def op_return_def)
    qed
    with r Ok d safe True show ?thesis
      by (cases d) (auto simp: handle_exit_after op_then_def op_lift_def dest: sym)
  qed (use r ok in \<open>auto simp: op_then_def op_lift_def\<close>)
qed

lemma whole_run_safe:
  assumes "page_kept K" and "observer_ok obs" and "vm_state_ok s"
    and "run_vcpu_until_stopped_with_mmio_observer K obs limit s = Some (r, t)"
  shows "vm_state_ok t \<and> \<not> is_fault r"
proof -
  obtain cs u where u: "serves K obs s cs u" "length cs \<le> unat limit"
      "length cs = unat limit \<or> (\<nexists>c w. serves_exit K obs u c w)"
    and run: "run_loop K obs (locals_after (vcpu_id (exec_vcpu s)) limit cs) u = Some (r, t)"
    using run_endsE [of K obs s limit] assms(4) by metis
  let ?it = "run_iteration K obs (locals_after (vcpu_id (exec_vcpu s)) limit cs) u"
  note safe = iteration_safe [OF assms(1,2) serves_ok [OF u(1) assms(1-3)] u(2)]
  from run show ?thesis
  proof (subst (asm) run_loop.simps, cases ?it)
    case (Some x)
    obtain q w where x: "x = (q, w)" by (cases x)
    note ok = safe [OF Some [unfolded x]]
    assume step: "(case ?it of None \<Rightarrow> None
      | Some (Ok (l', Continue c), s') \<Rightarrow> run_loop K obs l' s'
      | Some (Ok (l', Stopped report), s') \<Rightarrow> Some (finish_run l' report, s')
      | Some (Err e, s') \<Rightarrow> Some (Err e, s') | Some (Fault p, s') \<Rightarrow> Some (Fault p, s')) = Some (r, t)"
    show ?thesis
    proof (cases q)
      case (Ok ld)
      obtain l d where ld: "ld = (l, d)" by (cases ld)
      show ?thesis
      proof (cases d)
        case (Continue c)
        with Some x Ok ld u iteration_Continue [OF u(2), of K obs _ u l c w] show ?thesis by auto
      next
        case (Stopped report)
        with iteration_Stopped [OF u(2), of K obs _ u report w "finish_run l report"] Some x Ok ld
        have "finish_run l report = Ok (execution_of cs report)" by blast
        then have "\<not> is_fault (finish_run l report)" by simp
        with step Some x Ok ld Stopped ok show ?thesis by auto
      qed
    qed (use step Some x ok in auto)
  qed simp
qed

lemma example_guest_run:
  assumes "length page = 256"
  shows "run_once example_guest (exec_vcpu (example_vm n page printed)) =
    Some (Ok (if 0 < n then Ex_Io else Ex_Hlt),
      exec_vcpu (example_vm (n - 1) (if 0 < n then example_io_page 1 else replicate 8 0 @ [5, 0, 0, 0] @ replicate 244 0) printed))"
proof -
  have "run_exit_reason (replicate 8 0 @ [5, 0, 0, 0] @ replicate 244 0) = (Ok 5 :: (u32, vm_error) outcome)"
    by (simp add: run_exit_reason_Ok run_field_def subslice_def from_le_bytes_def)
  moreover have "run_exit_reason (example_io_page 1) = (Ok KVM_EXIT_IO :: (u32, vm_error) outcome)"
    by (simp add: run_exit_reason_Ok example_io_page_fields)
  ultimately show ?thesis
    using assms by (subst run_once.simps) (simp add: example_guest_def example_vm_def exit_from_raw_def)
qed

lemma example_guest_serves:
  assumes "length page = 256"
  shows "serves_exit example_guest (\<lambda>c bus k. (Ok (), bus, k)) (example_vm (Suc n) page printed) example_print
    (example_vm n (example_io_page 1) (printed @ [0x4B]))"
proof -
  have "run_port_io_exit 0 (example_io_page 1)
      = Ok \<lparr>pio_direction = Io_Out, pio_size = 1, pio_port = 0xE9, pio_count = 1, pio_output_data = [0x4B]\<rparr>"
    by (simp add: run_port_io_exit_def run_exit_reason_Ok example_io_page_fields checked_io_data_range_eq
        decode_port_io_direction_def copy_from_run_def prefix_size_defs)
      (simp add: example_io_page_def subslice_def)
  then show ?thesis
    unfolding serves_exit_def example_guest_run [OF assms]
    by (simp add: example_vm_def dispatch_vcpu_exit_def on_vcpu_def on_port_io_def op_then_def op_return_def
        port_dispatch_def debug_handle_def respond_port_io_def observe_def example_print_def)
qed

lemma example_guest_ok:
  "page_kept example_guest" "observer_ok (\<lambda>c bus k. (Ok (), bus, k))"
  "length page = 256 \<Longrightarrow> vm_state_ok (example_vm n page printed)"
  by (auto simp: page_kept_def example_guest_def observer_ok_def vm_state_ok_def example_vm_def
      required_prefix_size bus_inv_def bus_empty_def registered_ranges_def example_io_page_fields)

section \<open>Properties\<close>

text \<open>
  C33. The run loop ends: it fails to return exactly when, after fewer served exits than the budget
  allows, \<open>KVM_RUN\<close> is interrupted for ever; and when as many exits have been served as the budget
  allows it returns the exhaustion error, with the budget and the complete list of exit reasons.
\<close>

theorem run_loop_returns:
  "(run_vcpu_until_stopped_with_mmio_observer K obs limit s = None \<longleftrightarrow>
     (\<exists>cs t. serves K obs s cs t \<and> length cs < unat limit
       \<and> \<not> kvm_run_returns K (vcpu_fd (exec_vcpu t)) (vcpu_run (exec_vcpu t))))
   \<and> (\<forall>cs t. serves K obs s cs t \<longrightarrow> length cs = unat limit \<longrightarrow>
     run_vcpu_until_stopped_with_mmio_observer K obs limit s =
       Some (Err (VmExit (Exit_ExitBudgetExhausted (vcpu_id (exec_vcpu s)) limit limit
         (last_copied (map cont_reason cs)) (map cont_reason cs))), t))"
proof -
  have "run_vcpu_until_stopped_with_mmio_observer K obs limit s = None"
    if t: "serves K obs s cs t" "length cs < unat limit"
      "\<not> kvm_run_returns K (vcpu_fd (exec_vcpu t)) (vcpu_run (exec_vcpu t))" for cs t
  proof -
    have "\<nexists>c u. serves_exit K obs t c u" using t(3) serves_exit_returns by blast
    with run_follows [OF t(1), of limit] t(2,3) run_loop_ends(1) [of cs limit K obs t] show ?thesis by simp
  qed
  moreover have "\<exists>cs t. serves K obs s cs t \<and> length cs < unat limit
      \<and> \<not> kvm_run_returns K (vcpu_fd (exec_vcpu t)) (vcpu_run (exec_vcpu t))"
    if "run_vcpu_until_stopped_with_mmio_observer K obs limit s = None"
  proof (rule run_endsE [of K obs s limit])
    fix cs t assume "serves K obs s cs t" "length cs \<le> unat limit"
      "length cs = unat limit \<or> (\<nexists>c w. serves_exit K obs t c w)"
      "run_vcpu_until_stopped_with_mmio_observer K obs limit s =
        run_loop K obs (locals_after (vcpu_id (exec_vcpu s)) limit cs) t"
    with that run_loop_ends(1) [of cs limit K obs t "vcpu_id (exec_vcpu s)"] show ?thesis by auto
  qed
  ultimately show ?thesis using run_exhausts [of K obs s] by (auto simp: exhausted_error_def)
qed

theorem run_loop_returns_witness:
  "run_vcpu_until_stopped_with_mmio_observer example_guest (\<lambda>c bus k. (Ok (), bus, k)) 2
     (example_vm 5 (replicate 256 0) []) =
   Some (Err (VmExit (Exit_ExitBudgetExhausted 0 2 2 (Some KVM_EXIT_IO) [KVM_EXIT_IO, KVM_EXIT_IO])),
     example_vm 3 (example_io_page 1) [0x4B, 0x4B])"
proof -
  have "serves example_guest (\<lambda>c bus k. (Ok (), bus, k)) (example_vm 5 (replicate 256 0) [])
      [example_print, example_print] (example_vm 3 (example_io_page 1) [0x4B, 0x4B])"
    using example_guest_serves [of "replicate 256 0" 4 "[]"] example_guest_serves [of "example_io_page 1" 3 "[0x4B]"]
    by (auto intro!: serves.intros simp: example_io_page_fields)
  with run_loop_returns [of example_guest "\<lambda>c bus k. (Ok (), bus, k)" 2 "example_vm 5 (replicate 256 0) []"]
  show ?thesis by (auto simp: example_print_def last_copied_def example_vm_def)
qed

text \<open>
  C34. What a completed run reports: the loop returns a result exactly when fewer exits than the budget
  were served before the vCPU stopped, and the result holds the report of the stop, the port and MMIO
  exits in the order they were served, the complete list of exit reasons ending in the stop, and their
  number; the stop is a debug exit, a halt or a shutdown.
\<close>

theorem run_loop_reports_run:
  "run_vcpu_until_stopped_with_mmio_observer K obs limit s = Some (Ok r, t) \<longleftrightarrow>
    (\<exists>cs u. serves K obs s cs u \<and> length cs < unat limit \<and> stops_at K u (result_report r) t
      \<and> report_exit (result_report r) \<in> {Ex_Debug, Ex_Hlt, Ex_Shutdown}
      \<and> result_io_exits r = concat (map cont_port_io cs) \<and> result_mmio_exits r = concat (map cont_mmio cs)
      \<and> result_exit_reasons r = map cont_reason cs @ [exit_reason (report_exit (result_report r))]
      \<and> unat (result_completed_exits r) = length cs + 1)" (is "?run \<longleftrightarrow> (\<exists>cs u. ?spec cs u)")
proof
  have n: "unat (of_nat (length cs + 1) :: u32) = length cs + 1" if "length cs < unat limit"
    for cs :: "vm_exit_continuation list"
    using that unat_completed [of "length cs + 1" limit] by simp
  have stop: "report_exit report \<in> {Ex_Debug, Ex_Hlt, Ex_Shutdown}" if "stops_at K u report t" for u report
    using that dispatch_Stopped unfolding stops_at_def by metis
  show "\<exists>cs u. ?spec cs u" if ?run
  proof (rule run_endsE [of K obs s limit])
    fix cs u assume "serves K obs s cs u" "length cs \<le> unat limit"
      "length cs = unat limit \<or> (\<nexists>c w. serves_exit K obs u c w)"
      "run_vcpu_until_stopped_with_mmio_observer K obs limit s =
        run_loop K obs (locals_after (vcpu_id (exec_vcpu s)) limit cs) u"
    moreover from this that run_loop_ends(2) [of cs limit K obs u "vcpu_id (exec_vcpu s)" r t]
    obtain report where "length cs < unat limit" "stops_at K u report t" "r = execution_of cs report" by auto
    ultimately have "?spec cs u"
      using n [of cs] stop [of u report] by (simp add: execution_of_def del: of_nat_add of_nat_Suc)
    then show ?thesis by blast
  qed
  show ?run if spec: "\<exists>cs u. ?spec cs u"
  proof -
    from spec obtain cs u where u: "?spec cs u" by blast
    then have "r = execution_of cs (result_report r)"
      using n [of cs] by (cases r) (auto simp: execution_of_def word_unat_eq_iff simp del: of_nat_add of_nat_Suc)
    moreover have "\<nexists>c w. serves_exit K obs u c w" using u stops_at_unique by metis
    ultimately show ?run
      using u run_follows [of K obs s cs u limit] run_loop_ends(2) [of cs limit K obs u _ r t] by auto
  qed
qed

text \<open>
  C35. The run loop never panics: on a page that covers every payload and a bus with disjoint, well-formed
  devices, whatever the guest and KVM put into the page, no run faults (no assertion of the loop, of the
  error traces or of the dispatch fails) and the state it leaves is again one it can run from.
\<close>

theorem run_loop_never_faults:
  assumes "page_kept K" and "observer_ok obs" and "vm_state_ok s"
    and "run_vcpu_until_stopped_with_mmio_observer K obs limit s = Some (r, t)"
  shows "vm_state_ok t \<and> \<not> is_fault r"
  using whole_run_safe [OF assms] .

theorem run_loop_never_faults_witness:
  "\<exists>r t. run_vcpu_until_stopped_with_mmio_observer example_guest (\<lambda>c bus k. (Ok (), bus, k)) 5
     (example_vm 1 (replicate 256 0) []) = Some (Ok r, t)
   \<and> result_exit_reasons r = [KVM_EXIT_IO, KVM_EXIT_HLT] \<and> vm_state_ok t"
proof -
  let ?obs = "\<lambda>c bus k. (Ok (), bus, k)" and ?u = "example_vm 0 (example_io_page 1) [0x4B]"
  have s: "serves example_guest ?obs (example_vm 1 (replicate 256 0) []) [example_print] ?u"
    using serves_step [OF example_guest_serves [of "replicate 256 0" 0 "[]"] serves_nil] by simp
  obtain report t where stop: "stops_at example_guest ?u report t" and hlt: "report_exit report = Ex_Hlt"
    unfolding stops_at_def example_guest_run [OF example_io_page_fields(1)]
    by (auto simp: dispatch_vcpu_exit_def on_vcpu_def stop_vcpu_def stopped_report_def vcpu_read_registers_def
        vcpu_get_regs_def example_guest_def)
  have run: "run_vcpu_until_stopped_with_mmio_observer example_guest ?obs 5 (example_vm 1 (replicate 256 0) [])
      = Some (Ok (execution_of [example_print] report), t)"
    using run_follows [OF s, of 5] run_loop_ends(2) [of "[example_print]" 5 example_guest ?obs ?u] stop
      stops_at_unique [OF stop] by auto
  from run_loop_never_faults [OF example_guest_ok(1,2) example_guest_ok(3) run] run hlt show ?thesis
    by (auto simp: execution_of_def example_print_def)
qed

end
