(* ===== verification/Virtio_Blk_Checkpoint.thy ===== *)
theory Virtio_Blk_Checkpoint
  imports Virtio_Blk_Correct
begin

text \<open>
  Checkpoints of a virtio-blk device (\<open>src/src/pci/virtio_blk_checkpoint.rs\<close>): capturing the device
  state, with a token for an undelivered completion or an unprocessed notification, validating it,
  and materializing a device from it.  The locale \<open>snapshot\<close> is the contract of a capture and its
  inverse; it is interpreted for the three kinds of capture.
\<close>

section \<open>State and tokens\<close>

datatype (plugins only: code) blk_checkpoint_error =
    Ck_ExternalBackingUnsupported
  | Ck_NotQuiescent
  | Ck_PendingCompletionWithoutToken u8
  | Ck_InvalidPendingCompletionToken u64 u16 u16 u16
  | Ck_InvalidPendingNotificationToken u64 u16 u16 u16
  | Ck_MisalignedBar u64
  | Ck_UnsupportedDriverFeatures u64
  | Ck_InvalidStatus u8
  | Ck_InvalidQueueSize u16
  | Ck_QueueEnabledWithoutAddresses
  | Ck_DriverOkWithoutReadyQueue
  | Ck_InvalidIsrStatus u8

record blk_checkpoint =
  ck_bar0 :: u64
  ck_device_feature_select :: u32
  ck_driver_feature_select :: u32
  ck_driver_features :: u64
  ck_status :: u8
  ck_queue_select :: u16
  ck_queue_size :: u16
  ck_queue_enabled :: bool
  ck_queue_desc :: u64
  ck_queue_driver :: u64
  ck_queue_device :: u64
  ck_last_avail_idx :: u16
  ck_last_used_idx :: u16
  ck_isr_status :: u8
  ck_backing :: "u8 list"

record completion_token =
  ct_bar0 :: u64
  ct_queue :: u16
  ct_last_avail_idx :: u16
  ct_last_used_idx :: u16

record notification_token =
  nt_bar0 :: u64
  nt_queue :: u16
  nt_last_avail_idx :: u16
  nt_last_used_idx :: u16

definition completion_invalid :: "completion_token \<Rightarrow> blk_checkpoint_error" where
  "completion_invalid t =
     Ck_InvalidPendingCompletionToken (ct_bar0 t) (ct_queue t) (ct_last_avail_idx t) (ct_last_used_idx t)"

definition completion_from_parts ::
  "u64 \<Rightarrow> u16 \<Rightarrow> u16 \<Rightarrow> u16 \<Rightarrow> (completion_token, blk_checkpoint_error) outcome" where
  "completion_from_parts bar0 queue last_avail last_used =
     (let t = \<lparr>ct_bar0 = bar0, ct_queue = queue, ct_last_avail_idx = last_avail,
              ct_last_used_idx = last_used\<rparr> in
      if queue \<noteq> VIRTIO_BLK_QUEUE_INDEX \<or> last_avail = 0 \<or> last_avail \<noteq> last_used
      then Err (completion_invalid t) else Ok t)"

definition completion_validate_device ::
  "completion_token \<Rightarrow> blk_dev \<Rightarrow> (unit, blk_checkpoint_error) outcome" where
  "completion_validate_device t d =
     (if ct_bar0 t \<noteq> blk_bar0 d \<or> ct_queue t \<noteq> VIRTIO_BLK_QUEUE_INDEX
         \<or> ct_last_avail_idx t \<noteq> blk_last_avail_idx d \<or> ct_last_used_idx t \<noteq> blk_last_used_idx d
         \<or> \<not> checkpoint_completion_pending d
      then Err (completion_invalid t) else Ok ())"

definition completion_validate_state ::
  "completion_token \<Rightarrow> blk_checkpoint \<Rightarrow> (unit, blk_checkpoint_error) outcome" where
  "completion_validate_state t s =
     (if ct_bar0 t \<noteq> ck_bar0 s \<or> ct_queue t \<noteq> VIRTIO_BLK_QUEUE_INDEX
         \<or> ct_last_avail_idx t \<noteq> ck_last_avail_idx s \<or> ct_last_used_idx t \<noteq> ck_last_used_idx s
         \<or> ck_isr_status s \<noteq> VIRTIO_ISR_QUEUE_INTERRUPT
      then Err (completion_invalid t) else Ok ())"

definition completion_capture :: "blk_dev \<Rightarrow> (completion_token, blk_checkpoint_error) outcome" where
  "completion_capture d =
     and_then (completion_from_parts (blk_bar0 d) VIRTIO_BLK_QUEUE_INDEX
       (blk_last_avail_idx d) (blk_last_used_idx d)) (\<lambda>t.
     and_then (completion_validate_device t d) (\<lambda>_. Ok t))"

definition notification_invalid :: "notification_token \<Rightarrow> blk_checkpoint_error" where
  "notification_invalid t =
     Ck_InvalidPendingNotificationToken (nt_bar0 t) (nt_queue t) (nt_last_avail_idx t) (nt_last_used_idx t)"

definition notification_from_parts ::
  "u64 \<Rightarrow> u16 \<Rightarrow> u16 \<Rightarrow> u16 \<Rightarrow> (notification_token, blk_checkpoint_error) outcome" where
  "notification_from_parts bar0 queue last_avail last_used =
     (let t = \<lparr>nt_bar0 = bar0, nt_queue = queue, nt_last_avail_idx = last_avail,
              nt_last_used_idx = last_used\<rparr> in
      if queue \<noteq> VIRTIO_BLK_QUEUE_INDEX \<or> last_avail \<noteq> last_used
      then Err (notification_invalid t) else Ok t)"

definition notification_validate_device ::
  "notification_token \<Rightarrow> blk_dev \<Rightarrow> (unit, blk_checkpoint_error) outcome" where
  "notification_validate_device t d =
     (if nt_bar0 t \<noteq> blk_bar0 d \<or> nt_queue t \<noteq> VIRTIO_BLK_QUEUE_INDEX
         \<or> nt_last_avail_idx t \<noteq> blk_last_avail_idx d \<or> nt_last_used_idx t \<noteq> blk_last_used_idx d
         \<or> \<not> checkpoint_notification_pending d
      then Err (notification_invalid t) else Ok ())"

definition notification_validate_state ::
  "notification_token \<Rightarrow> blk_checkpoint \<Rightarrow> (unit, blk_checkpoint_error) outcome" where
  "notification_validate_state t s =
     (if nt_bar0 t \<noteq> ck_bar0 s \<or> nt_queue t \<noteq> VIRTIO_BLK_QUEUE_INDEX
         \<or> nt_last_avail_idx t \<noteq> ck_last_avail_idx s \<or> nt_last_used_idx t \<noteq> ck_last_used_idx s
         \<or> ck_isr_status s \<noteq> 0
      then Err (notification_invalid t) else Ok ())"

definition notification_capture :: "blk_dev \<Rightarrow> (notification_token, blk_checkpoint_error) outcome" where
  "notification_capture d =
     and_then (notification_from_parts (blk_bar0 d) VIRTIO_BLK_QUEUE_INDEX
       (blk_last_avail_idx d) (blk_last_used_idx d)) (\<lambda>t.
     and_then (notification_validate_device t d) (\<lambda>_. Ok t))"

section \<open>Capture and materialize\<close>

definition checkpoint_validate :: "blk_checkpoint \<Rightarrow> (unit, blk_checkpoint_error) outcome" where
  "checkpoint_validate s =
     (if ck_bar0 s mod ucast VIRTIO_BLK_BAR_SIZE \<noteq> 0 then Err (Ck_MisalignedBar (ck_bar0 s))
      else if ck_driver_features s AND NOT VIRTIO_BLK_SUPPORTED_FEATURES \<noteq> 0
      then Err (Ck_UnsupportedDriverFeatures (ck_driver_features s))
      else if ck_status s AND NOT VIRTIO_STATUS_KNOWN \<noteq> 0
         \<or> (ck_status s AND VIRTIO_STATUS_DRIVER \<noteq> 0 \<and> ck_status s AND VIRTIO_STATUS_ACKNOWLEDGE = 0)
         \<or> (ck_status s AND VIRTIO_STATUS_FEATURES_OK \<noteq> 0
            \<and> (ck_status s AND (VIRTIO_STATUS_ACKNOWLEDGE OR VIRTIO_STATUS_DRIVER)
                 \<noteq> VIRTIO_STATUS_ACKNOWLEDGE OR VIRTIO_STATUS_DRIVER
               \<or> ck_driver_features s AND VIRTIO_F_VERSION_1 = 0))
      then Err (Ck_InvalidStatus (ck_status s))
      else if ck_queue_size s = 0 \<or> ck_queue_size s > VIRTIO_QUEUE_MAX_SIZE
         \<or> \<not> is_power_of_two (ck_queue_size s)
      then Err (Ck_InvalidQueueSize (ck_queue_size s))
      else if ck_queue_enabled s
         \<and> (ck_queue_desc s = 0 \<or> ck_queue_driver s = 0 \<or> ck_queue_device s = 0)
      then Err Ck_QueueEnabledWithoutAddresses
      else if ck_status s AND VIRTIO_STATUS_DRIVER_OK \<noteq> 0
         \<and> (ck_status s AND VIRTIO_STATUS_FEATURES_OK = 0 \<or> \<not> ck_queue_enabled s
            \<or> ck_driver_features s AND VIRTIO_F_VERSION_1 = 0)
      then Err Ck_DriverOkWithoutReadyQueue
      else if ck_isr_status s AND NOT VIRTIO_ISR_QUEUE_INTERRUPT \<noteq> 0
      then Err (Ck_InvalidIsrStatus (ck_isr_status s))
      else Ok ())"

text \<open>The fields that a checkpoint copies from the device.\<close>

definition checkpoint_of :: "blk_dev \<Rightarrow> blk_checkpoint" where
  "checkpoint_of d =
     \<lparr>ck_bar0 = blk_bar0 d, ck_device_feature_select = blk_device_feature_select d,
      ck_driver_feature_select = blk_driver_feature_select d,
      ck_driver_features = blk_driver_features d, ck_status = blk_status d,
      ck_queue_select = blk_queue_select d, ck_queue_size = blk_queue_size d,
      ck_queue_enabled = blk_queue_enabled d, ck_queue_desc = blk_queue_desc d,
      ck_queue_driver = blk_queue_driver d, ck_queue_device = blk_queue_device d,
      ck_last_avail_idx = blk_last_avail_idx d, ck_last_used_idx = blk_last_used_idx d,
      ck_isr_status = blk_isr_status d, ck_backing = blk_backing d\<rparr>"

definition capture_semantic :: "blk_dev \<Rightarrow> (blk_checkpoint, blk_checkpoint_error) outcome" where
  "capture_semantic d =
     (if \<not> checkpoint_backing_portable d then Err Ck_ExternalBackingUnsupported
      else and_then (checkpoint_validate (checkpoint_of d)) (\<lambda>_. Ok (checkpoint_of d)))"

definition checkpoint_capture :: "blk_dev \<Rightarrow> (blk_checkpoint, blk_checkpoint_error) outcome" where
  "checkpoint_capture d =
     (if \<not> checkpoint_backing_portable d then Err Ck_ExternalBackingUnsupported
      else if \<not> checkpoint_quiescent d then Err Ck_NotQuiescent
      else if \<not> checkpoint_fully_quiescent d
      then Err (Ck_PendingCompletionWithoutToken (blk_isr_status d))
      else capture_semantic d)"

definition capture_with_pending_completion ::
  "blk_dev \<Rightarrow> (blk_checkpoint \<times> completion_token, blk_checkpoint_error) outcome" where
  "capture_with_pending_completion d =
     (if \<not> checkpoint_backing_portable d then Err Ck_ExternalBackingUnsupported
      else and_then (completion_capture d) (\<lambda>t.
           and_then (capture_semantic d) (\<lambda>s.
           and_then (completion_validate_state t s) (\<lambda>_. Ok (s, t)))))"

definition capture_with_pending_notification ::
  "blk_dev \<Rightarrow> (blk_checkpoint \<times> notification_token, blk_checkpoint_error) outcome" where
  "capture_with_pending_notification d =
     (if \<not> checkpoint_backing_portable d then Err Ck_ExternalBackingUnsupported
      else and_then (notification_capture d) (\<lambda>t.
           and_then (capture_semantic d) (\<lambda>s.
           and_then (notification_validate_state t s) (\<lambda>_. Ok (s, t)))))"

definition checkpoint_materialize :: "blk_checkpoint \<Rightarrow> (blk_dev, blk_checkpoint_error) outcome" where
  "checkpoint_materialize s =
     and_then (checkpoint_validate s) (\<lambda>_.
     Ok \<lparr>blk_bar0 = ck_bar0 s, blk_device_feature_select = ck_device_feature_select s,
         blk_driver_feature_select = ck_driver_feature_select s,
         blk_driver_features = ck_driver_features s, blk_status = ck_status s,
         blk_queue_select = ck_queue_select s, blk_queue_size = ck_queue_size s,
         blk_queue_enabled = ck_queue_enabled s, blk_queue_desc = ck_queue_desc s,
         blk_queue_driver = ck_queue_driver s, blk_queue_device = ck_queue_device s,
         blk_notify_pending = False, blk_last_avail_idx = ck_last_avail_idx s,
         blk_last_used_idx = ck_last_used_idx s, blk_isr_status = ck_isr_status s,
         blk_backing = ck_backing s, blk_persistent_backing = None\<rparr>)"

definition materialize_with_pending_notification ::
  "blk_checkpoint \<Rightarrow> notification_token \<Rightarrow> (blk_dev, blk_checkpoint_error) outcome" where
  "materialize_with_pending_notification s t =
     and_then (notification_validate_state t s) (\<lambda>_.
     and_then (checkpoint_materialize s) (\<lambda>d.
     let d' = d\<lparr>blk_notify_pending := True\<rparr> in
     and_then (notification_validate_device t d') (\<lambda>_. Ok d')))"

text \<open>A restore of a state with a completion token: materialize, and check that the token fits.\<close>

definition restore_with_pending_completion ::
  "blk_checkpoint \<times> completion_token \<Rightarrow> (blk_dev, blk_checkpoint_error) outcome" where
  "restore_with_pending_completion = (\<lambda>(s, t).
     and_then (checkpoint_materialize s) (\<lambda>d.
     and_then (completion_validate_device t d) (\<lambda>_. Ok d)))"

text \<open>What a checkpoint needs besides the device invariant.\<close>

definition checkpointable :: "blk_dev \<Rightarrow> bool" where
  "checkpointable d \<longleftrightarrow>
     blk_persistent_backing d = None \<and> blk_bar0 d mod 0x1000 = 0
     \<and> blk_driver_features d AND NOT VIRTIO_BLK_SUPPORTED_FEATURES = 0
     \<and> (blk_status d AND VIRTIO_STATUS_DRIVER_OK \<noteq> 0 \<longrightarrow>
          blk_status d AND VIRTIO_STATUS_FEATURES_OK \<noteq> 0 \<and> blk_queue_enabled d)"

definition example_checkpoint_dev :: blk_dev where
  "example_checkpoint_dev = example_blk_dev\<lparr>blk_notify_pending := False\<rparr>"

section \<open>The contract of a snapshot\<close>

locale snapshot =
  fixes capture :: "'d \<Rightarrow> ('s, 'e) outcome"
    and restore :: "'s \<Rightarrow> ('d, 'e) outcome"
  assumes restore_capture: "capture d = Ok s \<Longrightarrow> restore s = Ok d"
begin

text \<open>A snapshot determines the device, so no two devices share one.\<close>

lemma capture_inj: "capture d = Ok s \<Longrightarrow> capture d' = Ok s \<Longrightarrow> d = d'"
  using restore_capture by (metis outcome.inject(1))

text \<open>Restoring and going on is the same as going on.\<close>

lemma resume: "capture d = Ok s \<Longrightarrow> and_then (restore s) run = run d"
  by (simp add: restore_capture)

end

section \<open>Validation and round trips\<close>

lemma blk_features_version:
  "(x :: u64) AND VIRTIO_F_VERSION_1 = VIRTIO_F_VERSION_1 \<longleftrightarrow> x AND VIRTIO_F_VERSION_1 \<noteq> 0"
proof -
  have "x AND 2 ^ n = (if bit x n then 2 ^ n else 0)" for n
    by (rule bit_word_eqI) (auto simp: bit_simps)
  from this [of 32] show ?thesis by (simp split: if_splits)
qed

lemma checkpoint_validate_inv:
  assumes "blk_inv d"
  shows "checkpoint_validate (checkpoint_of d) = Ok u \<longleftrightarrow>
    blk_bar0 d mod 0x1000 = 0
    \<and> blk_driver_features d AND NOT VIRTIO_BLK_SUPPORTED_FEATURES = 0
    \<and> (blk_status d AND VIRTIO_STATUS_DRIVER_OK \<noteq> 0 \<longrightarrow>
         blk_status d AND VIRTIO_STATUS_FEATURES_OK \<noteq> 0 \<and> blk_queue_enabled d)"
  using assms unfolding checkpoint_validate_def if_Err_Ok checkpoint_of_def
  by (auto simp: blk_inv_def status_consistent_def blk_features_valid_def blk_features_version
      valid_queue_size_def and_not_1 not_less del: mod_0_imp_dvd)

lemma materialize_checkpoint_of:
  "checkpoint_validate (checkpoint_of d) = Ok u \<Longrightarrow>
     checkpoint_materialize (checkpoint_of d)
     = Ok (d\<lparr>blk_notify_pending := False, blk_persistent_backing := None\<rparr>)"
  by (cases d) (simp add: checkpoint_materialize_def checkpoint_of_def)

lemma capture_semantic_Ok:
  "capture_semantic d = Ok s \<longleftrightarrow>
     blk_persistent_backing d = None \<and> checkpoint_validate (checkpoint_of d) = Ok () \<and> s = checkpoint_of d"
  by (auto simp: capture_semantic_def checkpoint_backing_portable_def outcome_simps)

lemma blk_dev_no_file:
  "blk_persistent_backing d = None \<Longrightarrow> d\<lparr>blk_persistent_backing := None\<rparr> = d"
  "\<not> blk_notify_pending d \<Longrightarrow> d\<lparr>blk_notify_pending := False\<rparr> = d"
  "blk_notify_pending d \<Longrightarrow> d\<lparr>blk_notify_pending := True\<rparr> = d"
  by (cases d; simp)+

interpretation plain: snapshot checkpoint_capture checkpoint_materialize
proof
  fix d s assume "checkpoint_capture d = Ok s"
  then have "capture_semantic d = Ok s" and q: "\<not> blk_notify_pending d"
    by (auto simp: checkpoint_capture_def checkpoint_quiescent_def split: if_splits)
  then have c: "blk_persistent_backing d = None" "checkpoint_validate (checkpoint_of d) = Ok ()"
    "s = checkpoint_of d"
    by (simp_all add: capture_semantic_Ok)
  from materialize_checkpoint_of [OF c(2)] c q show "checkpoint_materialize s = Ok d"
    by (simp add: blk_dev_no_file)
qed

interpretation pending_completion: snapshot capture_with_pending_completion
  restore_with_pending_completion
proof
  fix d st assume c: "capture_with_pending_completion d = Ok st"
  obtain s t where st: "st = (s, t)" by (cases st)
  from c have t: "completion_validate_device t d = Ok ()"
    and s: "blk_persistent_backing d = None" "checkpoint_validate (checkpoint_of d) = Ok ()"
    "s = checkpoint_of d"
    unfolding st
    by (auto simp: capture_with_pending_completion_def completion_capture_def capture_semantic_Ok
        outcome_simps split: if_splits)
  from t have "\<not> blk_notify_pending d"
    by (auto simp: completion_validate_device_def checkpoint_completion_pending_def split: if_splits)
  with materialize_checkpoint_of [OF s(2)] s t st show "restore_with_pending_completion st = Ok d"
    by (simp add: restore_with_pending_completion_def blk_dev_no_file)
qed

interpretation pending_notification: snapshot capture_with_pending_notification
  "\<lambda>(s, t). materialize_with_pending_notification s t"
proof
  fix d st assume c: "capture_with_pending_notification d = Ok st"
  obtain s t where st: "st = (s, t)" by (cases st)
  from c have t: "notification_validate_device t d = Ok ()" "notification_validate_state t s = Ok ()"
    and s: "blk_persistent_backing d = None" "checkpoint_validate (checkpoint_of d) = Ok ()"
    "s = checkpoint_of d"
    unfolding st
    by (auto simp: capture_with_pending_notification_def notification_capture_def capture_semantic_Ok
        outcome_simps split: if_splits)
  from t(1) have "blk_notify_pending d"
    by (auto simp: notification_validate_device_def checkpoint_notification_pending_def split: if_splits)
  with materialize_checkpoint_of [OF s(2)] s t st
  show "(case st of (s, t) \<Rightarrow> materialize_with_pending_notification s t) = Ok d"
    by (simp add: materialize_with_pending_notification_def blk_dev_no_file Let_def)
qed

lemma checkpointable_inv:
  "blk_inv d \<Longrightarrow> checkpointable d \<longleftrightarrow>
     blk_persistent_backing d = None \<and> checkpoint_validate (checkpoint_of d) = Ok ()"
  by (simp add: checkpointable_def checkpoint_validate_inv)

lemma checkpoint_exists:
  assumes "blk_inv d"
  shows "((\<exists>s. checkpoint_capture d = Ok s) \<longleftrightarrow>
            checkpointable d \<and> \<not> blk_notify_pending d \<and> blk_isr_status d = 0)
    \<and> ((\<exists>st. capture_with_pending_notification d = Ok st) \<longleftrightarrow>
         checkpointable d \<and> blk_notify_pending d \<and> blk_isr_status d = 0)
    \<and> ((\<exists>st. capture_with_pending_completion d = Ok st) \<longleftrightarrow>
         checkpointable d \<and> \<not> blk_notify_pending d \<and> blk_isr_status d = 1 \<and> blk_last_avail_idx d \<noteq> 0)"
proof -
  have eq: "blk_last_avail_idx d = blk_last_used_idx d" using assms by (simp add: blk_inv_def)
  have plain: "(\<exists>s. checkpoint_capture d = Ok s) \<longleftrightarrow>
      checkpointable d \<and> \<not> blk_notify_pending d \<and> blk_isr_status d = 0"
    by (auto simp: checkpoint_capture_def capture_semantic_Ok checkpointable_inv [OF assms]
        checkpoint_quiescent_def checkpoint_fully_quiescent_def checkpoint_backing_portable_def
        split: if_splits)
  have notification: "(\<exists>st. capture_with_pending_notification d = Ok st) \<longleftrightarrow>
      checkpointable d \<and> blk_notify_pending d \<and> blk_isr_status d = 0"
    by (auto simp: capture_with_pending_notification_def notification_capture_def outcome_simps
        capture_semantic_Ok checkpointable_inv [OF assms] notification_from_parts_def Let_def eq
        notification_validate_device_def notification_validate_state_def if_Err_Ok
        checkpoint_notification_pending_def checkpoint_backing_portable_def checkpoint_of_def)
  have completion: "(\<exists>st. capture_with_pending_completion d = Ok st) \<longleftrightarrow>
      checkpointable d \<and> \<not> blk_notify_pending d \<and> blk_isr_status d = 1 \<and> blk_last_avail_idx d \<noteq> 0"
    by (auto simp: capture_with_pending_completion_def completion_capture_def outcome_simps
        capture_semantic_Ok checkpointable_inv [OF assms] completion_from_parts_def Let_def eq
        completion_validate_device_def completion_validate_state_def if_Err_Ok
        checkpoint_completion_pending_def checkpoint_backing_portable_def checkpoint_of_def)
  from plain notification completion show ?thesis by blast
qed

lemma example_checkpoint:
  "blk_inv example_checkpoint_dev" "checkpointable example_checkpoint_dev"
  using example_blk_inv
  by (simp_all add: example_checkpoint_dev_def checkpointable_def blk_inv_def)
    (simp_all add: example_blk_dev_def blk_new_def VIRTIO_BLK_SUPPORTED_FEATURES_def)

section \<open>Properties\<close>

text \<open>
  C11. Every checkpoint restores the device it was taken from, field by field: the plain capture, the
  capture of an undelivered completion with its token and the capture of an unprocessed
  notification with its token are each inverted by the corresponding restore.
\<close>

theorem checkpoint_round_trip:
  "(checkpoint_capture d = Ok s \<longrightarrow> checkpoint_materialize s = Ok d)
   \<and> (capture_with_pending_completion d = Ok (s, ct) \<longrightarrow>
        restore_with_pending_completion (s, ct) = Ok d)
   \<and> (capture_with_pending_notification d = Ok (s, nt) \<longrightarrow>
        materialize_with_pending_notification s nt = Ok d)"
  using plain.restore_capture [of d s] pending_completion.restore_capture [of d "(s, ct)"]
    pending_notification.restore_capture [of d "(s, nt)"] by simp

theorem checkpoint_round_trip_witness:
  "\<exists>s. checkpoint_capture example_checkpoint_dev = Ok s
     \<and> checkpoint_materialize s = Ok example_checkpoint_dev"
proof -
  have "capture_semantic example_checkpoint_dev = Ok (checkpoint_of example_checkpoint_dev)"
    using example_checkpoint by (simp add: capture_semantic_Ok checkpointable_inv)
  then have "checkpoint_capture example_checkpoint_dev = Ok (checkpoint_of example_checkpoint_dev)"
    by (simp add: checkpoint_capture_def checkpoint_backing_portable_def checkpoint_quiescent_def
        checkpoint_fully_quiescent_def example_checkpoint_dev_def example_blk_dev_def blk_new_def)
  with checkpoint_round_trip [of example_checkpoint_dev "checkpoint_of example_checkpoint_dev"]
  show ?thesis by blast
qed

text \<open>
  C12. When a checkpoint exists: for a device in a state that its registers can reach, the plain
  capture succeeds exactly when nothing is pending and the device is memory-backed with an aligned
  BAR, supported features and no driver-OK status without an enabled queue; and every such device
  with a pending notification is captured by the token capture.
\<close>

theorem checkpoint_capture_exists_iff:
  assumes "blk_inv d"
  shows "((\<exists>s. checkpoint_capture d = Ok s) \<longleftrightarrow>
            checkpointable d \<and> \<not> blk_notify_pending d \<and> blk_isr_status d = 0)
    \<and> ((\<exists>st. capture_with_pending_notification d = Ok st) \<longleftrightarrow>
         checkpointable d \<and> blk_notify_pending d \<and> blk_isr_status d = 0)
    \<and> ((\<exists>st. capture_with_pending_completion d = Ok st) \<longleftrightarrow>
         checkpointable d \<and> \<not> blk_notify_pending d \<and> blk_isr_status d = 1 \<and> blk_last_avail_idx d \<noteq> 0)"
  using assms by (rule checkpoint_exists)

theorem checkpoint_capture_exists_iff_witness:
  "\<exists>s. checkpoint_capture example_checkpoint_dev = Ok s"
  using checkpoint_capture_exists_iff [OF example_checkpoint(1)] example_checkpoint(2)
  by (auto simp: example_checkpoint_dev_def example_blk_dev_def blk_new_def)

section \<open>States without a checkpoint\<close>

text \<open>
  After 65536 completions the indices are 0 again, and a completion that waits for its interrupt
  cannot be captured in any way: the token requires a non-zero index.
\<close>

lemma wrapped_completion_not_capturable:
  assumes "blk_inv d" and "blk_isr_status d = 1" and "blk_last_avail_idx d = 0"
  shows "checkpoint_capture d \<noteq> Ok s \<and> capture_with_pending_completion d \<noteq> Ok sc
       \<and> capture_with_pending_notification d \<noteq> Ok sn"
  using checkpoint_exists [OF assms(1)] assms(2,3) by (cases sc; cases sn) auto

text \<open>
  Conversely, a device whose driver wrote driver-OK before enabling the queue, which the status
  register accepts, is refused by the checkpoint validation.
\<close>

lemma unready_driver_not_capturable:
  assumes "blk_inv d" and "blk_status d AND VIRTIO_STATUS_DRIVER_OK \<noteq> 0" and "\<not> blk_queue_enabled d"
  shows "checkpoint_capture d \<noteq> Ok s \<and> capture_with_pending_completion d \<noteq> Ok sc
       \<and> capture_with_pending_notification d \<noteq> Ok sn"
  using checkpoint_exists [OF assms(1)] assms(2,3)
  by (cases sc; cases sn) (auto simp: checkpointable_def)

end
