(* ===== verification/Mmio_Checkpoint.thy ===== *)
theory Mmio_Checkpoint
  imports Mmio_Bus Virtio_Blk_Checkpoint
begin

text \<open>
  Checkpoints of virtio-blk devices on the MMIO bus
  (\<open>src/src/mmio/multi_device/virtio_blk_atomic_bus.rs\<close>): queries by BAR, capturing a device, verifying
  and restoring it, and restoring two devices in one atomic step, with or without a pending-completion
  or pending-notification token.

  The main results: a restore either fails and leaves the bus as it was, or replaces exactly the named
  devices by the snapshots; a captured device is restored exactly; and the precise conditions under
  which the two-device restores succeed.
\<close>

section \<open>Queries\<close>

definition blk_device_at :: "u64 \<Rightarrow> mmio_bus \<Rightarrow> blk_dev option" where
  "blk_device_at address bus = find (\<lambda>d. blk_bar0 d = address) (blk_devices bus)"

definition virtio_blk_queue_indices_at :: "u64 \<Rightarrow> mmio_bus \<Rightarrow> (u16 \<times> u16) option" where
  "virtio_blk_queue_indices_at address bus =
     map_option (\<lambda>d. (blk_last_avail_idx d, blk_last_used_idx d)) (blk_device_at address bus)"

definition virtio_blk_sector_at :: "u64 \<Rightarrow> mmio_bus \<Rightarrow> (u8 list option, 'e) outcome" where
  "virtio_blk_sector_at address bus =
     (case blk_device_at address bus of None \<Rightarrow> Ok None | Some d \<Rightarrow> map_ok Some (blk_sector0 d))"

definition virtio_blk_backing_range_at :: "u64 \<Rightarrow> u64 \<Rightarrow> u32 \<Rightarrow> mmio_bus \<Rightarrow> (u8 list option, 'e) outcome" where
  "virtio_blk_backing_range_at address sector data_length bus =
     (case blk_device_at address bus of None \<Rightarrow> Ok None | Some d \<Rightarrow> blk_backing_range sector data_length d)"

section \<open>Errors\<close>

text \<open>
  The text of a checkpoint error, as its template and arguments; hexadecimal and decimal rendering of
  the arguments is part of the template.
\<close>

fun checkpoint_error_text :: "blk_checkpoint_error \<Rightarrow> io_payload" where
  "checkpoint_error_text Ck_ExternalBackingUnsupported =
     Message ''virtio-blk checkpoint does not serialize external file-backed storage identity'' []"
| "checkpoint_error_text Ck_NotQuiescent = Message ''virtio-blk checkpoint state is not quiescent'' []"
| "checkpoint_error_text (Ck_PendingCompletionWithoutToken isr) =
     Message ''virtio-blk checkpoint has pending ISR status {isr_status:#x} without a completion-delivery token''
       [ucast isr]"
| "checkpoint_error_text (Ck_InvalidPendingCompletionToken bar queue avail used) =
     Message ''virtio-blk pending-completion token is invalid: bar={bar0:#x} queue={queue} avail={last_avail_idx} used={last_used_idx}''
       [bar, ucast queue, ucast avail, ucast used]"
| "checkpoint_error_text (Ck_InvalidPendingNotificationToken bar queue avail used) =
     Message ''virtio-blk pending-notification token is invalid: bar={bar0:#x} queue={queue} avail={last_avail_idx} used={last_used_idx}''
       [bar, ucast queue, ucast avail, ucast used]"
| "checkpoint_error_text (Ck_MisalignedBar bar) =
     Message ''virtio-blk BAR {bar0:#x} is not {:#x}-aligned'' [bar, ucast VIRTIO_BLK_BAR_SIZE]"
| "checkpoint_error_text (Ck_UnsupportedDriverFeatures features) =
     Message ''virtio-blk checkpoint contains unsupported driver features {features:#x}'' [features]"
| "checkpoint_error_text (Ck_InvalidStatus status) =
     Message ''virtio-blk checkpoint contains invalid device status {status:#x}'' [ucast status]"
| "checkpoint_error_text (Ck_InvalidQueueSize sz) =
     Message ''virtio-blk checkpoint queue size {size} is not a bounded non-zero power of two'' [ucast sz]"
| "checkpoint_error_text Ck_QueueEnabledWithoutAddresses =
     Message ''virtio-blk checkpoint enables the queue without complete descriptor/driver/device addresses'' []"
| "checkpoint_error_text Ck_DriverOkWithoutReadyQueue =
     Message ''virtio-blk checkpoint reports DRIVER_OK without a negotiated ready queue'' []"
| "checkpoint_error_text (Ck_InvalidIsrStatus status) =
     Message ''virtio-blk checkpoint contains unsupported ISR status bits {status:#x}'' [ucast status]"

definition virtio_blk_checkpoint_error :: "string \<Rightarrow> io_payload \<Rightarrow> vm_error" where
  "virtio_blk_checkpoint_error operation detail =
     HostEnvironment (Host_Io operation (Custom InvalidData detail))"

section \<open>Capture, verify, restore\<close>

definition capture_virtio_blk_checkpoint_at :: "u64 \<Rightarrow> mmio_bus \<Rightarrow> (blk_dev option, vm_error) outcome" where
  "capture_virtio_blk_checkpoint_at address bus =
     (case blk_device_at address bus of
        None \<Rightarrow> Ok None
      | Some d \<Rightarrow>
          if \<not> checkpoint_backing_portable d
          then Err (virtio_blk_checkpoint_error ''capture virtio-blk checkpoint state''
            (Message ''external file-backed storage identity is outside the current checkpoint schema'' []))
          else if \<not> checkpoint_fully_quiescent d
          then Err (virtio_blk_checkpoint_error ''capture virtio-blk checkpoint state''
            (if checkpoint_notification_pending d
             then Message ''device has a serviced host notification awaiting queue processing; pending notification requires an explicit service token'' []
             else if checkpoint_completion_pending d
             then Message ''device has a serviced queue completion awaiting irqfd delivery; pending completion requires an explicit delivery token'' []
             else Message ''device is not fully quiescent and does not match a supported token-owned checkpoint state'' []))
          else Ok (Some d))"

definition capture_virtio_blk_checkpoint_with_pending_completion_at ::
  "u64 \<Rightarrow> mmio_bus \<Rightarrow> ((blk_dev \<times> completion_token) option, vm_error) outcome" where
  "capture_virtio_blk_checkpoint_with_pending_completion_at address bus =
     (case blk_device_at address bus of
        None \<Rightarrow> Ok None
      | Some d \<Rightarrow>
          if \<not> checkpoint_backing_portable d
          then Err (virtio_blk_checkpoint_error ''capture virtio-blk pending completion''
            (Message ''external file-backed storage identity is outside the current checkpoint schema'' []))
          else and_then (map_err (\<lambda>e. virtio_blk_checkpoint_error ''capture virtio-blk pending completion''
            (checkpoint_error_text e)) (completion_capture d)) (\<lambda>token. Ok (Some (d, token))))"

definition capture_virtio_blk_checkpoint_with_pending_notification_at ::
  "u64 \<Rightarrow> mmio_bus \<Rightarrow> ((blk_dev \<times> notification_token) option, vm_error) outcome" where
  "capture_virtio_blk_checkpoint_with_pending_notification_at address bus =
     (case blk_device_at address bus of
        None \<Rightarrow> Ok None
      | Some d \<Rightarrow>
          if \<not> checkpoint_backing_portable d
          then Err (virtio_blk_checkpoint_error ''capture virtio-blk pending notification''
            (Message ''external file-backed storage identity is outside the current checkpoint schema'' []))
          else and_then (map_err (\<lambda>e. virtio_blk_checkpoint_error ''capture virtio-blk pending notification''
            (checkpoint_error_text e)) (notification_capture d)) (\<lambda>token. Ok (Some (d, token))))"

definition verify_virtio_blk_checkpoint_at :: "u64 \<Rightarrow> blk_dev \<Rightarrow> mmio_bus \<Rightarrow> (bool option, vm_error) outcome" where
  "verify_virtio_blk_checkpoint_at address snap bus =
     (if blk_bar0 snap \<noteq> address
      then Err (virtio_blk_checkpoint_error ''verify virtio-blk checkpoint state''
        (Message ''snapshot BAR {:#x} does not match requested BAR {address:#x}'' [blk_bar0 snap, address]))
      else Ok (map_option (\<lambda>d. d = snap) (blk_device_at address bus)))"

definition restore_virtio_blk_checkpoint_at :: "u64 \<Rightarrow> blk_dev \<Rightarrow> (mmio_bus, unit option, vm_error) op" where
  "restore_virtio_blk_checkpoint_at address snap bus =
     (if blk_bar0 snap \<noteq> address \<or> \<not> checkpoint_backing_portable snap \<or> \<not> checkpoint_fully_quiescent snap
      then (Err (virtio_blk_checkpoint_error ''restore virtio-blk checkpoint state''
        (Message ''snapshot BAR identity or quiescence contract is invalid'' [])), bus)
      else case position (\<lambda>d. blk_bar0 d = address) (blk_devices bus) of
        None \<Rightarrow> (Ok None, bus)
      | Some i \<Rightarrow>
          let d = blk_devices bus ! i in
          if \<not> checkpoint_backing_portable d \<or> \<not> checkpoint_fully_quiescent d
          then (Err (virtio_blk_checkpoint_error ''restore virtio-blk checkpoint state''
            (Message ''live device must be memory-backed and fully quiescent'' [])), bus)
          else (Ok (Some ()), bus\<lparr>blk_devices := (blk_devices bus)[i := snap]\<rparr>))"

section \<open>Restoring two devices\<close>

text \<open>
  The tail that the three two-device restores share: both live devices are found and must be
  memory-backed and quiescent, then both are replaced through \<open>split_at_mut\<close>.
\<close>

definition replace_two :: "nat \<Rightarrow> nat \<Rightarrow> 'd \<Rightarrow> 'd \<Rightarrow> 'd list \<Rightarrow> ('d list, 'e) outcome" where
  "replace_two i j a b ds =
     (if i < j then
        if length ds \<le> j then Fault Index_Out_Of_Range
        else Ok ((take j ds)[i := a] @ (drop j ds)[0 := b])
      else if length ds \<le> i \<or> i \<le> j then Fault Index_Out_Of_Range
        else Ok ((take i ds)[j := b] @ (drop i ds)[0 := a]))"

definition live_device :: "nat \<Rightarrow> mmio_bus \<Rightarrow> (blk_dev, 'e) outcome" where
  "live_device i bus =
     (if length (blk_devices bus) \<le> i then Fault Index_Out_Of_Range else Ok (blk_devices bus ! i))"

definition live_device_index :: "string \<Rightarrow> u64 \<Rightarrow> mmio_bus \<Rightarrow> (nat, vm_error) outcome" where
  "live_device_index operation address bus =
     ok_or (position (\<lambda>d. blk_bar0 d = address) (blk_devices bus))
       (virtio_blk_checkpoint_error operation
         (Message ''live virtio-blk device at BAR {:#x} is missing'' [address]))"

definition replace_live_devices ::
  "string \<Rightarrow> string \<Rightarrow> u64 \<times> blk_dev \<Rightarrow> u64 \<times> blk_dev \<Rightarrow> (mmio_bus, unit, vm_error) op" where
  "replace_live_devices operation not_quiescent first second bus = commit bus
     (and_then (live_device_index operation (fst first) bus) (\<lambda>first_index.
      and_then (live_device_index operation (fst second) bus) (\<lambda>second_index.
      if first_index = second_index
      then Err (virtio_blk_checkpoint_error operation
        (Message ''two checkpoint BARs resolved to the same live device'' []))
      else let busy = Err (virtio_blk_checkpoint_error operation (Message not_quiescent [])) in
        and_then (live_device first_index bus) (\<lambda>f.
        if \<not> checkpoint_backing_portable f then busy else
        and_then (live_device second_index bus) (\<lambda>s.
        if \<not> checkpoint_backing_portable s \<or> \<not> checkpoint_fully_quiescent f \<or> \<not> checkpoint_fully_quiescent s
        then busy
        else map_ok (\<lambda>ds. ((), bus\<lparr>blk_devices := ds\<rparr>))
          (replace_two first_index second_index (snd first) (snd second) (blk_devices bus)))))))"

definition ordered_bars :: "string \<Rightarrow> u64 \<Rightarrow> u64 \<Rightarrow> (unit, vm_error) outcome" where
  "ordered_bars operation first second =
     (if second \<le> first
      then Err (virtio_blk_checkpoint_error operation
        (Message ''two-device checkpoint BARs must be distinct and strictly increasing'' []))
      else Ok ())"

definition check_quiescent_snapshot :: "string \<Rightarrow> u64 \<times> blk_dev \<Rightarrow> (unit, vm_error) outcome" where
  "check_quiescent_snapshot operation cp =
     (if blk_bar0 (snd cp) \<noteq> fst cp \<or> \<not> checkpoint_backing_portable (snd cp)
         \<or> \<not> checkpoint_fully_quiescent (snd cp)
      then Err (virtio_blk_checkpoint_error operation
        (Message ''snapshot for BAR {address:#x} has mismatched identity or is not quiescent'' [fst cp]))
      else Ok ())"

definition restore_two_virtio_blk_checkpoints_atomic ::
  "u64 \<times> blk_dev \<Rightarrow> u64 \<times> blk_dev \<Rightarrow> (mmio_bus, unit, vm_error) op" where
  "restore_two_virtio_blk_checkpoints_atomic first second =
     (let operation = ''restore two virtio-blk checkpoint states'' in
      op_then (op_lift (ordered_bars operation (fst first) (fst second))) (\<lambda>_.
      op_then (op_lift (check_quiescent_snapshot operation first)) (\<lambda>_.
      op_then (op_lift (check_quiescent_snapshot operation second)) (\<lambda>_.
      replace_live_devices operation
        ''all live devices must be quiescent before either device is restored'' first second))))"

text \<open>The two token-aware restores have one body, over the token's BAR and its validation.\<close>

definition check_token_snapshot ::
  "string \<Rightarrow> string \<Rightarrow> u64 \<Rightarrow> (blk_dev \<Rightarrow> (unit, blk_checkpoint_error) outcome) \<Rightarrow> u64 \<times> blk_dev
     \<Rightarrow> (unit, vm_error) outcome" where
  "check_token_snapshot operation token_operation token_bar validate cp =
     (if blk_bar0 (snd cp) \<noteq> fst cp
      then Err (virtio_blk_checkpoint_error operation
        (Message ''snapshot BAR {:#x} does not match {address:#x}'' [blk_bar0 (snd cp), fst cp]))
      else if fst cp = token_bar then
        if \<not> checkpoint_backing_portable (snd cp)
        then Err (virtio_blk_checkpoint_error ''restore token-owned virtio-blk checkpoint state''
          (Message ''external file-backed storage identity is outside the current checkpoint schema'' []))
        else map_err (\<lambda>e. virtio_blk_checkpoint_error token_operation (checkpoint_error_text e))
          (validate (snd cp))
      else if \<not> checkpoint_fully_quiescent (snd cp)
      then Err (virtio_blk_checkpoint_error operation
        (Message ''non-token device at BAR {address:#x} is not fully quiescent'' [fst cp]))
      else Ok ())"

definition restore_two_with_token ::
  "string \<Rightarrow> string \<Rightarrow> string \<Rightarrow> u64 \<Rightarrow> (blk_dev \<Rightarrow> (unit, blk_checkpoint_error) outcome)
     \<Rightarrow> u64 \<times> blk_dev \<Rightarrow> u64 \<times> blk_dev \<Rightarrow> (mmio_bus, unit, vm_error) op" where
  "restore_two_with_token operation outside token_operation token_bar validate first second =
     op_then (op_lift (ordered_bars operation (fst first) (fst second))) (\<lambda>_.
     op_then (op_lift (if token_bar \<noteq> fst first \<and> token_bar \<noteq> fst second
       then Err (virtio_blk_checkpoint_error operation (Message outside [token_bar])) else Ok ())) (\<lambda>_.
     op_then (op_lift (check_token_snapshot operation token_operation token_bar validate first)) (\<lambda>_.
     op_then (op_lift (check_token_snapshot operation token_operation token_bar validate second)) (\<lambda>_.
     replace_live_devices operation
       ''all live devices must be fully quiescent before token-aware restore'' first second))))"

definition restore_two_with_pending_completion ::
  "completion_token \<Rightarrow> u64 \<times> blk_dev \<Rightarrow> u64 \<times> blk_dev \<Rightarrow> (mmio_bus, unit, vm_error) op" where
  "restore_two_with_pending_completion token =
     restore_two_with_token ''restore two virtio-blk checkpoint states with pending completion''
       ''pending-completion BAR {:#x} is outside checkpoint BARs'' ''restore pending virtio-blk completion''
       (ct_bar0 token) (completion_validate_device token)"

definition restore_two_with_pending_notification ::
  "notification_token \<Rightarrow> u64 \<times> blk_dev \<Rightarrow> u64 \<times> blk_dev \<Rightarrow> (mmio_bus, unit, vm_error) op" where
  "restore_two_with_pending_notification token =
     restore_two_with_token ''restore two virtio-blk checkpoint states with pending notification''
       ''pending-notification BAR {:#x} is outside checkpoint BARs'' ''restore pending virtio-blk notification''
       (nt_bar0 token) (notification_validate_device token)"

section \<open>Specification\<close>

text \<open>A live device that a restore may replace.\<close>

definition replaceable :: "u64 \<Rightarrow> mmio_bus \<Rightarrow> bool" where
  "replaceable address bus \<longleftrightarrow>
     (\<exists>d. blk_device_at address bus = Some d \<and> checkpoint_backing_portable d \<and> checkpoint_fully_quiescent d)"

text \<open>The bus with the first device at a BAR replaced.\<close>

definition put_device :: "u64 \<Rightarrow> blk_dev \<Rightarrow> mmio_bus \<Rightarrow> mmio_bus" where
  "put_device address d bus =
     (case position (\<lambda>d. blk_bar0 d = address) (blk_devices bus) of
        None \<Rightarrow> bus | Some i \<Rightarrow> bus\<lparr>blk_devices := (blk_devices bus)[i := d]\<rparr>)"

definition example_two_bus :: mmio_bus where
  "example_two_bus = \<lparr>byte_devices = [], rng_devices = [], blk_devices = [blk_new 0x10000, blk_new 0x20000],
     virtio_events = []\<rparr>"

section \<open>Lemmas\<close>

subsection \<open>Devices by BAR\<close>

lemma position_key: "position (\<lambda>d. f d = a) ds = position (\<lambda>x. x = a) (map f ds)"
  by (induction ds) auto

lemma blk_device_at_Some:
  "blk_device_at a bus = Some d \<longleftrightarrow>
     (\<exists>i. position (\<lambda>d. blk_bar0 d = a) (blk_devices bus) = Some i \<and> d = blk_devices bus ! i)"
  by (auto simp: blk_device_at_def position_find)

lemma replace_two_eq:
  assumes "i \<noteq> j" "i < length ds" "j < length ds"
  shows "replace_two i j a b ds = Ok (ds[i := a, j := b])"
proof (cases "i < j")
  case True
  have "ds[i := a, j := b] = (take j ds @ drop j ds)[i := a, j := b]" by simp
  with True assms show ?thesis
    unfolding replace_two_def by (simp add: list_update_append del: append_take_drop_id)
next
  case False
  with assms(1) have "j < i" by simp
  have "ds[j := b, i := a] = (take i ds @ drop i ds)[j := b, i := a]" by simp
  with \<open>j < i\<close> assms show ?thesis
    unfolding replace_two_def
    by (simp add: list_update_append list_update_swap [of i j] del: append_take_drop_id)
qed

lemma put_device_lookup:
  assumes "blk_bar0 d = a" and "blk_device_at a bus = Some d'"
  shows "blk_device_at b (put_device a d bus) = (if b = a then Some d else blk_device_at b bus)"
proof -
  obtain i where i: "position (\<lambda>d. blk_bar0 d = a) (blk_devices bus) = Some i"
    using assms(2) by (auto simp: blk_device_at_Some)
  note p = position_Some [OF i]
  have keys: "map blk_bar0 ((blk_devices bus)[i := d]) = map blk_bar0 (blk_devices bus)"
    using p assms(1) by (intro map_update_same) simp
  have "position (\<lambda>d. blk_bar0 d = b) ((blk_devices bus)[i := d])
      = position (\<lambda>d. blk_bar0 d = b) (blk_devices bus)" for b
    by (simp add: position_key [of blk_bar0] keys)
  with i p show ?thesis
    by (cases "position (\<lambda>d. blk_bar0 d = b) (blk_devices bus)")
      (auto simp: put_device_def blk_device_at_def position_find nth_list_update dest: position_Some)
qed

lemma put_device_inv:
  assumes "blk_bar0 d = a" "blk_inv d" "bus_inv bus"
  shows "bus_inv (put_device a d bus) \<and> registered_ranges (put_device a d bus) = registered_ranges bus"
proof (cases "position (\<lambda>d. blk_bar0 d = a) (blk_devices bus)")
  case None with assms show ?thesis by (simp add: put_device_def)
next
  case (Some i)
  with position_Some [OF Some] assms show ?thesis
    by (simp add: put_device_def bus_inv_def registered_ranges_def map_update_same list_all_update blk_range_def)
qed

subsection \<open>The shared tail\<close>

lemma replaceable_iff:
  "replaceable a bus \<longleftrightarrow> (\<exists>i. position (\<lambda>d. blk_bar0 d = a) (blk_devices bus) = Some i
     \<and> checkpoint_backing_portable (blk_devices bus ! i) \<and> checkpoint_fully_quiescent (blk_devices bus ! i))"
  by (auto simp: replaceable_def blk_device_at_Some)

lemma replace_live_devices_eq:
  assumes i: "position (\<lambda>d. blk_bar0 d = fst f) (blk_devices bus) = Some i"
    and j: "position (\<lambda>d. blk_bar0 d = fst s) (blk_devices bus) = Some j" and "i \<noteq> j"
  shows "replace_live_devices operation msg f s bus =
    (if checkpoint_backing_portable (blk_devices bus ! i) \<and> checkpoint_backing_portable (blk_devices bus ! j)
        \<and> checkpoint_fully_quiescent (blk_devices bus ! i) \<and> checkpoint_fully_quiescent (blk_devices bus ! j)
     then (Ok (), bus\<lparr>blk_devices := (blk_devices bus)[i := snd f, j := snd s]\<rparr>)
     else (Err (virtio_blk_checkpoint_error operation (Message msg [])), bus))"
  using position_Some [OF i] position_Some [OF j] assms
  by (simp add: replace_live_devices_def live_device_index_def live_device_def replace_two_eq Let_def commit_def)

lemma replace_live_devices_Ok:
  assumes "blk_bar0 (snd f) = fst f" "fst f \<noteq> fst s"
  shows "replace_live_devices operation msg f s bus = (Ok u, bus') \<longleftrightarrow>
    replaceable (fst f) bus \<and> replaceable (fst s) bus
    \<and> bus' = put_device (fst s) (snd s) (put_device (fst f) (snd f) bus)"
proof -
  have put: "put_device (fst s) (snd s) (put_device (fst f) (snd f) bus)
      = bus\<lparr>blk_devices := (blk_devices bus)[i := snd f, j := snd s]\<rparr>" and other: "i \<noteq> j"
    if i: "position (\<lambda>d. blk_bar0 d = fst f) (blk_devices bus) = Some i"
      and j: "position (\<lambda>d. blk_bar0 d = fst s) (blk_devices bus) = Some j" for i j
  proof -
    note p = position_Some [OF i] and q = position_Some [OF j]
    show ne: "i \<noteq> j" using p q assms(2) by auto
    have "map blk_bar0 ((blk_devices bus)[i := snd f]) = map blk_bar0 (blk_devices bus)"
      using p assms(1) by (intro map_update_same) simp
    then have "position (\<lambda>d. blk_bar0 d = fst s) ((blk_devices bus)[i := snd f]) = Some j"
      using j by (simp add: position_key [of blk_bar0])
    with i p q ne show "put_device (fst s) (snd s) (put_device (fst f) (snd f) bus)
      = bus\<lparr>blk_devices := (blk_devices bus)[i := snd f, j := snd s]\<rparr>"
      by (simp add: put_device_def)
  qed
  show ?thesis
  proof (cases "\<exists>i j. position (\<lambda>d. blk_bar0 d = fst f) (blk_devices bus) = Some i
      \<and> position (\<lambda>d. blk_bar0 d = fst s) (blk_devices bus) = Some j")
    case True
    then obtain i j where ij: "position (\<lambda>d. blk_bar0 d = fst f) (blk_devices bus) = Some i"
      "position (\<lambda>d. blk_bar0 d = fst s) (blk_devices bus) = Some j" by blast
    then show ?thesis
      by (auto simp: replace_live_devices_eq [OF ij other [OF ij]] put [OF ij] replaceable_iff)
  next
    case False
    then show ?thesis
      by (auto simp: replace_live_devices_def live_device_index_def outcome_simps replaceable_iff)
  qed
qed

lemma replace_live_devices_safe:
  "replace_live_devices operation msg f s bus = (r, bus') \<Longrightarrow> \<not> is_fault r \<and> (r \<noteq> Ok () \<longrightarrow> bus' = bus)"
proof -
  assume run: "replace_live_devices operation msg f s bus = (r, bus')"
  show ?thesis
  proof (cases "\<exists>i j. position (\<lambda>d. blk_bar0 d = fst f) (blk_devices bus) = Some i
      \<and> position (\<lambda>d. blk_bar0 d = fst s) (blk_devices bus) = Some j \<and> i \<noteq> j")
    case True
    then obtain i j where "position (\<lambda>d. blk_bar0 d = fst f) (blk_devices bus) = Some i"
      "position (\<lambda>d. blk_bar0 d = fst s) (blk_devices bus) = Some j" "i \<noteq> j" by blast
    with run show ?thesis by (auto simp: replace_live_devices_eq split: if_splits)
  next
    case False
    with run show ?thesis
      by (cases r) (auto simp: replace_live_devices_def live_device_index_def outcome_simps)
  qed
qed

subsection \<open>Two-device restores\<close>

lemma op_lift_then_Ok:
  "op_then (op_lift r) k st = (Ok y, t) \<longleftrightarrow> (\<exists>x. r = Ok x \<and> k x st = (Ok y, t))"
  by (cases r) (auto simp: op_then_def op_lift_def)

lemma op_lift_then_cases:
  assumes "op_then (op_lift r) k st = (q, t)"
  obtains x where "r = Ok x" "k x st = (q, t)" | "\<forall>x. r \<noteq> Ok x" "t = st" "is_fault q = is_fault r" "\<forall>x. q \<noteq> Ok x"
  using assms by (cases r) (auto simp: op_then_def op_lift_def)

lemma check_snapshot_Ok:
  "check_quiescent_snapshot operation cp = Ok u \<longleftrightarrow>
     blk_bar0 (snd cp) = fst cp \<and> checkpoint_backing_portable (snd cp) \<and> checkpoint_fully_quiescent (snd cp)"
  "ordered_bars operation a b = Ok u \<longleftrightarrow> a < b"
  "check_token_snapshot operation token_op bar validate cp = Ok u \<longleftrightarrow>
     blk_bar0 (snd cp) = fst cp
     \<and> (if fst cp = bar then checkpoint_backing_portable (snd cp) \<and> validate (snd cp) = Ok ()
        else checkpoint_fully_quiescent (snd cp))"
  by (auto simp: check_quiescent_snapshot_def ordered_bars_def check_token_snapshot_def if_Err_Ok
      outcome_simps not_le)

lemma restore_two_with_token_Ok:
  "restore_two_with_token operation outside token_op bar validate f s bus = (Ok (), bus') \<longleftrightarrow>
     fst f < fst s \<and> bar \<in> {fst f, fst s} \<and> blk_bar0 (snd f) = fst f \<and> blk_bar0 (snd s) = fst s
     \<and> (\<forall>cp \<in> {f, s}. if fst cp = bar then checkpoint_backing_portable (snd cp) \<and> validate (snd cp) = Ok ()
          else checkpoint_fully_quiescent (snd cp))
     \<and> replaceable (fst f) bus \<and> replaceable (fst s) bus
     \<and> bus' = put_device (fst s) (snd s) (put_device (fst f) (snd f) bus)"
  unfolding restore_two_with_token_def op_lift_then_Ok check_snapshot_Ok if_Err_Ok
  using replace_live_devices_Ok [of f s operation _ bus "()" bus'] by auto

lemma restore_two_plain_Ok:
  "restore_two_virtio_blk_checkpoints_atomic f s bus = (Ok (), bus') \<longleftrightarrow>
     fst f < fst s \<and> blk_bar0 (snd f) = fst f \<and> blk_bar0 (snd s) = fst s
     \<and> (\<forall>cp \<in> {f, s}. checkpoint_backing_portable (snd cp) \<and> checkpoint_fully_quiescent (snd cp))
     \<and> replaceable (fst f) bus \<and> replaceable (fst s) bus
     \<and> bus' = put_device (fst s) (snd s) (put_device (fst f) (snd f) bus)"
  unfolding restore_two_virtio_blk_checkpoints_atomic_def Let_def op_lift_then_Ok check_snapshot_Ok
  using replace_live_devices_Ok [of f s _ _ bus "()" bus'] by auto

lemma check_snapshot_safe [simp]:
  "\<not> is_fault (check_quiescent_snapshot operation cp)" "\<not> is_fault (ordered_bars operation a b)"
  "(\<And>d. \<not> is_fault (validate d)) \<Longrightarrow> \<not> is_fault (check_token_snapshot operation token_op bar validate cp)"
  by (simp_all add: check_quiescent_snapshot_def ordered_bars_def check_token_snapshot_def)

lemma restore_two_with_token_error:
  assumes "restore_two_with_token operation outside token_op bar validate f s bus = (r, bus')"
    and "\<And>d. \<not> is_fault (validate d)"
  shows "\<not> is_fault r \<and> (r \<noteq> Ok () \<longrightarrow> bus' = bus)"
  using assms unfolding restore_two_with_token_def
  by (elim op_lift_then_cases) (auto dest: replace_live_devices_safe split: if_splits)

lemma restore_two_plain_error:
  assumes "restore_two_virtio_blk_checkpoints_atomic f s bus = (r, bus')"
  shows "\<not> is_fault r \<and> (r \<noteq> Ok () \<longrightarrow> bus' = bus)"
  using assms unfolding restore_two_virtio_blk_checkpoints_atomic_def Let_def
  by (elim op_lift_then_cases) (auto dest: replace_live_devices_safe)

lemma validate_safe [simp]:
  "\<not> is_fault (completion_validate_device t d)" "\<not> is_fault (notification_validate_device n d)"
  by (simp_all add: completion_validate_device_def notification_validate_device_def)

lemma put_two_devices:
  assumes "bus_inv bus" "replaceable (fst f) bus" "replaceable (fst s) bus" "fst f < fst s"
    and "blk_bar0 (snd f) = fst f" "blk_bar0 (snd s) = fst s" "blk_inv (snd f)" "blk_inv (snd s)"
  defines "bus' \<equiv> put_device (fst s) (snd s) (put_device (fst f) (snd f) bus)"
  shows "bus_inv bus' \<and> registered_ranges bus' = registered_ranges bus
    \<and> (\<forall>a. blk_device_at a bus' = (if a = fst f then Some (snd f) else if a = fst s then Some (snd s)
                                  else blk_device_at a bus))"
proof -
  let ?mid = "put_device (fst f) (snd f) bus"
  obtain d e where d: "blk_device_at (fst f) bus = Some d" "blk_device_at (fst s) bus = Some e"
    using assms(2,3) by (auto simp: replaceable_def)
  note mid = put_device_lookup [OF assms(5) d(1)]
  have "blk_device_at (fst s) ?mid = Some e" using d(2) assms(4) by (simp add: mid)
  from put_device_lookup [OF assms(6) this] show ?thesis
    using put_device_inv [OF assms(5,7,1)] put_device_inv [OF assms(6,8), of ?mid] assms(4)
    by (auto simp: bus'_def mid)
qed

lemma example_two_bus:
  "bus_inv example_two_bus" "replaceable 0x10000 example_two_bus" "replaceable 0x20000 example_two_bus"
  by (simp_all add: bus_inv_def example_two_bus_def registered_ranges_def blk_inv_new ranges_disjoint_def
      replaceable_def blk_device_at_def)
    (simp_all add: blk_new_def checkpoint_backing_portable_def checkpoint_fully_quiescent_def)

section \<open>Properties\<close>

text \<open>
  C20. A two-device restore, plain or with either token, is atomic: it never panics; when it fails, the
  bus is exactly as before; when it succeeds, the devices at the two BARs are the two snapshots, the
  device at every other BAR is the one it was, and the bus invariant and all ranges are kept.
\<close>

theorem restore_two_all_or_nothing:
  assumes "bus_inv bus" "blk_inv (snd f)" "blk_inv (snd s)"
    and "restore \<in> {restore_two_virtio_blk_checkpoints_atomic, restore_two_with_pending_completion t,
           restore_two_with_pending_notification n}"
    and "restore f s bus = (r, bus')"
  shows "\<not> is_fault r \<and> (r \<noteq> Ok () \<longrightarrow> bus' = bus)
    \<and> bus_inv bus' \<and> registered_ranges bus' = registered_ranges bus
    \<and> (r = Ok () \<longrightarrow> (\<forall>a. blk_device_at a bus'
         = (if a = fst f then Some (snd f) else if a = fst s then Some (snd s) else blk_device_at a bus)))"
proof -
  have err: "\<not> is_fault r \<and> (r \<noteq> Ok () \<longrightarrow> bus' = bus)"
    using assms(4,5)
    by (auto simp: restore_two_with_pending_completion_def restore_two_with_pending_notification_def
        dest: restore_two_plain_error restore_two_with_token_error)
  show ?thesis
  proof (cases "r = Ok ()")
    case False with err assms(1) show ?thesis by simp
  next
    case True
    with assms(4,5) have "fst f < fst s" "blk_bar0 (snd f) = fst f" "blk_bar0 (snd s) = fst s"
      "replaceable (fst f) bus" "replaceable (fst s) bus"
      "bus' = put_device (fst s) (snd s) (put_device (fst f) (snd f) bus)"
      by (auto simp: restore_two_with_pending_completion_def restore_two_with_pending_notification_def
          restore_two_plain_Ok restore_two_with_token_Ok)
    with put_two_devices [of bus f s] assms(1-3) err show ?thesis by simp
  qed
qed

theorem restore_two_all_or_nothing_witness:
  "fst (restore_two_virtio_blk_checkpoints_atomic (0x10000, blk_new 0x10000) (0x20000, blk_new 0x20000)
      example_two_bus) = Ok ()
   \<and> blk_device_at 0x20000 (snd (restore_two_virtio_blk_checkpoints_atomic (0x10000, blk_new 0x10000)
        (0x20000, blk_new 0x20000) example_two_bus)) = Some (blk_new 0x20000)"
proof -
  have "restore_two_virtio_blk_checkpoints_atomic (0x10000, blk_new 0x10000) (0x20000, blk_new 0x20000)
      example_two_bus = (Ok (), put_device 0x20000 (blk_new 0x20000) (put_device 0x10000 (blk_new 0x10000)
        example_two_bus))"
    using example_two_bus by (simp add: restore_two_plain_Ok)
      (simp add: blk_new_def checkpoint_backing_portable_def checkpoint_fully_quiescent_def)
  then show ?thesis
    using restore_two_all_or_nothing [where restore = restore_two_virtio_blk_checkpoints_atomic
        and f = "(0x10000, blk_new 0x10000)" and s = "(0x20000, blk_new 0x20000)" and bus = example_two_bus]
      example_two_bus by (simp add: blk_inv_new)
qed

text \<open>
  C21. When a restore with a pending-completion token succeeds: exactly when the BARs increase strictly,
  the token names one of them, both snapshots carry their own BAR, the token's snapshot is
  memory-backed and matches the token, the other snapshot is quiescent, and both live devices are
  memory-backed and quiescent.  Nothing is required of the backing of the other snapshot, while the
  plain restore requires both snapshots to be memory-backed.
\<close>

theorem restore_two_success_iff:
  "((\<exists>bus'. restore_two_with_pending_completion t (a, d) (b, e) bus = (Ok (), bus')) \<longleftrightarrow>
      a < b \<and> ct_bar0 t \<in> {a, b} \<and> blk_bar0 d = a \<and> blk_bar0 e = b
      \<and> (if a = ct_bar0 t
         then checkpoint_backing_portable d \<and> completion_validate_device t d = Ok () \<and> checkpoint_fully_quiescent e
         else checkpoint_backing_portable e \<and> completion_validate_device t e = Ok () \<and> checkpoint_fully_quiescent d)
      \<and> replaceable a bus \<and> replaceable b bus)
   \<and> ((\<exists>bus'. restore_two_virtio_blk_checkpoints_atomic (a, d) (b, e) bus = (Ok (), bus')) \<longleftrightarrow>
      a < b \<and> blk_bar0 d = a \<and> blk_bar0 e = b
      \<and> checkpoint_backing_portable d \<and> checkpoint_backing_portable e
      \<and> checkpoint_fully_quiescent d \<and> checkpoint_fully_quiescent e
      \<and> replaceable a bus \<and> replaceable b bus)"
  unfolding restore_two_with_pending_completion_def restore_two_with_token_Ok restore_two_plain_Ok
  by auto

text \<open>
  C22. A captured device is restored exactly: a device captured from one bus can be restored on any bus
  whose device at that BAR is memory-backed and quiescent, the device there is then the captured one,
  and the verification against the checkpoint confirms it.
\<close>

theorem bus_checkpoint_round_trip:
  assumes "capture_virtio_blk_checkpoint_at a bus = Ok (Some d)" and "replaceable a bus2"
    and "restore_virtio_blk_checkpoint_at a d bus2 = (r, bus3)"
  shows "r = Ok (Some ()) \<and> blk_device_at a bus3 = Some d
    \<and> verify_virtio_blk_checkpoint_at a d bus3 = Ok (Some True)
    \<and> (\<forall>b. b \<noteq> a \<longrightarrow> blk_device_at b bus3 = blk_device_at b bus2)"
proof -
  have d: "blk_device_at a bus = Some d" "checkpoint_backing_portable d" "checkpoint_fully_quiescent d"
    using assms(1) by (auto simp: capture_virtio_blk_checkpoint_at_def split: option.splits if_splits)
  then have bar: "blk_bar0 d = a" by (auto simp: blk_device_at_def find_Some_iff)
  obtain e where e: "blk_device_at a bus2 = Some e" using assms(2) by (auto simp: replaceable_def)
  have "r = Ok (Some ())" "bus3 = put_device a d bus2"
    using assms(2,3) d bar
    by (auto simp: restore_virtio_blk_checkpoint_at_def replaceable_iff put_device_def Let_def)
  with put_device_lookup [OF bar e] bar show ?thesis
    by (simp add: verify_virtio_blk_checkpoint_at_def)
qed

theorem bus_checkpoint_round_trip_witness:
  "fst (restore_virtio_blk_checkpoint_at 0x10000 (blk_new 0x10000) example_two_bus) = Ok (Some ())"
proof -
  have "capture_virtio_blk_checkpoint_at 0x10000 example_two_bus = Ok (Some (blk_new 0x10000))"
    by (simp add: capture_virtio_blk_checkpoint_at_def example_two_bus_def blk_device_at_def)
      (simp add: blk_new_def checkpoint_backing_portable_def checkpoint_fully_quiescent_def)
  from bus_checkpoint_round_trip [OF this example_two_bus(2) surjective_pairing] show ?thesis by blast
qed

end
