(* ===== verification/Paging.thy ===== *)
theory Paging
  imports Guest_Memory
begin

unbundle bit_operations_syntax

text \<open>
  Page tables in guest RAM.  The boot code writes them as little-endian 64-bit entries; the processor
  reads them back when it translates an address.  This theory gives both views: the writes as
  a sequence of updates of 8-byte words, and the page walk of the architecture as an executable
  definition, against which the tables of the boot layouts are verified.
\<close>

section \<open>Entries\<close>

abbreviation PAGE_PRESENT :: u64 where "PAGE_PRESENT \<equiv> 1"
abbreviation PAGE_WRITABLE :: u64 where "PAGE_WRITABLE \<equiv> 2"
abbreviation PAGE_USER :: u64 where "PAGE_USER \<equiv> 4"
abbreviation PAGE_SIZE_2_MIB :: u64 where "PAGE_SIZE_2_MIB \<equiv> 0x80"

definition write_u64 :: "u64 \<Rightarrow> u64 \<Rightarrow> (guest_memory, unit, vm_error) op" where
  "write_u64 address v = mem_write address (to_le_bytes v)"

definition zero_page :: "u8 list" where
  "zero_page = replicate 4096 0"

text \<open>The 8-byte word at a physical address, as the processor reads it.\<close>

definition table_word :: "guest_memory \<Rightarrow> nat \<Rightarrow> u64" where
  "table_word m a = from_le_bytes (map (guest_byte m) [a..<a + 8])"

section \<open>The page walk\<close>

text \<open>
  Four-level translation of the architecture: level 3 is the PML4, level 0 the page table.  An entry
  is present, grants writes and user accesses, and at levels 1 and 2 may map a large page.
  Permissions are the conjunction over the levels.  The result for an address is the physical
  address with the permissions, or nothing when the processor raises a page fault.
\<close>

record page_access =
  access_address :: u64
  access_writable :: bool
  access_user :: bool

definition entry_address :: "nat \<Rightarrow> u64 \<Rightarrow> u64 \<Rightarrow> u64" where
  "entry_address level table va =
     (table AND mask 52 AND NOT (mask 12)) + 8 * (drop_bit (12 + 9 * level) va AND mask 9)"

definition leaf_access :: "nat \<Rightarrow> u64 \<Rightarrow> u64 \<Rightarrow> page_access" where
  "leaf_access bits e va =
     \<lparr>access_address = (e AND mask 52 AND NOT (mask bits)) OR (va AND mask bits),
      access_writable = (e AND PAGE_WRITABLE \<noteq> 0), access_user = (e AND PAGE_USER \<noteq> 0)\<rparr>"

definition restrict_access :: "u64 \<Rightarrow> page_access \<Rightarrow> page_access" where
  "restrict_access e p =
     p\<lparr>access_writable := access_writable p \<and> e AND PAGE_WRITABLE \<noteq> 0,
       access_user := access_user p \<and> e AND PAGE_USER \<noteq> 0\<rparr>"

definition read_entry :: "guest_memory \<Rightarrow> u64 \<Rightarrow> u64 option" where
  "read_entry m a =
     (case mem_read m a 8 of
        Ok bs \<Rightarrow> let e = from_le_bytes bs in if e AND PAGE_PRESENT = 0 then None else Some e
      | _ \<Rightarrow> None)"

primrec table_walk :: "nat \<Rightarrow> guest_memory \<Rightarrow> u64 \<Rightarrow> u64 \<Rightarrow> page_access option" where
  "table_walk 0 m table va =
     map_option (\<lambda>e. leaf_access 12 e va) (read_entry m (entry_address 0 table va))"
| "table_walk (Suc level) m table va =
     Option.bind (read_entry m (entry_address (Suc level) table va)) (\<lambda>e.
       if level < 2 \<and> e AND PAGE_SIZE_2_MIB \<noteq> 0
       then Some (leaf_access (12 + 9 * Suc level) e va)
       else map_option (restrict_access e) (table_walk level m e va))"

definition canonical :: "u64 \<Rightarrow> bool" where
  "canonical va \<longleftrightarrow> unat va < 2 ^ 47 \<or> 2 ^ 64 - 2 ^ 47 \<le> unat va"

definition translate :: "guest_memory \<Rightarrow> u64 \<Rightarrow> u64 \<Rightarrow> page_access option" where
  "translate m cr3 va = (if canonical va then table_walk 3 m cr3 va else None)"

text \<open>A loop that writes entries of a table, as the list of the indices and values it writes.\<close>

fun write_entries :: "u64 \<Rightarrow> (nat \<times> u64) list \<Rightarrow> guest_memory \<Rightarrow> guest_memory" where
  "write_entries table [] m = m"
| "write_entries table ((i, v) # es) m =
     write_entries table es (poke (table + 8 * of_nat i) (to_le_bytes v) m)"

text \<open>An entry is a page-aligned frame together with flag bits below the page size.\<close>

definition page_frame :: "u64 \<Rightarrow> bool" where
  "page_frame p \<longleftrightarrow> take_bit 12 p = 0 \<and> take_bit 52 p = p"

section \<open>Lemmas\<close>

subsection \<open>Words in guest RAM\<close>

lemma nat_from_le_zeros [simp]: "nat_from_le (replicate n 0) = 0"
  by (induction n) simp_all

lemma from_le_bytes_zeros [simp]: "from_le_bytes (replicate n 0) = 0"
  by (simp add: from_le_bytes_def)

lemma length_zero_page [simp]: "length zero_page = 4096"
  by (simp add: zero_page_def)

lemma guest_bytes_poke_inside:
  assumes "memory_wf m" "in_region (mem_region m) a (length bs)"
    and "unat a \<le> b" "b + n \<le> unat a + length bs"
  shows "map (guest_byte (poke a bs m)) [b..<b + n] = take n (drop (b - unat a) bs)"
proof (rule nth_equalityI)
  fix i assume "i < length (map (guest_byte (poke a bs m)) [b..<b + n])"
  with assms show "map (guest_byte (poke a bs m)) [b..<b + n] ! i = take n (drop (b - unat a) bs) ! i"
    by (simp add: guest_byte_poke in_region_def)
qed (use assms in simp)

lemma table_word_poke_inside:
  assumes "memory_wf m" "in_region (mem_region m) a (length bs)"
    and "unat a \<le> b" "b + 8 \<le> unat a + length bs"
  shows "table_word (poke a bs m) b = from_le_bytes (take 8 (drop (b - unat a) bs))"
  unfolding table_word_def guest_bytes_poke_inside [OF assms] ..

lemma table_word_poke_other:
  assumes "memory_wf m" "in_region (mem_region m) a (length bs)"
    and "unat (region_base (mem_region m)) \<le> b"
    and "b + 8 \<le> unat a \<or> unat a + length bs \<le> b"
  shows "table_word (poke a bs m) b = table_word m b"
proof -
  have "map (guest_byte (poke a bs m)) [b..<b + 8] = map (guest_byte m) [b..<b + 8]"
    using assms by (intro map_cong) (auto simp: guest_byte_poke)
  then show ?thesis unfolding table_word_def by (rule arg_cong)
qed

lemma table_word_poke_zero:
  assumes "memory_wf m" "in_region (mem_region m) a 4096" and "unat a \<le> b" "b + 8 \<le> unat a + 4096"
  shows "table_word (poke a zero_page m) b = 0"
proof -
  have "take 8 (drop (b - unat a) zero_page) = replicate 8 0"
    using assms by (simp add: zero_page_def)
  then show ?thesis using assms by (simp add: table_word_poke_inside)
qed

lemma table_word_poke_word:
  assumes "memory_wf m" "in_region (mem_region m) a 8"
  shows "table_word (poke a (to_le_bytes v) m) (unat a) = v"
  using assms table_word_poke_inside [of m a "to_le_bytes v" "unat a"] by simp

subsection \<open>Filling a table\<close>

lemma write_entries_region [simp]: "mem_region (write_entries table es m) = mem_region m"
  by (induction table es m rule: write_entries.induct) simp_all

lemma write_entries_wf [simp]: "memory_wf (write_entries table es m) = memory_wf m"
  by (induction table es m rule: write_entries.induct) simp_all

lemma unat_entry_address:
  assumes "i < 512" and "unat (table :: u64) + 4096 \<le> 2 ^ 63"
  shows "unat (table + 8 * of_nat i) = unat table + 8 * i"
proof -
  have "unat (of_nat i :: u64) = i" using assms by (simp add: unsigned_of_nat take_bit_nat_eq_self)
  then have "unat (8 * of_nat i :: u64) = 8 * i" using assms by (simp add: unat_word_ariths)
  then show ?thesis using assms by (simp add: unat_add_small)
qed

lemma table_word_write_entries:
  assumes "memory_wf m" and "in_region (mem_region m) table 4096"
    and "unat table + 4096 \<le> 2 ^ 63"
    and "\<forall>e \<in> set es. fst e < 512" and "distinct (map fst es)" and "j < 512"
  shows "table_word (write_entries table es m) (unat table + 8 * j) =
    (case map_of es j of Some v \<Rightarrow> v | None \<Rightarrow> table_word m (unat table + 8 * j))"
  using assms
proof (induction table es m rule: write_entries.induct)
  case (2 table i v es m)
  let ?m = "poke (table + 8 * of_nat i) (to_le_bytes v) m"
  have i: "unat (table + 8 * of_nat i) = unat table + 8 * i"
    using 2(4,5) by (simp add: unat_entry_address)
  have inside: "in_region (mem_region m) (table + 8 * of_nat i) 8"
    using 2(3,5) by (simp add: in_region_def i)
  have IH: "table_word (write_entries table ((i, v) # es) m) (unat table + 8 * j) =
      (case map_of es j of Some v \<Rightarrow> v | None \<Rightarrow> table_word ?m (unat table + 8 * j))"
    using 2 by simp
  have "table_word ?m (unat table + 8 * j) = (if j = i then v else table_word m (unat table + 8 * j))"
  proof (cases "j = i")
    case True
    then show ?thesis using table_word_poke_word [OF 2(2) inside, of v] by (simp add: i)
  next
    case False
    then have "table_word ?m (unat table + 8 * j) = table_word m (unat table + 8 * j)"
      using 2(2,3) inside by (intro table_word_poke_other) (auto simp: i in_region_def)
    with False show ?thesis by simp
  qed
  moreover have "map_of es i = None" using 2(6) by (simp add: map_of_eq_None_iff)
  ultimately show ?case using IH by (auto split: option.splits)
qed simp

lemma guest_byte_write_entries_other:
  assumes "memory_wf m" and "in_region (mem_region m) table 4096"
    and "unat table + 4096 \<le> 2 ^ 63" and "\<forall>e \<in> set es. fst e < 512"
    and "unat (region_base (mem_region m)) \<le> b" "b < unat table \<or> unat table + 4096 \<le> b"
  shows "guest_byte (write_entries table es m) b = guest_byte m b"
  using assms
proof (induction table es m rule: write_entries.induct)
  case (2 table i v es m)
  have i: "unat (table + 8 * of_nat i) = unat table + 8 * i"
    using 2(4,5) by (simp add: unat_entry_address)
  have "in_region (mem_region m) (table + 8 * of_nat i) 8"
    using 2(3,5) by (simp add: in_region_def i)
  then have "guest_byte (poke (table + 8 * of_nat i) (to_le_bytes v) m) b = guest_byte m b"
    using 2(2,5-) by (auto simp: guest_byte_poke i)
  with 2 show ?case by simp
qed simp

lemma table_word_write_entries_other:
  assumes "memory_wf m" and "in_region (mem_region m) table 4096"
    and "unat table + 4096 \<le> 2 ^ 63" and "\<forall>e \<in> set es. fst e < 512"
    and "unat (region_base (mem_region m)) \<le> b" "b + 8 \<le> unat table \<or> unat table + 4096 \<le> b"
  shows "table_word (write_entries table es m) b = table_word m b"
proof -
  have "map (guest_byte (write_entries table es m)) [b..<b + 8] = map (guest_byte m) [b..<b + 8]"
    using assms by (intro map_cong guest_byte_write_entries_other refl) auto
  then show ?thesis unfolding table_word_def by (rule arg_cong)
qed

lemma table_word_write_entries_below:
  assumes "memory_wf m" and "in_region (mem_region m) table 4096"
    and "unat table + 4096 \<le> 2 ^ 63" and "\<forall>e \<in> set es. fst e < 512"
    and "unat (region_base (mem_region m)) \<le> b" and "b + 8 \<le> unat table"
  shows "table_word (write_entries table es m) b = table_word m b"
  using assms by (simp add: table_word_write_entries_other)

lemma table_word_write_entries_above:
  assumes "memory_wf m" and "in_region (mem_region m) table 4096"
    and "unat table + 4096 \<le> 2 ^ 63" and "\<forall>e \<in> set es. fst e < 512"
    and "unat (region_base (mem_region m)) \<le> b" and "unat table + 4096 \<le> b"
  shows "table_word (write_entries table es m) b = table_word m b"
  using assms by (simp add: table_word_write_entries_other)

subsection \<open>Index arithmetic of the walk\<close>

lemma unat_table_index: "unat (drop_bit n va AND mask 9 :: u64) = unat va div 2 ^ n mod 512"
  using unat_lt [of va]
  by (simp add: take_bit_eq_mask [symmetric] unsigned_take_bit_eq unsigned_drop_bit_eq take_bit_nat_def
      drop_bit_nat_def)

lemma unat_page_offset: "unat (va AND mask n :: u64) = unat va mod 2 ^ n"
  by (simp add: take_bit_eq_mask [symmetric] unsigned_take_bit_eq take_bit_nat_def)

lemma page_frame_iff: "page_frame p \<longleftrightarrow> unat p mod 4096 = 0 \<and> unat p < 2 ^ 52"
proof -
  have "take_bit 12 p = 0 \<longleftrightarrow> unat p mod 4096 = 0"
    by (simp add: word_unat_eq_iff unsigned_take_bit_eq take_bit_nat_def)
  moreover have "take_bit 52 p = p \<longleftrightarrow> unat p < 2 ^ 52"
    by (simp add: word_unat_eq_iff unsigned_take_bit_eq take_bit_nat_eq_self_iff)
  ultimately show ?thesis by (simp add: page_frame_def)
qed

lemma entry_frame:
  assumes "page_frame p" and "take_bit 12 f = f"
  shows "(p OR f) AND mask 52 AND NOT (mask 12) = p"
  using assms unfolding page_frame_def bit_eq_iff
  by (auto simp: bit_simps)

lemma entry_flags:
  assumes "page_frame p" and "take_bit 12 f = f" and "take_bit 12 b = b"
  shows "(p OR f) AND b = f AND b"
  using assms unfolding page_frame_def bit_eq_iff
  by (auto simp: bit_simps)

lemma entry_address_frame:
  assumes "page_frame p" and "take_bit 12 f = f"
  shows "entry_address level (p OR f) va = p + 8 * of_nat (unat va div 2 ^ (12 + 9 * level) mod 512)"
proof -
  have "drop_bit (12 + 9 * level) va AND mask 9 = of_nat (unat va div 2 ^ (12 + 9 * level) mod 512)"
    by (simp add: unat_table_index [symmetric])
  then show ?thesis by (simp only: entry_address_def entry_frame [OF assms])
qed

lemma read_entry_word:
  assumes "memory_wf m" and "in_region (mem_region m) a 8"
  shows "read_entry m a =
    (if table_word m (unat a) AND PAGE_PRESENT = 0 then None else Some (table_word m (unat a)))"
  using assms by (simp add: read_entry_def mem_read_inside table_word_def Let_def)

text \<open>The entry that the walk reads in a table that lies in RAM.\<close>

lemma read_walk_entry:
  assumes "memory_wf m" and "in_region (mem_region m) p 4096" and "unat p + 4096 \<le> 2 ^ 63"
    and "page_frame p" and "take_bit 12 f = f"
  shows "read_entry m (entry_address level (p OR f) va) =
    (let e = table_word m (unat p + 8 * (unat va div 2 ^ (12 + 9 * level) mod 512))
     in if e AND PAGE_PRESENT = 0 then None else Some e)"
proof -
  let ?i = "unat va div 2 ^ (12 + 9 * level) mod 512"
  have "unat (p + 8 * of_nat ?i) = unat p + 8 * ?i" using assms(3) by (simp add: unat_entry_address)
  moreover from this have "in_region (mem_region m) (p + 8 * of_nat ?i) 8"
    using assms(2) mod_less_divisor [of 512 "unat va div 2 ^ (12 + 9 * level)"]
    unfolding in_region_def by linarith
  ultimately show ?thesis
    using assms by (simp add: entry_address_frame read_entry_word Let_def)
qed

lemma table_walk_levels:
  "table_walk 3 m t va = Option.bind (read_entry m (entry_address 3 t va)) (\<lambda>e.
     map_option (restrict_access e) (table_walk 2 m e va))"
  "table_walk 2 m t va = Option.bind (read_entry m (entry_address 2 t va)) (\<lambda>e.
     if e AND PAGE_SIZE_2_MIB \<noteq> 0 then Some (leaf_access 30 e va)
     else map_option (restrict_access e) (table_walk 1 m e va))"
  "table_walk 1 m t va = Option.bind (read_entry m (entry_address 1 t va)) (\<lambda>e.
     if e AND PAGE_SIZE_2_MIB \<noteq> 0 then Some (leaf_access 21 e va)
     else map_option (restrict_access e) (table_walk 0 m e va))"
proof -
  have levels: "3 = Suc 2" "2 = Suc 1" "1 = Suc 0" by simp_all
  show "table_walk 3 m t va = Option.bind (read_entry m (entry_address 3 t va)) (\<lambda>e.
      map_option (restrict_access e) (table_walk 2 m e va))"
    by (subst levels(1), subst table_walk.simps(2)) simp
  show "table_walk 2 m t va = Option.bind (read_entry m (entry_address 2 t va)) (\<lambda>e.
      if e AND PAGE_SIZE_2_MIB \<noteq> 0 then Some (leaf_access 30 e va)
      else map_option (restrict_access e) (table_walk 1 m e va))"
    by (subst levels(2), subst table_walk.simps(2)) (simp del: table_walk.simps One_nat_def cong: if_cong)
  show "table_walk 1 m t va = Option.bind (read_entry m (entry_address 1 t va)) (\<lambda>e.
      if e AND PAGE_SIZE_2_MIB \<noteq> 0 then Some (leaf_access 21 e va)
      else map_option (restrict_access e) (table_walk 0 m e va))"
    by (subst levels(3), subst table_walk.simps(2)) (simp del: table_walk.simps cong: if_cong)
qed

end
