(* ===== verification/Long_Mode.thy ===== *)
theory Long_Mode
  imports Paging Vcpu_Regs
begin

unbundle bit_operations_syntax

text \<open>
  The long-mode boot layout (\<open>src/src/long_mode.rs\<close>) and the vCPU set-up that uses it
  (\<open>src/src/vcpu/special_register_restore.rs\<close>): validation of entry, stack and alias mappings, the page
  tables written into guest RAM, and the registers that make the processor use them.

  The main results: the walk of the processor over the installed tables maps the first 2 MiB to itself,
  each alias page to its frame, and nothing else; no accepted layout makes the installation fail.
\<close>

abbreviation LONG_MODE_PAGE_SIZE :: u64 where "LONG_MODE_PAGE_SIZE \<equiv> 4096"
abbreviation LONG_MODE_IDENTITY_MAP_SIZE :: u64 where "LONG_MODE_IDENTITY_MAP_SIZE \<equiv> 0x200000"
abbreviation LONG_MODE_ALIAS_VIRTUAL_BASE :: u64 where "LONG_MODE_ALIAS_VIRTUAL_BASE \<equiv> 0x400000"
abbreviation LONG_MODE_ALIAS_VIRTUAL_END :: u64 where "LONG_MODE_ALIAS_VIRTUAL_END \<equiv> 0x600000"
abbreviation LONG_MODE_PML4_ADDR :: u64 where "LONG_MODE_PML4_ADDR \<equiv> 0x1000"
abbreviation LONG_MODE_PDPT_ADDR :: u64 where "LONG_MODE_PDPT_ADDR \<equiv> 0x2000"
abbreviation LONG_MODE_PD_ADDR :: u64 where "LONG_MODE_PD_ADDR \<equiv> 0x3000"
abbreviation LONG_MODE_ALIAS_PT_ADDR :: u64 where "LONG_MODE_ALIAS_PT_ADDR \<equiv> 0x4000"
abbreviation LONG_MODE_PAGE_TABLE_END :: u64 where "LONG_MODE_PAGE_TABLE_END \<equiv> 0x5000"
abbreviation LONG_MODE_CR0_REQUIRED_BITS :: u64 where "LONG_MODE_CR0_REQUIRED_BITS \<equiv> 0x80000001"
abbreviation LONG_MODE_CR4_REQUIRED_BITS :: u64 where "LONG_MODE_CR4_REQUIRED_BITS \<equiv> 0x20"
abbreviation LONG_MODE_EFER_REQUIRED_BITS :: u64 where "LONG_MODE_EFER_REQUIRED_BITS \<equiv> 0x500"
abbreviation PAGE_TABLE_ENTRY_FLAGS :: u64 where "PAGE_TABLE_ENTRY_FLAGS \<equiv> 0x3"
abbreviation LARGE_PAGE_ENTRY_FLAGS :: u64 where "LARGE_PAGE_ENTRY_FLAGS \<equiv> 0x83"
abbreviation ALIAS_PD_INDEX :: u64 where "ALIAS_PD_INDEX \<equiv> 2"

section \<open>The layout\<close>

record page_mapping =
  virtual_page :: u64
  physical_page :: u64

datatype (plugins only: code) long_mode_error =
    RamMustStartAtZero u64
  | RamTooSmall u64 u64
  | EntryOutsideIdentityMap u64 u64
  | EntryOutsideMappedRanges u64
  | EntryOverlapsPageTables u64
  | EntryPageNotMapped u64 u64
  | StackPointerOutsideIdentityMap u64 u64
  | StackPointerOverlapsPageTables u64
  | MappingVirtualPageMisaligned u64
  | MappingOutsideAliasWindow u64
  | MappingPhysicalPageMisaligned u64
  | MappingPhysicalPageOutsideRam u64
  | MappingPhysicalPageOverlapsPageTables u64
  | DuplicateVirtualPage u64

record boot_layout =
  layout_memory :: guest_memory_region
  layout_entry :: u64
  layout_stack_pointer :: u64
  layout_page_mappings :: "page_mapping list"

definition align_down_page :: "u64 \<Rightarrow> u64" where
  "align_down_page address = address AND NOT (LONG_MODE_PAGE_SIZE - 1)"

definition is_page_table_address :: "u64 \<Rightarrow> bool" where
  "is_page_table_address address \<longleftrightarrow> address \<ge> LONG_MODE_PML4_ADDR \<and> address < LONG_MODE_PAGE_TABLE_END"

definition ranges_overlap :: "u64 \<Rightarrow> u64 \<Rightarrow> u64 \<Rightarrow> u64 \<Rightarrow> bool" where
  "ranges_overlap first_start first_end second_start second_end \<longleftrightarrow>
     first_start < second_end \<and> second_start < first_end"

definition validate_memory_and_stack :: "guest_memory_region \<Rightarrow> u64 \<Rightarrow> (unit, long_mode_error) outcome" where
  "validate_memory_and_stack memory stack_pointer =
     (if region_base memory \<noteq> 0 then Err (RamMustStartAtZero (region_base memory))
      else if region_size memory < LONG_MODE_IDENTITY_MAP_SIZE
      then Err (RamTooSmall (region_size memory) LONG_MODE_IDENTITY_MAP_SIZE)
      else if stack_pointer = 0 \<or> stack_pointer > LONG_MODE_IDENTITY_MAP_SIZE
      then Err (StackPointerOutsideIdentityMap stack_pointer LONG_MODE_IDENTITY_MAP_SIZE)
      else if stack_pointer > LONG_MODE_PML4_ADDR \<and> stack_pointer \<le> LONG_MODE_PAGE_TABLE_END
      then Err (StackPointerOverlapsPageTables stack_pointer)
      else Ok ())"

definition validate_page_mapping :: "page_mapping list \<Rightarrow> page_mapping \<Rightarrow> (unit, long_mode_error) outcome" where
  "validate_page_mapping previous mapping =
     (if virtual_page mapping mod LONG_MODE_PAGE_SIZE \<noteq> 0
      then Err (MappingVirtualPageMisaligned (virtual_page mapping))
      else if virtual_page mapping < LONG_MODE_ALIAS_VIRTUAL_BASE
        \<or> virtual_page mapping \<ge> LONG_MODE_ALIAS_VIRTUAL_END
      then Err (MappingOutsideAliasWindow (virtual_page mapping))
      else if physical_page mapping mod LONG_MODE_PAGE_SIZE \<noteq> 0
      then Err (MappingPhysicalPageMisaligned (physical_page mapping))
      else case checked_add (physical_page mapping) LONG_MODE_PAGE_SIZE of
        None \<Rightarrow> Err (MappingPhysicalPageOutsideRam (physical_page mapping))
      | Some physical_end \<Rightarrow>
          if physical_end > LONG_MODE_IDENTITY_MAP_SIZE
          then Err (MappingPhysicalPageOutsideRam (physical_page mapping))
          else if ranges_overlap (physical_page mapping) physical_end
            LONG_MODE_PML4_ADDR LONG_MODE_PAGE_TABLE_END
          then Err (MappingPhysicalPageOverlapsPageTables (physical_page mapping))
          else if \<exists>p \<in> set previous. virtual_page p = virtual_page mapping
          then Err (DuplicateVirtualPage (virtual_page mapping))
          else Ok ())"

fun validate_mappings_from :: "page_mapping list \<Rightarrow> page_mapping list \<Rightarrow> (unit, long_mode_error) outcome" where
  "validate_mappings_from previous [] = Ok ()"
| "validate_mappings_from previous (mapping # rest) =
     and_then (validate_page_mapping previous mapping) (\<lambda>_.
     validate_mappings_from (previous @ [mapping]) rest)"

definition validate_page_mappings :: "page_mapping list \<Rightarrow> (unit, long_mode_error) outcome" where
  "validate_page_mappings page_mappings = validate_mappings_from [] page_mappings"

definition layout_new :: "guest_memory_region \<Rightarrow> u64 \<Rightarrow> u64 \<Rightarrow> (boot_layout, long_mode_error) outcome" where
  "layout_new memory entry stack_pointer =
     and_then (validate_memory_and_stack memory stack_pointer) (\<lambda>_.
     if entry \<ge> LONG_MODE_IDENTITY_MAP_SIZE
     then Err (EntryOutsideIdentityMap entry LONG_MODE_IDENTITY_MAP_SIZE)
     else if is_page_table_address entry then Err (EntryOverlapsPageTables entry)
     else Ok \<lparr>layout_memory = memory, layout_entry = entry, layout_stack_pointer = stack_pointer,
       layout_page_mappings = []\<rparr>)"

definition layout_with_page_mappings ::
  "guest_memory_region \<Rightarrow> u64 \<Rightarrow> u64 \<Rightarrow> page_mapping list \<Rightarrow> (boot_layout, long_mode_error) outcome" where
  "layout_with_page_mappings memory entry stack_pointer page_mappings =
     and_then (validate_memory_and_stack memory stack_pointer) (\<lambda>_.
     and_then (validate_page_mappings page_mappings) (\<lambda>_.
     and_then
       (if entry < LONG_MODE_IDENTITY_MAP_SIZE
        then if is_page_table_address entry then Err (EntryOverlapsPageTables entry) else Ok ()
        else if LONG_MODE_ALIAS_VIRTUAL_BASE \<le> entry \<and> entry < LONG_MODE_ALIAS_VIRTUAL_END
        then if \<not> (\<exists>p \<in> set page_mappings. virtual_page p = align_down_page entry)
          then Err (EntryPageNotMapped entry (align_down_page entry)) else Ok ()
        else Err (EntryOutsideMappedRanges entry)) (\<lambda>_.
     Ok \<lparr>layout_memory = memory, layout_entry = entry, layout_stack_pointer = stack_pointer,
       layout_page_mappings = page_mappings\<rparr>)))"

section \<open>Installing the page tables\<close>

fun install_mappings :: "page_mapping list \<Rightarrow> (guest_memory, unit, vm_error) op" where
  "install_mappings [] = op_return ()"
| "install_mappings (mapping # rest) =
     op_then (op_lift (sub_ov (virtual_page mapping) LONG_MODE_ALIAS_VIRTUAL_BASE)) (\<lambda>offset.
     op_then (op_lift (mul_ov (offset div LONG_MODE_PAGE_SIZE) 8)) (\<lambda>index8.
     op_then (op_lift (add_ov LONG_MODE_ALIAS_PT_ADDR index8)) (\<lambda>address.
     op_then (write_u64 address (physical_page mapping OR PAGE_TABLE_ENTRY_FLAGS)) (\<lambda>_.
     install_mappings rest))))"

definition install_page_tables :: "boot_layout \<Rightarrow> (guest_memory, unit, vm_error) op" where
  "install_page_tables layout memory =
     op_then (op_lift (debug_assert (mem_region memory = layout_memory layout))) (\<lambda>_.
     op_then (mem_write LONG_MODE_PML4_ADDR zero_page) (\<lambda>_.
     op_then (mem_write LONG_MODE_PDPT_ADDR zero_page) (\<lambda>_.
     op_then (mem_write LONG_MODE_PD_ADDR zero_page) (\<lambda>_.
     op_then (mem_write LONG_MODE_ALIAS_PT_ADDR zero_page) (\<lambda>_.
     op_then (write_u64 LONG_MODE_PML4_ADDR (LONG_MODE_PDPT_ADDR OR PAGE_TABLE_ENTRY_FLAGS)) (\<lambda>_.
     op_then (write_u64 LONG_MODE_PDPT_ADDR (LONG_MODE_PD_ADDR OR PAGE_TABLE_ENTRY_FLAGS)) (\<lambda>_.
     op_then (write_u64 LONG_MODE_PD_ADDR LARGE_PAGE_ENTRY_FLAGS) (\<lambda>_.
     if layout_page_mappings layout \<noteq> [] then
       op_then (write_u64 (LONG_MODE_PD_ADDR + ALIAS_PD_INDEX * 8)
         (LONG_MODE_ALIAS_PT_ADDR OR PAGE_TABLE_ENTRY_FLAGS)) (\<lambda>_.
       install_mappings (layout_page_mappings layout))
     else op_return ())))))))) memory"

section \<open>Entering long mode\<close>

abbreviation LONG_MODE_CODE_SELECTOR :: u16 where "LONG_MODE_CODE_SELECTOR \<equiv> 8"
abbreviation LONG_MODE_DATA_SELECTOR :: u16 where "LONG_MODE_DATA_SELECTOR \<equiv> 16"

definition long_mode_code_segment :: kvm_segment where
  "long_mode_code_segment = \<lparr>kseg_base = 0, kseg_limit = - 1, kseg_selector = LONG_MODE_CODE_SELECTOR,
     kseg_segment_type = 0x0b, kseg_present = 1, kseg_dpl = 0, kseg_db = 0, kseg_s = 1, kseg_l = 1,
     kseg_g = 1, kseg_avl = 0, kseg_unusable = 0, kseg_padding = 0\<rparr>"

definition long_mode_data_segment :: kvm_segment where
  "long_mode_data_segment = \<lparr>kseg_base = 0, kseg_limit = - 1, kseg_selector = LONG_MODE_DATA_SELECTOR,
     kseg_segment_type = 0x03, kseg_present = 1, kseg_dpl = 0, kseg_db = 0, kseg_s = 1, kseg_l = 0,
     kseg_g = 1, kseg_avl = 0, kseg_unusable = 0, kseg_padding = 0\<rparr>"

definition configure_long_mode_sregs :: "boot_layout \<Rightarrow> kvm_sregs \<Rightarrow> kvm_sregs" where
  "configure_long_mode_sregs layout sregs = sregs\<lparr>
     ks_cs := long_mode_code_segment, ks_ds := long_mode_data_segment, ks_es := long_mode_data_segment,
     ks_fs := long_mode_data_segment, ks_gs := long_mode_data_segment, ks_ss := long_mode_data_segment,
     ks_cr0 := ks_cr0 sregs OR LONG_MODE_CR0_REQUIRED_BITS,
     ks_cr3 := LONG_MODE_PML4_ADDR,
     ks_cr4 := ks_cr4 sregs OR LONG_MODE_CR4_REQUIRED_BITS,
     ks_efer := ks_efer sregs OR LONG_MODE_EFER_REQUIRED_BITS\<rparr>"

definition long_mode_regs :: "boot_layout \<Rightarrow> kvm_regs" where
  "long_mode_regs layout = kvm_regs_default\<lparr>kr_rsp := layout_stack_pointer layout,
     kr_rip := layout_entry layout, kr_rflags := RFLAGS_RESERVED_BIT\<rparr>"

definition initialize_long_mode :: "'k kvm_ops \<Rightarrow> boot_layout \<Rightarrow> ('k vcpu, unit, vm_error) op" where
  "initialize_long_mode K layout = (\<lambda>v.
     op_then (op_lift (vcpu_get_sregs K ''KVM_GET_SREGS'' v)) (\<lambda>sregs.
     op_then (vcpu_set_sregs K ''KVM_SET_SREGS'' (configure_long_mode_sregs layout sregs)) (\<lambda>_.
     vcpu_set_regs K (long_mode_regs layout))) v)"

section \<open>Specification\<close>

text \<open>The translation that the tables of a layout are meant to give.\<close>

definition boot_translation :: "page_mapping list \<Rightarrow> u64 \<Rightarrow> page_access option" where
  "boot_translation mappings va =
     (if va < LONG_MODE_IDENTITY_MAP_SIZE
      then Some \<lparr>access_address = va, access_writable = True, access_user = False\<rparr>
      else case find (\<lambda>p. virtual_page p = align_down_page va) mappings of
        Some p \<Rightarrow> Some \<lparr>access_address = physical_page p + (va AND (LONG_MODE_PAGE_SIZE - 1)),
          access_writable = True, access_user = False\<rparr>
      | None \<Rightarrow> None)"

text \<open>What validation establishes of the mappings.\<close>

definition mapping_ok :: "page_mapping \<Rightarrow> bool" where
  "mapping_ok p \<longleftrightarrow>
     unat (virtual_page p) mod 4096 = 0 \<and> 0x400000 \<le> unat (virtual_page p) \<and> unat (virtual_page p) < 0x600000
     \<and> unat (physical_page p) mod 4096 = 0 \<and> unat (physical_page p) + 4096 \<le> 0x200000
     \<and> (unat (physical_page p) < 0x1000 \<or> 0x5000 \<le> unat (physical_page p))"

definition layout_ok :: "boot_layout \<Rightarrow> bool" where
  "layout_ok l \<longleftrightarrow> region_base (layout_memory l) = 0 \<and> 0x200000 \<le> unat (region_size (layout_memory l))
     \<and> list_all mapping_ok (layout_page_mappings l)
     \<and> distinct (map virtual_page (layout_page_mappings l))
     \<and> layout_stack_pointer l \<noteq> 0 \<and> unat (layout_stack_pointer l) \<le> 0x200000
     \<and> boot_translation (layout_page_mappings l) (layout_entry l) \<noteq> None"

text \<open>\<open>KVM_SET_REGS\<close> leaves the special registers alone.\<close>

definition sregs_independent :: "'k kvm_ops \<Rightarrow> bool" where
  "sregs_independent K \<longleftrightarrow> (\<forall>regs k k'. kvm_set_regs K regs k = (None, k') \<longrightarrow> kvm_get_sregs K k' = kvm_get_sregs K k)"

text \<open>The memory that the installation leaves, entry by entry.\<close>

definition alias_entry :: "page_mapping \<Rightarrow> nat \<times> u64" where
  "alias_entry p = ((unat (virtual_page p) - 0x400000) div 4096, physical_page p OR PAGE_TABLE_ENTRY_FLAGS)"

definition zeroed_tables :: "guest_memory \<Rightarrow> guest_memory" where
  "zeroed_tables m = poke 0x4000 zero_page (poke 0x3000 zero_page (poke 0x2000 zero_page (poke 0x1000 zero_page m)))"

definition boot_tables :: "page_mapping list \<Rightarrow> guest_memory \<Rightarrow> guest_memory" where
  "boot_tables ps m =
     write_entries 0x4000 (map alias_entry ps)
     (write_entries 0x3000 ((0, 0x83) # (if ps = [] then [] else [(2, 0x4003)]))
     (write_entries 0x2000 [(0, 0x3003)] (write_entries 0x1000 [(0, 0x2003)] (zeroed_tables m))))"

text \<open>The words of the four tables, in any memory that holds them.\<close>

definition holds_boot_tables :: "page_mapping list \<Rightarrow> guest_memory \<Rightarrow> bool" where
  "holds_boot_tables ps b \<longleftrightarrow> (\<forall>j < 512.
     table_word b (0x1000 + 8 * j) = (if j = 0 then 0x2003 else 0)
     \<and> table_word b (0x2000 + 8 * j) = (if j = 0 then 0x3003 else 0)
     \<and> table_word b (0x3000 + 8 * j) = (if j = 0 then 0x83 else if j = 2 \<and> ps \<noteq> [] then 0x4003 else 0)
     \<and> table_word b (0x4000 + 8 * j) = (case map_of (map alias_entry ps) j of Some e \<Rightarrow> e | None \<Rightarrow> 0))"

text \<open>An example: one page at \<open>0x400000\<close> backed by the frame \<open>0x9000\<close>, entered in its middle.\<close>

definition example_boot_ram :: guest_memory where
  "example_boot_ram = \<lparr>mem_region = \<lparr>region_base = 0, region_size = 0x200000\<rparr>,
     mem_mapping = \<lparr>ram_len = 0x200000, ram_bytes = (\<lambda>_. 0xff)\<rparr>\<rparr>"

definition example_boot_layout :: boot_layout where
  "example_boot_layout = \<lparr>layout_memory = \<lparr>region_base = 0, region_size = 0x200000\<rparr>,
     layout_entry = 0x400010, layout_stack_pointer = 0x1ff000,
     layout_page_mappings = [\<lparr>virtual_page = 0x400000, physical_page = 0x9000\<rparr>]\<rparr>"

section \<open>Lemmas\<close>

subsection \<open>Validation\<close>

lemmas word_nat_simps = word_less_nat_alt word_le_nat_alt unat_eq_0

lemma page_aligned_iff: "a mod LONG_MODE_PAGE_SIZE = 0 \<longleftrightarrow> unat a mod 4096 = 0"
  by (simp add: word_unat_eq_iff unat_mod_distrib)

lemma validate_page_mapping_Ok:
  "validate_page_mapping previous p = Ok u \<longleftrightarrow>
     mapping_ok p \<and> (\<forall>q \<in> set previous. virtual_page q \<noteq> virtual_page p)"
  by (auto simp: validate_page_mapping_def mapping_ok_def page_aligned_iff word_nat_simps
      ranges_overlap_def checked_add_def unat_add_small split: if_splits option.splits)

lemma validate_mappings_from_Ok:
  "validate_mappings_from previous ps = Ok u \<longleftrightarrow>
     list_all mapping_ok ps \<and> distinct (map virtual_page ps)
     \<and> (\<forall>q \<in> set previous. \<forall>p \<in> set ps. virtual_page q \<noteq> virtual_page p)"
  by (induction previous ps rule: validate_mappings_from.induct)
    (auto simp: and_then_Ok validate_page_mapping_Ok)

lemma layout_new_ok:
  "layout_new r entry sp = Ok l \<Longrightarrow>
     layout_ok l \<and> layout_memory l = r \<and> layout_entry l = entry \<and> layout_stack_pointer l = sp"
  by (auto simp: layout_new_def layout_ok_def validate_memory_and_stack_def boot_translation_def
      word_nat_simps split: if_splits)

lemma layout_with_page_mappings_ok:
  assumes "layout_with_page_mappings r entry sp ps = Ok l"
  shows "layout_ok l \<and> layout_memory l = r \<and> layout_entry l = entry \<and> layout_stack_pointer l = sp"
proof -
  have "validate_memory_and_stack r sp = Ok ()" "validate_page_mappings ps = Ok ()"
    and l: "l = \<lparr>layout_memory = r, layout_entry = entry, layout_stack_pointer = sp, layout_page_mappings = ps\<rparr>"
    and entry: "entry < LONG_MODE_IDENTITY_MAP_SIZE \<or> (\<exists>p \<in> set ps. virtual_page p = align_down_page entry)"
    using assms by (auto simp: layout_with_page_mappings_def outcome_simps split: if_splits)
  moreover have "boot_translation ps entry \<noteq> None"
    using entry by (auto simp: boot_translation_def find_None_iff split: option.splits)
  ultimately show ?thesis
    by (auto simp: layout_ok_def validate_memory_and_stack_def validate_page_mappings_def
        validate_mappings_from_Ok word_nat_simps split: if_splits)
qed

subsection \<open>The installed tables\<close>

lemma op_then_mem_write:
  "memory_wf m \<Longrightarrow> in_region (mem_region m) a (length bs) \<Longrightarrow> op_then (mem_write a bs) k m = k () (poke a bs m)"
  by (simp add: op_then_def mem_write_inside)

lemma op_then_write_u64:
  "memory_wf m \<Longrightarrow> in_region (mem_region m) a 8 \<Longrightarrow>
     op_then (write_u64 a v) k m = k () (poke a (to_le_bytes v) m)"
  by (simp add: write_u64_def op_then_mem_write)

lemma alias_entry_bound: "mapping_ok p \<Longrightarrow> fst (alias_entry p) < 512"
  by (auto simp: alias_entry_def mapping_ok_def)

lemma alias_entry_address:
  assumes "mapping_ok p"
  shows "LONG_MODE_ALIAS_VIRTUAL_BASE \<le> virtual_page p"
    and "(virtual_page p - LONG_MODE_ALIAS_VIRTUAL_BASE) div LONG_MODE_PAGE_SIZE = of_nat (fst (alias_entry p))"
proof -
  show le: "LONG_MODE_ALIAS_VIRTUAL_BASE \<le> virtual_page p"
    using assms by (simp add: mapping_ok_def word_le_nat_alt)
  have "unat ((virtual_page p - LONG_MODE_ALIAS_VIRTUAL_BASE) div LONG_MODE_PAGE_SIZE) = fst (alias_entry p)"
    using le by (simp add: unat_div alias_entry_def unat_sub_le)
  then show "(virtual_page p - LONG_MODE_ALIAS_VIRTUAL_BASE) div LONG_MODE_PAGE_SIZE = of_nat (fst (alias_entry p))"
    using alias_entry_bound [OF assms] by (simp add: word_unat_eq_iff unsigned_of_nat take_bit_nat_eq_self)
qed

lemma install_mappings_run:
  assumes "memory_wf m" and "in_region (mem_region m) 0x4000 4096" and "list_all mapping_ok ps"
  shows "install_mappings ps m = (Ok (), write_entries 0x4000 (map alias_entry ps) m)"
  using assms
proof (induction ps arbitrary: m)
  case (Cons p ps)
  define i where "i = fst (alias_entry p)"
  have p: "mapping_ok p" and i: "i < 512" using Cons.prems(3) by (auto simp: i_def alias_entry_bound)
  have unat_i: "unat (of_nat i :: u64) = i" using i by (simp add: unsigned_of_nat take_bit_nat_eq_self)
  have a: "unat (0x4000 + 8 * of_nat i :: u64) = 0x4000 + 8 * i"
    using i by (simp add: unat_entry_address)
  have mul: "mul_ov (of_nat i) 8 = Ok (8 * of_nat i :: u64)"
    using i by (simp add: mul_ov_def checked_mul_def unat_i mult.commute)
  have add: "add_ov 0x4000 (8 * of_nat i) = Ok (0x4000 + 8 * of_nat i :: u64)"
    using i by (simp add: add_ov_def checked_add_def unat_word_ariths unat_i)
  have "in_region (mem_region m) (0x4000 + 8 * of_nat i) 8"
    using Cons.prems(2) i by (simp add: in_region_def a)
  then have "install_mappings (p # ps) m
      = install_mappings ps (poke (0x4000 + 8 * of_nat i) (to_le_bytes (physical_page p OR 3)) m)"
    using Cons.prems(1) alias_entry_address [OF p]
    by (simp add: sub_ov_def checked_sub_def i_def [symmetric] mul add op_then_write_u64)
  moreover have "install_mappings ps (poke (0x4000 + 8 * of_nat i) (to_le_bytes (physical_page p OR 3)) m)
      = (Ok (), write_entries 0x4000 (map alias_entry ps)
      (poke (0x4000 + 8 * of_nat i) (to_le_bytes (physical_page p OR 3)) m))"
    using Cons by simp
  moreover have "alias_entry p = (i, physical_page p OR 3)" by (simp add: i_def alias_entry_def)
  ultimately show ?case by (simp del: install_mappings.simps)
qed (simp add: op_return_def)

lemma install_page_tables_run:
  assumes "memory_wf m" and "layout_ok l" and "mem_region m = layout_memory l"
  shows "install_page_tables l m = (Ok (), boot_tables (layout_page_mappings l) m)"
proof -
  have base: "region_base (mem_region m) = 0" and size: "0x200000 \<le> unat (region_size (mem_region m))"
    and ps: "list_all mapping_ok (layout_page_mappings l)"
    using assms by (simp_all add: layout_ok_def)
  then have inside: "in_region (layout_memory l) a n" if "unat a + n \<le> 0x200000" for a n
    using that assms(3) by (simp add: in_region_def)
  show ?thesis
    using assms(1,3) ps
    by (simp add: install_page_tables_def op_then_mem_write op_then_write_u64 inside
        install_mappings_run boot_tables_def zeroed_tables_def op_return_def)
qed

lemma boot_table_words:
  assumes wf: "memory_wf m" and base: "region_base (mem_region m) = 0"
    and size: "0x200000 \<le> unat (region_size (mem_region m))"
    and ps: "list_all mapping_ok ps" and dist: "distinct (map (fst \<circ> alias_entry) ps)"
    and j: "j < 512"
  shows "table_word (boot_tables ps m) (0x1000 + 8 * j) = (if j = 0 then 0x2003 else 0)"
    and "table_word (boot_tables ps m) (0x2000 + 8 * j) = (if j = 0 then 0x3003 else 0)"
    and "table_word (boot_tables ps m) (0x3000 + 8 * j) =
      (if j = 0 then 0x83 else if j = 2 \<and> ps \<noteq> [] then 0x4003 else 0)"
    and "table_word (boot_tables ps m) (0x4000 + 8 * j) =
      (case map_of (map alias_entry ps) j of Some e \<Rightarrow> e | None \<Rightarrow> 0)"
proof -
  have inside: "in_region (mem_region m) a n" if "unat a + n \<le> 0x200000" for a n
    using that base size by (simp add: in_region_def)
  have bound: "\<forall>e \<in> set (map alias_entry ps). fst e < 512"
    using ps alias_entry_bound by (auto simp: list_all_iff)
  have dist': "distinct (map fst (map alias_entry ps))" using dist by simp
  have zero: "table_word (zeroed_tables m) (a + 8 * j) = 0"
    if "a \<in> {0x1000, 0x2000, 0x3000, 0x4000}" for a
    using that wf base j unfolding zeroed_tables_def
    by (elim insertE emptyE) (simp_all add: table_word_poke_zero table_word_poke_other inside)
  note entry = table_word_write_entries [where j = j and table = "0x1000", simplified]
    table_word_write_entries [where j = j and table = "0x2000", simplified]
    table_word_write_entries [where j = j and table = "0x3000", simplified]
    table_word_write_entries [where j = j and table = "0x4000", simplified]
  note other = table_word_write_entries_below table_word_write_entries_above
  have regions: "mem_region (zeroed_tables m) = mem_region m" "memory_wf (zeroed_tables m) = memory_wf m"
    by (simp_all add: zeroed_tables_def)
  note facts = boot_tables_def entry other regions inside wf base bound dist' zero
  show "table_word (boot_tables ps m) (0x1000 + 8 * j) = (if j = 0 then 0x2003 else 0)"
    using j by (simp add: facts del: write_entries.simps)
  show "table_word (boot_tables ps m) (0x2000 + 8 * j) = (if j = 0 then 0x3003 else 0)"
    using j by (simp add: facts del: write_entries.simps)
  show "table_word (boot_tables ps m) (0x3000 + 8 * j) =
      (if j = 0 then 0x83 else if j = 2 \<and> ps \<noteq> [] then 0x4003 else 0)"
    using j by (simp add: facts del: write_entries.simps)
  show "table_word (boot_tables ps m) (0x4000 + 8 * j) =
      (case map_of (map alias_entry ps) j of Some e \<Rightarrow> e | None \<Rightarrow> 0)"
    using j bound dist' by (simp add: facts del: write_entries.simps split: option.split)
qed

lemma alias_index_nat:
  fixes v a :: nat
  assumes "v mod 4096 = 0" "0x400000 \<le> v" "v < 0x600000" "0x400000 \<le> a" "a < 0x600000"
  shows "(v - 0x400000) div 4096 = a div 4096 mod 512 \<longleftrightarrow> v = a - a mod 4096"
proof -
  define k q where "k = v div 4096" and "q = a div 4096"
  have v: "v = 4096 * k" and a: "a - a mod 4096 = 4096 * q"
    using assms(1) by (auto simp: k_def q_def minus_mod_eq_mult_div)
  have k: "1024 \<le> k" "k < 1536" and q: "1024 \<le> q" "q < 1536" using assms by (auto simp: k_def q_def)
  have "(v - 0x400000) div 4096 = k - 1024" using k by (simp add: v)
  moreover have "q mod 512 = q - 1024"
  proof -
    have "q mod 512 = (q - 1024 + 512 * 2) mod 512" using q by simp
    also have "\<dots> = q - 1024" using q by (simp only: mod_mult_self2) simp
    finally show ?thesis .
  qed
  ultimately show ?thesis using k q by (auto simp: v a q_def [symmetric])
qed

lemma alias_entries_distinct:
  assumes "list_all mapping_ok ps" and "distinct (map virtual_page ps)"
  shows "distinct (map (fst \<circ> alias_entry) ps)"
  using assms
proof (induction ps)
  case (Cons p ps)
  have "fst (alias_entry q) \<noteq> fst (alias_entry p)" if "q \<in> set ps" for q
  proof -
    have "virtual_page p \<notin> virtual_page ` set ps" using Cons.prems(2) by simp
    then have "virtual_page q \<noteq> virtual_page p" using that by (metis imageI)
    moreover have "mapping_ok p" "mapping_ok q" using Cons.prems(1) that by (auto simp: list_all_iff)
    ultimately show ?thesis
      using alias_index_nat [of "unat (virtual_page q)" "unat (virtual_page p)"]
        alias_index_nat [of "unat (virtual_page p)" "unat (virtual_page p)"]
      by (simp add: alias_entry_def mapping_ok_def word_unat_eq_iff)
  qed
  then have "(fst \<circ> alias_entry) p \<notin> (fst \<circ> alias_entry) ` set ps" by force
  with Cons show ?case by simp
qed simp

lemma page_offset_mask: "LONG_MODE_PAGE_SIZE - 1 = mask 12"
  by (simp add: mask_eq_exp_minus_1)

lemma page_offset_and: "va AND 4095 = (va AND mask 12 :: u64)"
  by (simp add: mask_eq_exp_minus_1)

lemma align_down_page_unat: "unat (align_down_page va) = unat va - unat va mod 4096"
proof -
  have "va - (va AND mask 12) = va AND NOT (va AND mask 12)"
    by (rule disjunctive_diff) (simp add: bit_simps)
  also have "\<dots> = align_down_page va"
    unfolding align_down_page_def page_offset_mask by (rule bit_eqI) (auto simp: bit_simps)
  finally have "unat (align_down_page va) = unat (va - (va AND mask 12))" by simp
  also have "\<dots> = unat va - unat (va AND mask 12)"
    by (rule unat_sub_le) (simp add: word_le_nat_alt unat_page_offset)
  finally show ?thesis by (simp only: unat_page_offset) simp
qed

text \<open>Finding the mapping of an address by its entry index.\<close>

lemma map_of_alias_entries:
  assumes "list_all mapping_ok ps" and "0x400000 \<le> unat va" "unat va < 0x600000"
  shows "map_of (map alias_entry ps) (unat va div 4096 mod 512) =
    map_option (\<lambda>p. physical_page p OR PAGE_TABLE_ENTRY_FLAGS)
      (find (\<lambda>p. virtual_page p = align_down_page va) ps)"
  using assms(1)
proof (induction ps)
  case (Cons p ps)
  have "fst (alias_entry p) = unat va div 4096 mod 512 \<longleftrightarrow> virtual_page p = align_down_page va"
    using Cons.prems assms(2,3) alias_index_nat [of "unat (virtual_page p)" "unat va"]
    by (simp add: alias_entry_def mapping_ok_def word_unat_eq_iff align_down_page_unat)
  moreover have "snd (alias_entry p) = physical_page p OR PAGE_TABLE_ENTRY_FLAGS"
    by (simp add: alias_entry_def)
  ultimately show ?case using Cons by (cases "alias_entry p") auto
qed simp

lemma boot_tables_hold:
  assumes "memory_wf m" and "region_base (mem_region m) = 0"
    and "0x200000 \<le> unat (region_size (mem_region m))"
    and "list_all mapping_ok ps" and "distinct (map virtual_page ps)"
  shows "holds_boot_tables ps (boot_tables ps m)"
  unfolding holds_boot_tables_def
  using boot_table_words [OF assms(1-4) alias_entries_distinct [OF assms(4,5)]] by blast

text \<open>The tables survive every write outside their four pages.\<close>

lemma holds_boot_tables_frame:
  assumes "holds_boot_tables ps b" and "\<And>a. 0x1000 \<le> a \<Longrightarrow> a < 0x5000 \<Longrightarrow> guest_byte b' a = guest_byte b a"
  shows "holds_boot_tables ps b'"
proof -
  have "table_word b' a = table_word b a" if "0x1000 \<le> a" "a + 8 \<le> 0x5000" for a
    using that assms(2) unfolding table_word_def by (intro arg_cong [where f = from_le_bytes] map_cong) auto
  with assms(1) show ?thesis by (simp add: holds_boot_tables_def)
qed

lemma boot_table_reads:
  assumes "memory_wf b" and "region_base (mem_region b) = 0"
    and "0x200000 \<le> unat (region_size (mem_region b))" and "holds_boot_tables ps b"
  shows "read_entry b (entry_address 3 0x1000 va)
      = (if unat va div 2 ^ 39 mod 512 = 0 then Some 0x2003 else None)"
    and "read_entry b (entry_address 2 0x2003 va)
      = (if unat va div 2 ^ 30 mod 512 = 0 then Some 0x3003 else None)"
    and "read_entry b (entry_address 1 0x3003 va)
      = (if unat va div 2 ^ 21 mod 512 = 0 then Some 0x83
         else if unat va div 2 ^ 21 mod 512 = 2 \<and> ps \<noteq> [] then Some 0x4003 else None)"
    and "read_entry b (entry_address 0 0x4003 va)
      = map_of (map alias_entry ps) (unat va div 2 ^ 12 mod 512)"
proof -
  note words = assms(4) [unfolded holds_boot_tables_def, rule_format]
  have inside: "in_region (mem_region b) a 4096" if "unat a + 4096 \<le> 0x200000" for a
    using that assms(2,3) by (simp add: in_region_def)
  have frames: "page_frame 0x1000" "page_frame 0x2000" "page_frame 0x3000" "page_frame 0x4000"
    by (simp_all add: page_frame_iff)
  note reads = read_walk_entry [OF assms(1)]
  show "read_entry b (entry_address 3 0x1000 va)
      = (if unat va div 2 ^ 39 mod 512 = 0 then Some 0x2003 else None)"
    using reads [of "0x1000" 0 3 va] by (simp add: inside frames words Let_def)
  show "read_entry b (entry_address 2 0x2003 va)
      = (if unat va div 2 ^ 30 mod 512 = 0 then Some 0x3003 else None)"
    using reads [of "0x2000" 3 2 va] by (simp add: inside frames words Let_def)
  show "read_entry b (entry_address 1 0x3003 va)
      = (if unat va div 2 ^ 21 mod 512 = 0 then Some 0x83
         else if unat va div 2 ^ 21 mod 512 = 2 \<and> ps \<noteq> [] then Some 0x4003 else None)"
    using reads [of "0x3000" 3 1 va] by (simp add: inside frames words Let_def)
  have present: "e AND PAGE_PRESENT \<noteq> 0" if "map_of (map alias_entry ps) i = Some e" for i e
  proof -
    from map_of_SomeD [OF that] obtain p where "alias_entry p = (i, e)" by force
    then have "e = physical_page p OR 3" by (simp add: alias_entry_def)
    then have "bit (e AND 1) 0" by (simp add: bit_simps)
    then show ?thesis by (metis bit_0_eq bot_apply bot_bool_def)
  qed
  show "read_entry b (entry_address 0 0x4003 va)
      = map_of (map alias_entry ps) (unat va div 2 ^ 12 mod 512)"
    using reads [of "0x4000" 3 0 va] present
    by (simp add: inside frames words Let_def split: option.splits)
qed

text \<open>The range of an address from its table indices.\<close>

lemma canonical_pml4_index:
  fixes v :: nat
  assumes "v < 2 ^ 47 \<or> 2 ^ 64 - 2 ^ 47 \<le> v" and "v < 2 ^ 64"
  shows "v div 2 ^ 39 mod 512 = 0 \<longleftrightarrow> v < 2 ^ 39"
proof (cases "v < 2 ^ 47")
  case True
  then have "v div 2 ^ 39 < 512" by (simp add: div_less_iff_less_mult)
  then show ?thesis by (simp add: div_eq_0_iff)
next
  case False
  define r where "r = v div 2 ^ 39 - (2 ^ 25 - 512)"
  have "2 ^ 64 - 2 ^ 47 \<le> v" using False assms by simp
  then have "(2 ^ 64 - 2 ^ 47) div 2 ^ 39 \<le> v div 2 ^ 39" by (rule div_le_mono)
  moreover have "v div 2 ^ 39 < 2 ^ 25" using assms(2) by (simp add: div_less_iff_less_mult)
  ultimately have r: "v div 2 ^ 39 = r + 512 * 65535" "256 \<le> r" "r < 512" by (simp_all add: r_def)
  have "v div 2 ^ 39 mod 512 = r" using r(3) unfolding r(1) by (simp only: mod_mult_self2) simp
  with r(2) False show ?thesis by simp
qed

lemma canonical_low_indices:
  assumes "canonical va"
  shows "unat va div 2 ^ 39 mod 512 = 0 \<and> unat va div 2 ^ 30 mod 512 = 0 \<and> unat va div 2 ^ 21 mod 512 = k
    \<longleftrightarrow> k < 512 \<and> k * 2 ^ 21 \<le> unat va \<and> unat va < (k + 1) * 2 ^ 21"
proof -
  define v where "v = unat va"
  have "v div 2 ^ 39 mod 512 = 0 \<longleftrightarrow> v < 2 ^ 39"
    using assms unat_lt [of va] by (intro canonical_pml4_index) (simp_all add: canonical_def v_def)
  moreover have "v div 2 ^ 30 mod 512 = 0 \<longleftrightarrow> v < 2 ^ 30" if "v < 2 ^ 39"
  proof -
    have "v div 2 ^ 30 < 512" using that by (simp add: div_less_iff_less_mult)
    then show ?thesis by (simp add: div_eq_0_iff)
  qed
  moreover have "v div 2 ^ 21 mod 512 = k \<longleftrightarrow> k < 512 \<and> k * 2 ^ 21 \<le> v \<and> v < (k + 1) * 2 ^ 21" if "v < 2 ^ 30"
  proof -
    have "v div 2 ^ 21 < 512" using that by (simp add: div_less_iff_less_mult)
    then have "v div 2 ^ 21 mod 512 = k \<longleftrightarrow> v div 2 ^ 21 = k \<and> k < 512" by auto
    also have "\<dots> \<longleftrightarrow> k < 512 \<and> k * 2 ^ 21 \<le> v \<and> v < (k + 1) * 2 ^ 21"
      by (metis add.commute div_nat_eqI less_eq_div_iff_mult_less_eq mult.commute order.refl
          plus_1_eq_Suc div_less_iff_less_mult lessI zero_less_numeral zero_less_power)
    finally show ?thesis .
  qed
  moreover have "v < 2 ^ 30" if "k < 512" "v < (k + 1) * 2 ^ 21"
    using that by (simp add: less_le_trans [of v "(k + 1) * 2 ^ 21"])
  moreover have "v < 2 ^ 30 \<Longrightarrow> v < 2 ^ 39" by simp
  ultimately show ?thesis unfolding v_def [symmetric] by metis
qed

lemma large_page_leaf:
  assumes "unat va < 0x200000"
  shows "leaf_access 21 0x83 va = \<lparr>access_address = va, access_writable = True, access_user = False\<rparr>"
proof -
  have "va AND mask 21 = va"
    using assms by (simp add: word_unat_eq_iff unat_page_offset)
  moreover have "(0x83 AND mask 52 AND NOT (mask 21) :: u64) = 0" by (simp add: mask_eq_exp_minus_1)
  ultimately show ?thesis by (simp add: leaf_access_def)
qed

lemma small_page_leaf:
  assumes "page_frame p" and "take_bit 12 f = f"
  shows "leaf_access 12 (p OR f) va = \<lparr>access_address = p + (va AND mask 12),
    access_writable = (f AND PAGE_WRITABLE \<noteq> 0), access_user = (f AND PAGE_USER \<noteq> 0)\<rparr>"
proof -
  have "p AND (va AND mask 12) = 0"
    using assms(1) by (auto simp: page_frame_def bit_eq_iff bit_simps)
  then have "p + (va AND mask 12) = p OR (va AND mask 12)" by (rule disjunctive_add_eq_or)
  then show ?thesis
    using assms by (simp add: leaf_access_def entry_frame entry_flags)
qed

lemma mapping_ok_frame: "mapping_ok p \<Longrightarrow> page_frame (physical_page p)"
  by (simp add: mapping_ok_def page_frame_iff)

lemma find_alias_window:
  assumes "list_all mapping_ok ps" and "find (\<lambda>p. virtual_page p = align_down_page va) ps = Some p"
  shows "0x400000 \<le> unat va" "unat va < 0x600000" "mapping_ok p"
proof -
  have "mapping_ok p" "virtual_page p = align_down_page va"
    using assms by (auto simp: find_Some_iff list_all_length)
  then have "0x400000 \<le> unat (align_down_page va)" "unat (align_down_page va) < 0x600000"
    "unat (align_down_page va) mod 4096 = 0" "mapping_ok p"
    by (auto simp: mapping_ok_def)
  note w = this
  define k where "k = unat va div 4096"
  have k: "unat (align_down_page va) = 4096 * k" "unat va = 4096 * k + unat va mod 4096"
    by (simp_all add: align_down_page_unat k_def minus_mod_eq_mult_div)
  have r: "unat va mod 4096 < 4096" by simp
  have "k < 1536" using w(2) unfolding k(1) by simp
  with k(2) r show "unat va < 0x600000" by linarith
  show "0x400000 \<le> unat va" using w(1) k by linarith
  show "mapping_ok p" by (rule w(4))
qed

lemma boot_tables_walk:
  assumes "memory_wf b" and "region_base (mem_region b) = 0"
    and "0x200000 \<le> unat (region_size (mem_region b))" and "holds_boot_tables ps b"
    and ps: "list_all mapping_ok ps"
  shows "translate b 0x1000 va = boot_translation ps va"
proof (cases "canonical va")
  case False
  then have "2 ^ 47 \<le> unat va" by (simp add: canonical_def)
  moreover from this have "find (\<lambda>p. virtual_page p = align_down_page va) ps = None"
    using find_alias_window(2) [OF ps, of va]
    by (cases "find (\<lambda>p. virtual_page p = align_down_page va) ps") auto
  ultimately show ?thesis
    using False by (simp add: translate_def boot_translation_def word_less_nat_alt)
next
  case True
  note reads = boot_table_reads [OF assms(1-4)]
  note low = canonical_low_indices [OF True]
  let ?i3 = "unat va div 2 ^ 39 mod 512" and ?i2 = "unat va div 2 ^ 30 mod 512"
    and ?i1 = "unat va div 2 ^ 21 mod 512"
  have walk: "translate b 0x1000 va =
    (if ?i3 = 0 \<and> ?i2 = 0 \<and> ?i1 = 0 then Some (restrict_access 0x2003 (restrict_access 0x3003 (leaf_access 21 0x83 va)))
     else if ?i3 = 0 \<and> ?i2 = 0 \<and> ?i1 = 2 \<and> ps \<noteq> [] then
       map_option (\<lambda>e. restrict_access 0x2003 (restrict_access 0x3003 (restrict_access 0x4003 (leaf_access 12 e va))))
         (map_of (map alias_entry ps) (unat va div 2 ^ 12 mod 512))
     else None)"
    using True by (simp add: translate_def table_walk_levels reads option.map_comp comp_def
        del: table_walk.simps(2) One_nat_def)
  consider (identity) "unat va < 0x200000" | (aliased) "0x400000 \<le> unat va" "unat va < 0x600000"
    | (outside) "0x200000 \<le> unat va" "unat va < 0x400000 \<or> 0x600000 \<le> unat va" by linarith
  then show ?thesis
  proof cases
    case identity
    then have "?i3 = 0 \<and> ?i2 = 0 \<and> ?i1 = 0" unfolding low by simp
    then have "translate b 0x1000 va =
      Some (restrict_access 0x2003 (restrict_access 0x3003 (leaf_access 21 0x83 va)))"
      unfolding walk by (rule if_P)
    with identity show ?thesis
      by (simp add: large_page_leaf restrict_access_def boot_translation_def word_less_nat_alt)
  next
    case aliased
    let ?found = "find (\<lambda>p. virtual_page p = align_down_page va) ps"
    have "?i3 = 0 \<and> ?i2 = 0 \<and> ?i1 = 2" unfolding low using aliased by simp
    then have i: "?i3 = 0" "?i2 = 0" "?i1 = 2" by metis+
    have "translate b 0x1000 va =
      map_option (\<lambda>e. restrict_access 0x2003 (restrict_access 0x3003 (restrict_access 0x4003 (leaf_access 12 e va))))
        (map_of (map alias_entry ps) (unat va div 4096 mod 512))"
      unfolding walk i by (cases "ps = []") simp_all
    also have "\<dots> = map_option (\<lambda>p. restrict_access 0x2003 (restrict_access 0x3003 (restrict_access 0x4003
        (leaf_access 12 (physical_page p OR 3) va)))) ?found"
      by (simp add: map_of_alias_entries [OF ps aliased] option.map_comp comp_def)
    finally show ?thesis
      using aliased(1) find_alias_window(3) [OF ps, of va]
      by (cases ?found) (auto simp: boot_translation_def word_less_nat_alt small_page_leaf mapping_ok_frame
          restrict_access_def page_offset_and)
  next
    case outside
    have "\<not> (?i3 = 0 \<and> ?i2 = 0 \<and> ?i1 = 0)" "\<not> (?i3 = 0 \<and> ?i2 = 0 \<and> ?i1 = 2)"
      unfolding low using outside by auto
    then have none: "\<not> (?i3 = 0 \<and> ?i2 = 0 \<and> ?i1 = 0)" "\<not> (?i3 = 0 \<and> ?i2 = 0 \<and> ?i1 = 2 \<and> ps \<noteq> [])"
      by metis+
    have "translate b 0x1000 va = None"
      unfolding walk if_not_P [OF none(1)] by (rule if_not_P [OF none(2)])
    moreover have "find (\<lambda>p. virtual_page p = align_down_page va) ps = None"
      using find_alias_window(1,2) [OF ps, of va] outside
      by (cases "find (\<lambda>p. virtual_page p = align_down_page va) ps") auto
    ultimately show ?thesis
      using outside(1) by (simp add: boot_translation_def word_less_nat_alt)
  qed
qed

lemma boot_tables_frame:
  assumes "memory_wf m" and "region_base (mem_region m) = 0"
    and "0x200000 \<le> unat (region_size (mem_region m))" and "list_all mapping_ok ps"
    and "a < 0x1000 \<or> 0x5000 \<le> a"
  shows "guest_byte (boot_tables ps m) a = guest_byte m a"
proof -
  have inside: "in_region (mem_region m) b n" if "unat b + n \<le> 0x200000" for b n
    using that assms(2,3) by (simp add: in_region_def)
  have bound: "\<forall>e \<in> set (map alias_entry ps). fst e < 512"
    using assms(4) alias_entry_bound by (auto simp: list_all_iff)
  show ?thesis
    using assms(1,2,5) bound unfolding boot_tables_def zeroed_tables_def
    by (auto simp: guest_byte_write_entries_other guest_byte_poke inside simp del: write_entries.simps)
qed

lemma accepted_layout:
  assumes "layout_new r entry sp = Ok l \<or> (\<exists>ps. layout_with_page_mappings r entry sp ps = Ok l)"
  shows "layout_ok l" "layout_memory l = r" "layout_entry l = entry" "layout_stack_pointer l = sp"
  using assms layout_new_ok layout_with_page_mappings_ok by blast+

lemma initialize_long_mode_state:
  assumes "regs_kept K" "sregs_kept K" "sregs_independent K"
    and "initialize_long_mode K l v = (Ok (), v')"
  obtains s0 s where "kvm_get_sregs K (vcpu_fd v) = Inr s0" "kvm_get_sregs K (vcpu_fd v') = Inr s"
    "sregs_agree (configure_long_mode_sregs l s0) s" "kvm_get_regs K (vcpu_fd v') = Inr (long_mode_regs l)"
proof -
  from assms(4) obtain s0 k1 k2 where s0: "kvm_get_sregs K (vcpu_fd v) = Inr s0"
    and set1: "kvm_set_sregs K (configure_long_mode_sregs l s0) (vcpu_fd v) = (None, k1)"
    and set2: "kvm_set_regs K (long_mode_regs l) k1 = (None, k2)" and v': "vcpu_fd v' = k2"
    by (auto simp: initialize_long_mode_def op_then_def op_lift_def
        split: sum.splits prod.splits option.splits)
  have "sregs_wf (configure_long_mode_sregs l s0)"
    using sregs_kept_wf [OF assms(2) s0] by (simp add: sregs_wf_def configure_long_mode_sregs_def)
  from sregs_keptE [OF assms(2) set1 this] obtain s where "kvm_get_sregs K k1 = Inr s"
    "sregs_agree (configure_long_mode_sregs l s0) s" .
  moreover have "kvm_get_sregs K k2 = kvm_get_sregs K k1"
    using assms(3) set2 unfolding sregs_independent_def by blast
  ultimately show ?thesis
    using that s0 v' regs_keptD [OF assms(1) set2] by (simp add: regs_wf_def long_mode_regs_def)
qed

lemma or_and_absorb: "(x OR b) AND b = (b :: u64)"
  by (rule bit_eqI) (auto simp: bit_simps)

section \<open>Properties\<close>

text \<open>
  C32. Booting into long mode: for every layout that validation accepts, installing the page tables
  succeeds, changes nothing but the four table pages, and the page walk of the processor over them is
  exactly the intended translation: the first 2 MiB to themselves, each alias page to its frame, all
  supervisor-only, and a page fault everywhere else.  A vCPU initialised with the layout has paging
  enabled, its \<open>CR3\<close> selects these tables, and its first instruction address is mapped.
\<close>

theorem long_mode_boot_translates:
  assumes "memory_wf m" and "mem_region m = r"
    and "layout_new r entry sp = Ok l \<or> (\<exists>ps. layout_with_page_mappings r entry sp ps = Ok l)"
    and "install_page_tables l m = (res, m')"
    and "regs_kept K" "sregs_kept K" "sregs_independent K"
    and "initialize_long_mode K l v = (Ok (), v')"
  shows "res = Ok ()
    \<and> (\<forall>a. a < 0x1000 \<or> 0x5000 \<le> a \<longrightarrow> guest_byte m' a = guest_byte m a)
    \<and> (\<exists>s g. kvm_get_sregs K (vcpu_fd v') = Inr s \<and> kvm_get_regs K (vcpu_fd v') = Inr g
        \<and> (\<forall>va. translate m' (ks_cr3 s) va = boot_translation (layout_page_mappings l) va)
        \<and> translate m' (ks_cr3 s) (kr_rip g) \<noteq> None
        \<and> kr_rip g = entry \<and> kr_rsp g = sp
        \<and> ks_cr0 s AND 0x80000001 = 0x80000001 \<and> ks_cr4 s AND 0x20 = 0x20 \<and> ks_efer s AND 0x500 = 0x500)"
proof -
  note l = accepted_layout [OF assms(3)]
  have ok: "region_base (mem_region m) = 0" "0x200000 \<le> unat (region_size (mem_region m))"
    "list_all mapping_ok (layout_page_mappings l)" "distinct (map virtual_page (layout_page_mappings l))"
    and entry: "boot_translation (layout_page_mappings l) entry \<noteq> None"
    using l assms(2) by (auto simp: layout_ok_def)
  have run: "res = Ok ()" "m' = boot_tables (layout_page_mappings l) m"
    using install_page_tables_run [OF assms(1) l(1)] l(2) assms(2,4) by simp_all
  have walk: "translate m' 0x1000 va = boot_translation (layout_page_mappings l) va" for va
    unfolding run using assms(1) ok
    by (intro boot_tables_walk boot_tables_hold) (simp_all add: boot_tables_def zeroed_tables_def)
  from initialize_long_mode_state [OF assms(5-8)] obtain s0 s where
    s: "kvm_get_sregs K (vcpu_fd v') = Inr s" "sregs_agree (configure_long_mode_sregs l s0) s"
    and g: "kvm_get_regs K (vcpu_fd v') = Inr (long_mode_regs l)" .
  have regs: "ks_cr3 s = 0x1000" "ks_cr0 s AND 0x80000001 = 0x80000001" "ks_cr4 s AND 0x20 = 0x20"
    "ks_efer s AND 0x500 = 0x500"
    using s(2) by (auto simp: sregs_agree_def configure_long_mode_sregs_def or_and_absorb)
  have "kr_rip (long_mode_regs l) = entry" "kr_rsp (long_mode_regs l) = sp"
    using l by (simp_all add: long_mode_regs_def)
  moreover have "\<forall>a. a < 0x1000 \<or> 0x5000 \<le> a \<longrightarrow> guest_byte m' a = guest_byte m a"
    unfolding run using boot_tables_frame [OF assms(1) ok(1-3)] by blast
  ultimately show ?thesis
    using run(1) walk regs s(1) g entry by (intro conjI exI [of _ s] exI [of _ "long_mode_regs l"]) auto
qed

theorem long_mode_boot_translates_witness:
  "fst (install_page_tables example_boot_layout example_boot_ram) = Ok ()
   \<and> translate (snd (install_page_tables example_boot_layout example_boot_ram)) 0x1000 0x400010
     = Some \<lparr>access_address = 0x9010, access_writable = True, access_user = False\<rparr>
   \<and> translate (snd (install_page_tables example_boot_layout example_boot_ram)) 0x1000 0x300000 = None"
proof -
  obtain res m' where run: "install_page_tables example_boot_layout example_boot_ram = (res, m')" by fastforce
  have "layout_with_page_mappings (mem_region example_boot_ram) 0x400010 0x1ff000
      [\<lparr>virtual_page = 0x400000, physical_page = 0x9000\<rparr>] = Ok example_boot_layout"
    by (simp add: layout_with_page_mappings_def validate_memory_and_stack_def validate_page_mappings_def
        validate_page_mapping_def example_boot_ram_def example_boot_layout_def checked_add_def
        ranges_overlap_def align_down_page_def)
  then have accepted: "layout_new (mem_region example_boot_ram) 0x400010 0x1ff000 = Ok example_boot_layout
      \<or> (\<exists>ps. layout_with_page_mappings (mem_region example_boot_ram) 0x400010 0x1ff000 ps = Ok example_boot_layout)"
    by blast
  have wf: "memory_wf example_boot_ram"
    by (simp add: example_boot_ram_def memory_wf_def region_wf_def KVM_MEMORY_ALIGNMENT_def)
  have kvm: "sregs_independent example_kvm" by (auto simp: sregs_independent_def example_kvm_def)
  obtain v' where init: "initialize_long_mode example_kvm example_boot_layout example_vcpu = (Ok (), v')"
    and cr3: "kvm_get_sregs example_kvm (vcpu_fd v') = Inr s \<Longrightarrow> ks_cr3 s = 0x1000" for s
    by (auto simp: initialize_long_mode_def example_kvm_def example_vcpu_def op_then_def op_lift_def
        configure_long_mode_sregs_def sregs_wf_def example_sregs_def pending_interrupts_def split: prod.splits if_splits)
  have "res = Ok ()" and walk: "translate m' 0x1000 va = boot_translation (layout_page_mappings example_boot_layout) va" for va
    using long_mode_boot_translates [OF wf refl accepted run example_kvm_kept kvm init] cr3 by auto
  moreover have "boot_translation (layout_page_mappings example_boot_layout) 0x400010
      = Some \<lparr>access_address = 0x9010, access_writable = True, access_user = False\<rparr>"
    "boot_translation (layout_page_mappings example_boot_layout) 0x300000 = None"
    by (simp_all add: boot_translation_def example_boot_layout_def align_down_page_def)
  ultimately show ?thesis by (simp add: run)
qed

end
