(* ===== verification/Elf64.thy ===== *)
theory Elf64
  imports Long_Mode
begin

unbundle bit_operations_syntax

text \<open>
  Guest images: the flat binary loader (\<open>loader.rs\<close>) and the ELF64 loader (\<open>loader/elf64.rs\<close>), which
  parses an untrusted file, lays its \<open>PT_LOAD\<close> segments out in the identity and alias windows of the
  long-mode boot layout, and copies them into guest RAM.
\<close>

section \<open>Flat binaries\<close>

record flat_image =
  flat_load_address :: u64
  flat_entry :: u64
  flat_bytes :: "u8 list"

definition flat_new :: "u64 \<Rightarrow> u64 \<Rightarrow> u8 list \<Rightarrow> (flat_image, vm_error) outcome" where
  "flat_new load_address entry bytes =
     (if bytes = [] then Err (GuestImage EmptyFlatBinary) else
      and_then (ok_or (u64_try_from_usize (length bytes)) (GuestImage (ImageLengthTooLarge (length bytes)))) (\<lambda>length_u64.
      and_then (ok_or (checked_add load_address length_u64)
        (GuestImage (ImageRangeOverflow load_address (length bytes)))) (\<lambda>image_end.
      if entry < load_address \<or> image_end \<le> entry
      then Err (GuestImage (EntryOutsideImage entry load_address (length bytes)))
      else Ok \<lparr>flat_load_address = load_address, flat_entry = entry, flat_bytes = bytes\<rparr>)))"

definition flat_load :: "flat_image \<Rightarrow> (guest_memory, unit, vm_error) op" where
  "flat_load img = mem_write (flat_load_address img) (flat_bytes img)"

section \<open>ELF64 files\<close>

abbreviation ELF64_HEADER_SIZE :: usize where "ELF64_HEADER_SIZE \<equiv> 64"
abbreviation ELF64_PROGRAM_HEADER_SIZE :: usize where "ELF64_PROGRAM_HEADER_SIZE \<equiv> 56"
abbreviation ELFCLASS64 :: u8 where "ELFCLASS64 \<equiv> 2"
abbreviation ELFDATA2LSB :: u8 where "ELFDATA2LSB \<equiv> 1"
abbreviation EV_CURRENT :: u8 where "EV_CURRENT \<equiv> 1"
abbreviation ET_EXEC :: u16 where "ET_EXEC \<equiv> 2"
abbreviation EM_X86_64 :: u16 where "EM_X86_64 \<equiv> 62"
abbreviation PT_LOAD :: u32 where "PT_LOAD \<equiv> 1"
abbreviation PF_X :: u32 where "PF_X \<equiv> 1"

datatype (plugins only: code) elf64_error =
    FileTooSmall usize
  | InvalidMagic
  | UnsupportedClass u8
  | UnsupportedEndian u8
  | UnsupportedIdentVersion u8
  | UnsupportedType u16
  | UnsupportedMachine u16
  | UnsupportedVersion u32
  | InvalidHeaderSize u16
  | InvalidProgramHeaderSize u16
  | ProgramHeaderTableOutOfBounds u64 u16 u16 usize
  | NoLoadableSegments
  | EmptyLoadSegment u16
  | SegmentFileSizeExceedsMemorySize u16 u64 u64
  | SegmentFileRangeOutOfBounds u16 u64 u64 usize
  | SegmentPhysicalRangeOverflow u16 u64 u64
  | SegmentPhysicalRangeOutsideRam u16 u64 u64 u64
  | SegmentVirtualRangeOverflow u16 u64 u64
  | SegmentVirtualRangeUnsupported u16 u64 u64
  | IdentitySegmentAddressMismatch u16 u64 u64
  | AliasPageOffsetMismatch u16 u64 u64
  | SegmentOverlapsBootstrapPageTables u16 u64 u64
  | InvalidSegmentAlignment u16 u64
  | SegmentAlignmentMismatch u16 u64 u64 u64
  | LoadSegmentsVirtualOverlap u16 u16
  | LoadSegmentsPhysicalOverlap u16 u16
  | ConflictingPageMapping u64 u64 u64
  | EntryNotInExecutableFileBackedSegment u64

record elf_segment =
  seg_index :: u16
  seg_file_offset :: usize
  seg_file_size :: usize
  seg_memory_size :: usize
  seg_virtual_address :: u64
  seg_physical_address :: u64
  seg_flags :: u32

definition seg_executable :: "elf_segment \<Rightarrow> bool" where
  "seg_executable s \<longleftrightarrow> seg_flags s AND PF_X \<noteq> 0"

definition seg_uses_alias_window :: "elf_segment \<Rightarrow> bool" where
  "seg_uses_alias_window s \<longleftrightarrow> LONG_MODE_ALIAS_VIRTUAL_BASE \<le> seg_virtual_address s"

record elf_image =
  elf_bytes :: "u8 list"
  elf_entry :: u64
  elf_segments :: "elf_segment list"
  elf_page_mappings :: "page_mapping list"

text \<open>
  Reads of a field: each byte is indexed, so a field outside the file is a panic.  The offsets of the
  headers are sums of host sizes below \<open>table_end\<close>, which \<open>checked_add\<close> bounds, and are plain sums here.
\<close>

definition elf_byte :: "u8 list \<Rightarrow> usize \<Rightarrow> (u8, 'e) outcome" where
  "elf_byte bytes i = (if i < length bytes then Ok (bytes ! i) else Fault Index_Out_Of_Range)"

definition elf_read_u16 :: "u8 list \<Rightarrow> usize \<Rightarrow> (u16, 'e) outcome" where
  "elf_read_u16 bytes offset = map_ok from_le_bytes (index_range bytes offset (offset + 2))"

definition elf_read_u32 :: "u8 list \<Rightarrow> usize \<Rightarrow> (u32, 'e) outcome" where
  "elf_read_u32 bytes offset = map_ok from_le_bytes (index_range bytes offset (offset + 4))"

definition elf_read_u64 :: "u8 list \<Rightarrow> usize \<Rightarrow> (u64, 'e) outcome" where
  "elf_read_u64 bytes offset = map_ok from_le_bytes (index_range bytes offset (offset + 8))"

definition validate_ident_and_header :: "u8 list \<Rightarrow> (unit, elf64_error) outcome" where
  "validate_ident_and_header bytes =
     (if length bytes < ELF64_HEADER_SIZE then Err (FileTooSmall (length bytes)) else
      and_then (index_range bytes 0 4) (\<lambda>magic.
      if magic \<noteq> [0x7f, 0x45, 0x4c, 0x46] then Err InvalidMagic else
      and_then (elf_byte bytes 4) (\<lambda>elf_class.
      if elf_class \<noteq> ELFCLASS64 then Err (UnsupportedClass elf_class) else
      and_then (elf_byte bytes 5) (\<lambda>endian.
      if endian \<noteq> ELFDATA2LSB then Err (UnsupportedEndian endian) else
      and_then (elf_byte bytes 6) (\<lambda>ident_version.
      if ident_version \<noteq> EV_CURRENT then Err (UnsupportedIdentVersion ident_version) else
      and_then (elf_read_u16 bytes 16) (\<lambda>elf_type.
      if elf_type \<noteq> ET_EXEC then Err (UnsupportedType elf_type) else
      and_then (elf_read_u16 bytes 18) (\<lambda>machine.
      if machine \<noteq> EM_X86_64 then Err (UnsupportedMachine machine) else
      and_then (elf_read_u32 bytes 20) (\<lambda>version.
      if version \<noteq> ucast EV_CURRENT then Err (UnsupportedVersion version) else
      and_then (elf_read_u16 bytes 52) (\<lambda>header_size.
      if unat header_size \<noteq> ELF64_HEADER_SIZE then Err (InvalidHeaderSize header_size) else
      and_then (elf_read_u16 bytes 54) (\<lambda>program_header_size.
      if unat program_header_size \<noteq> ELF64_PROGRAM_HEADER_SIZE
      then Err (InvalidProgramHeaderSize program_header_size)
      else Ok ()))))))))))"

definition parse_load_segment :: "u8 list \<Rightarrow> usize \<Rightarrow> u16 \<Rightarrow> (elf_segment, elf64_error) outcome" where
  "parse_load_segment bytes offset index =
     and_then (elf_read_u32 bytes (offset + 4)) (\<lambda>flags.
     and_then (elf_read_u64 bytes (offset + 8)) (\<lambda>file_offset_u64.
     and_then (elf_read_u64 bytes (offset + 16)) (\<lambda>virtual_address.
     and_then (elf_read_u64 bytes (offset + 24)) (\<lambda>physical_address.
     and_then (elf_read_u64 bytes (offset + 32)) (\<lambda>file_size_u64.
     and_then (elf_read_u64 bytes (offset + 40)) (\<lambda>memory_size_u64.
     and_then (elf_read_u64 bytes (offset + 48)) (\<lambda>alignment.
     if memory_size_u64 = 0 then Err (EmptyLoadSegment index)
     else if memory_size_u64 < file_size_u64
     then Err (SegmentFileSizeExceedsMemorySize index file_size_u64 memory_size_u64)
     else if 1 < alignment \<and> \<not> is_power_of_two alignment then Err (InvalidSegmentAlignment index alignment)
     else if 1 < alignment \<and> file_offset_u64 mod alignment \<noteq> virtual_address mod alignment
     then Err (SegmentAlignmentMismatch index file_offset_u64 virtual_address alignment)
     else
     let file_range_error = SegmentFileRangeOutOfBounds index file_offset_u64 file_size_u64 (length bytes) in
     and_then (ok_or (usize_try_from_u64 file_offset_u64) file_range_error) (\<lambda>file_offset.
     and_then (ok_or (usize_try_from_u64 file_size_u64) file_range_error) (\<lambda>file_size.
     and_then (ok_or (usize_checked (file_offset + file_size)) file_range_error) (\<lambda>file_end.
     if length bytes < file_end then Err file_range_error else
     and_then (ok_or (checked_add physical_address memory_size_u64)
       (SegmentPhysicalRangeOverflow index physical_address memory_size_u64)) (\<lambda>physical_end.
     if LONG_MODE_IDENTITY_MAP_SIZE < physical_end
     then Err (SegmentPhysicalRangeOutsideRam index physical_address memory_size_u64 LONG_MODE_IDENTITY_MAP_SIZE)
     else if ranges_overlap physical_address physical_end LONG_MODE_PML4_ADDR LONG_MODE_PAGE_TABLE_END
     then Err (SegmentOverlapsBootstrapPageTables index physical_address memory_size_u64)
     else
     and_then (ok_or (checked_add virtual_address memory_size_u64)
       (SegmentVirtualRangeOverflow index virtual_address memory_size_u64)) (\<lambda>virtual_end.
     let uses_identity_window = virtual_end \<le> LONG_MODE_IDENTITY_MAP_SIZE;
         uses_alias_window = LONG_MODE_ALIAS_VIRTUAL_BASE \<le> virtual_address
           \<and> virtual_end \<le> LONG_MODE_ALIAS_VIRTUAL_END in
     if \<not> uses_identity_window \<and> \<not> uses_alias_window
     then Err (SegmentVirtualRangeUnsupported index virtual_address memory_size_u64)
     else if uses_identity_window \<and> virtual_address \<noteq> physical_address
     then Err (IdentitySegmentAddressMismatch index virtual_address physical_address)
     else if uses_alias_window
       \<and> virtual_address mod LONG_MODE_PAGE_SIZE \<noteq> physical_address mod LONG_MODE_PAGE_SIZE
     then Err (AliasPageOffsetMismatch index virtual_address physical_address)
     else
     and_then (ok_or (usize_try_from_u64 memory_size_u64)
       (SegmentPhysicalRangeOutsideRam index physical_address memory_size_u64 LONG_MODE_IDENTITY_MAP_SIZE)) (\<lambda>memory_size.
     Ok \<lparr>seg_index = index, seg_file_offset = file_offset, seg_file_size = file_size,
         seg_memory_size = memory_size, seg_virtual_address = virtual_address,
         seg_physical_address = physical_address, seg_flags = flags\<rparr>)))))))))))))"

text \<open>\<open>reject_segment_overlap\<close>: the loop over the segments before the candidate.\<close>

fun reject_overlap_with :: "elf_segment \<Rightarrow> u64 \<Rightarrow> u64 \<Rightarrow> elf_segment list \<Rightarrow> (unit, elf64_error) outcome" where
  "reject_overlap_with candidate candidate_virtual_end candidate_physical_end [] = Ok ()"
| "reject_overlap_with candidate candidate_virtual_end candidate_physical_end (s # ss) =
     and_then (add_ov (seg_virtual_address s) (of_nat (seg_memory_size s))) (\<lambda>virtual_end.
     if ranges_overlap (seg_virtual_address candidate) candidate_virtual_end (seg_virtual_address s) virtual_end
     then Err (LoadSegmentsVirtualOverlap (seg_index s) (seg_index candidate))
     else
     and_then (add_ov (seg_physical_address s) (of_nat (seg_memory_size s))) (\<lambda>physical_end.
     if ranges_overlap (seg_physical_address candidate) candidate_physical_end (seg_physical_address s) physical_end
     then Err (LoadSegmentsPhysicalOverlap (seg_index s) (seg_index candidate))
     else reject_overlap_with candidate candidate_virtual_end candidate_physical_end ss))"

definition reject_segment_overlap :: "elf_segment list \<Rightarrow> elf_segment \<Rightarrow> (unit, elf64_error) outcome" where
  "reject_segment_overlap existing candidate =
     and_then (add_ov (seg_virtual_address candidate) (of_nat (seg_memory_size candidate))) (\<lambda>candidate_virtual_end.
     and_then (add_ov (seg_physical_address candidate) (of_nat (seg_memory_size candidate))) (\<lambda>candidate_physical_end.
     reject_overlap_with candidate candidate_virtual_end candidate_physical_end existing))"

definition align_up_page :: "u64 \<Rightarrow> (u64, 'e) outcome" where
  "align_up_page address =
     and_then (add_ov address LONG_MODE_PAGE_SIZE) (\<lambda>a.
     and_then (sub_ov a 1) (\<lambda>a. Ok (a AND NOT (LONG_MODE_PAGE_SIZE - 1))))"

text \<open>\<open>build_page_mappings\<close>: the pages of one segment, and the loop over the segments.\<close>

fun map_segment_pages ::
  "u64 \<Rightarrow> u64 \<Rightarrow> nat list \<Rightarrow> page_mapping list \<Rightarrow> (page_mapping list, elf64_error) outcome" where
  "map_segment_pages virtual_start physical_start [] mappings = Ok mappings"
| "map_segment_pages virtual_start physical_start (page # pages) mappings =
     and_then (and_then (mul_ov (of_nat page) LONG_MODE_PAGE_SIZE) (add_ov virtual_start)) (\<lambda>vpage.
     and_then (and_then (mul_ov (of_nat page) LONG_MODE_PAGE_SIZE) (add_ov physical_start)) (\<lambda>ppage.
     case find (\<lambda>p. virtual_page p = vpage) mappings of
       Some existing \<Rightarrow>
         if physical_page existing \<noteq> ppage
         then Err (ConflictingPageMapping vpage (physical_page existing) ppage)
         else map_segment_pages virtual_start physical_start pages mappings
     | None \<Rightarrow>
         map_segment_pages virtual_start physical_start pages
           (mappings @ [\<lparr>virtual_page = vpage, physical_page = ppage\<rparr>])))"

definition map_segment :: "elf_segment \<Rightarrow> page_mapping list \<Rightarrow> (page_mapping list, elf64_error) outcome" where
  "map_segment s mappings =
     (let virtual_start = align_down_page (seg_virtual_address s);
          physical_start = align_down_page (seg_physical_address s) in
      and_then (and_then (add_ov (seg_virtual_address s) (of_nat (seg_memory_size s))) align_up_page) (\<lambda>virtual_end.
      and_then (sub_ov virtual_end virtual_start) (\<lambda>bytes.
      map_segment_pages virtual_start physical_start [0..<unat (bytes div LONG_MODE_PAGE_SIZE)] mappings)))"

fun build_mappings_from :: "elf_segment list \<Rightarrow> page_mapping list \<Rightarrow> (page_mapping list, elf64_error) outcome" where
  "build_mappings_from [] mappings = Ok mappings"
| "build_mappings_from (s # ss) mappings =
     and_then (map_segment s mappings) (build_mappings_from ss)"

definition build_page_mappings :: "elf_segment list \<Rightarrow> (page_mapping list, elf64_error) outcome" where
  "build_page_mappings segments = build_mappings_from (filter seg_uses_alias_window segments) []"

text \<open>The loop over the program headers, and the search for the segment of the entry.\<close>

fun parse_program_headers ::
  "u8 list \<Rightarrow> usize \<Rightarrow> nat list \<Rightarrow> elf_segment list \<Rightarrow> (elf_segment list, elf64_error) outcome" where
  "parse_program_headers bytes table_offset [] segments = Ok segments"
| "parse_program_headers bytes table_offset (index # indices) segments =
     (let offset = table_offset + index * ELF64_PROGRAM_HEADER_SIZE in
      and_then (elf_read_u32 bytes offset) (\<lambda>header_type.
      if header_type \<noteq> PT_LOAD then parse_program_headers bytes table_offset indices segments else
      and_then (parse_load_segment bytes offset (of_nat index)) (\<lambda>segment.
      and_then (reject_segment_overlap segments segment) (\<lambda>_.
      parse_program_headers bytes table_offset indices (segments @ [segment])))))"

fun entry_backed :: "u64 \<Rightarrow> elf_segment list \<Rightarrow> (bool, 'e) outcome" where
  "entry_backed entry [] = Ok False"
| "entry_backed entry (s # ss) =
     and_then (add_ov (seg_virtual_address s) (of_nat (seg_file_size s))) (\<lambda>file_end.
     if seg_executable s \<and> seg_virtual_address s \<le> entry \<and> entry < file_end then Ok True
     else entry_backed entry ss)"

definition elf_parse :: "u8 list \<Rightarrow> (elf_image, elf64_error) outcome" where
  "elf_parse bytes =
     and_then (validate_ident_and_header bytes) (\<lambda>_.
     and_then (elf_read_u64 bytes 24) (\<lambda>entry.
     and_then (elf_read_u64 bytes 32) (\<lambda>program_header_offset.
     and_then (elf_read_u16 bytes 54) (\<lambda>program_header_size.
     and_then (elf_read_u16 bytes 56) (\<lambda>program_header_count.
     let bounds_error = ProgramHeaderTableOutOfBounds program_header_offset program_header_count
           program_header_size (length bytes) in
     and_then (ok_or (usize_try_from_u64 program_header_offset) bounds_error) (\<lambda>table_offset.
     and_then (ok_or (usize_checked (unat program_header_count * ELF64_PROGRAM_HEADER_SIZE)) bounds_error) (\<lambda>table_size.
     and_then (ok_or (usize_checked (table_offset + table_size)) bounds_error) (\<lambda>table_end.
     if length bytes < table_end then Err bounds_error else
     and_then (parse_program_headers bytes table_offset [0..<unat program_header_count] []) (\<lambda>segments.
     if segments = [] then Err NoLoadableSegments else
     and_then (entry_backed entry segments) (\<lambda>backed.
     if \<not> backed then Err (EntryNotInExecutableFileBackedSegment entry) else
     and_then (build_page_mappings segments) (\<lambda>page_mappings.
     Ok \<lparr>elf_bytes = bytes, elf_entry = entry, elf_segments = segments, elf_page_mappings = page_mappings\<rparr>)))))))))))"

section \<open>Loading\<close>

fun load_segments :: "u8 list \<Rightarrow> elf_segment list \<Rightarrow> (guest_memory, unit, vm_error) op" where
  "load_segments bytes [] = op_return ()"
| "load_segments bytes (s # ss) =
     op_then (op_lift (index_range bytes (seg_file_offset s) (seg_file_offset s + seg_file_size s))) (\<lambda>contents.
     op_then (mem_write (seg_physical_address s) contents) (\<lambda>_.
     op_then
       (if seg_file_size s < seg_memory_size s then
          op_then (op_lift (add_ov (seg_physical_address s) (of_nat (seg_file_size s)))) (\<lambda>zero_address.
          mem_write zero_address (replicate (seg_memory_size s - seg_file_size s) 0))
        else op_return ()) (\<lambda>_.
     load_segments bytes ss)))"

definition elf_load :: "elf_image \<Rightarrow> (guest_memory, unit, vm_error) op" where
  "elf_load img = load_segments (elf_bytes img) (elf_segments img)"

section \<open>The built-in image\<close>

abbreviation PROOF_CODE_OFFSET :: usize where "PROOF_CODE_OFFSET \<equiv> 0x100"

definition PROOF_CODE :: "u8 list" where
  "PROOF_CODE =
     [0x48, 0xb8, 0x00, 0x00, 0x00, 0x00, 0x4c, 0x4d, 0x36, 0x34, 0x48, 0xc1, 0xe8, 0x20, 0xba, 0xe9,
      0x00, 0x00, 0x00, 0xee, 0x48, 0xc1, 0xe8, 0x08, 0xee, 0x48, 0xc1, 0xe8, 0x08, 0xee, 0x48, 0xc1,
      0xe8, 0x08, 0xee, 0xf4]"

text \<open>\<open>bytes[offset..offset + n].copy_from_slice(..)\<close>, the body of \<open>write_u16\<close>, \<open>write_u32\<close> and \<open>write_u64\<close>.\<close>

definition fixture_write :: "usize \<Rightarrow> u8 list \<Rightarrow> (u8 list, unit, 'e) op" where
  "fixture_write offset bs bytes =
     (if offset + length bs \<le> length bytes then (Ok (), splice bytes offset bs)
      else (Fault Index_Out_Of_Range, bytes))"

fun fixture_writes :: "(usize \<times> u8 list) list \<Rightarrow> (u8 list, unit, 'e) op" where
  "fixture_writes [] = op_return ()"
| "fixture_writes ((offset, bs) # ws) = op_then (fixture_write offset bs) (\<lambda>_. fixture_writes ws)"

definition fixture_with_addresses :: "u64 \<Rightarrow> u64 \<Rightarrow> u8 list \<Rightarrow> u64 \<Rightarrow> (u8 list, 'e) outcome" where
  "fixture_with_addresses virtual_address physical_address code memory_size =
     (let file_size = PROOF_CODE_OFFSET + length code; ph = ELF64_HEADER_SIZE in
      and_then (add_ov virtual_address (of_nat PROOF_CODE_OFFSET)) (\<lambda>entry.
      case fixture_writes
        [(0, [0x7f, 0x45, 0x4c, 0x46]), (4, [ELFCLASS64]), (5, [ELFDATA2LSB]), (6, [EV_CURRENT]),
         (16, to_le_bytes ET_EXEC), (18, to_le_bytes EM_X86_64), (20, to_le_bytes (ucast EV_CURRENT :: u32)),
         (24, to_le_bytes entry), (32, to_le_bytes (of_nat ELF64_HEADER_SIZE :: u64)),
         (52, to_le_bytes (of_nat ELF64_HEADER_SIZE :: u16)),
         (54, to_le_bytes (of_nat ELF64_PROGRAM_HEADER_SIZE :: u16)), (56, to_le_bytes (1 :: u16)),
         (ph, to_le_bytes PT_LOAD), (ph + 4, to_le_bytes (PF_X OR 4)), (ph + 8, to_le_bytes (0 :: u64)),
         (ph + 16, to_le_bytes virtual_address), (ph + 24, to_le_bytes physical_address),
         (ph + 32, to_le_bytes (of_nat file_size :: u64)), (ph + 40, to_le_bytes memory_size),
         (ph + 48, to_le_bytes LONG_MODE_PAGE_SIZE), (PROOF_CODE_OFFSET, code)]
        (replicate file_size 0) of (r, bytes) \<Rightarrow> map_ok (\<lambda>_. bytes) r))"

definition proof_fixture :: "(u8 list, elf64_error) outcome" where
  "proof_fixture = fixture_with_addresses LONG_MODE_ALIAS_VIRTUAL_BASE 0x10000 PROOF_CODE 0x180"

text \<open>What \<open>run_elf64_guest\<close> prepares before it enters the guest; the calls of \<open>mmap\<close> are a parameter.\<close>

fun expect_ok :: "('a, 'e) outcome \<Rightarrow> ('a, 'f) outcome" where
  "expect_ok (Ok x) = Ok x"
| "expect_ok (Err _) = Fault Expect_Failed"
| "expect_ok (Fault p) = Fault p"

abbreviation PROOF_STACK_POINTER :: u64 where "PROOF_STACK_POINTER \<equiv> 0x1ff000"

definition prepare_elf64_guest ::
  "(usize \<Rightarrow> (ram_mapping, io_error) outcome) \<Rightarrow> (boot_layout \<times> guest_memory, vm_error) outcome" where
  "prepare_elf64_guest mmap =
     and_then (expect_ok proof_fixture) (\<lambda>bytes.
     and_then (expect_ok (elf_parse bytes)) (\<lambda>img.
     and_then (memory_new mmap 0 LONG_MODE_IDENTITY_MAP_SIZE) (\<lambda>memory.
     and_then (expect_ok (layout_with_page_mappings (mem_region memory) (elf_entry img) PROOF_STACK_POINTER
       (elf_page_mappings img))) (\<lambda>layout.
     case op_then (install_page_tables layout) (\<lambda>_. elf_load img) memory of
       (r, memory) \<Rightarrow> map_ok (\<lambda>_. (layout, memory)) r))))"

section \<open>Specification\<close>

text \<open>The fields of a file that is long enough.\<close>

definition elf_field :: "nat \<Rightarrow> nat \<Rightarrow> u8 list \<Rightarrow> 'a::len word" where
  "elf_field offset n bytes = from_le_bytes (subslice bytes offset (offset + n))"

definition segment_at :: "u8 list \<Rightarrow> nat \<Rightarrow> u16 \<Rightarrow> elf_segment" where
  "segment_at bytes offset index =
     \<lparr>seg_index = index, seg_file_offset = unat (elf_field (offset + 8) 8 bytes :: u64),
      seg_file_size = unat (elf_field (offset + 32) 8 bytes :: u64),
      seg_memory_size = unat (elf_field (offset + 40) 8 bytes :: u64),
      seg_virtual_address = elf_field (offset + 16) 8 bytes,
      seg_physical_address = elf_field (offset + 24) 8 bytes, seg_flags = elf_field (offset + 4) 4 bytes\<rparr>"

definition alignment_ok :: "u8 list \<Rightarrow> nat \<Rightarrow> bool" where
  "alignment_ok bytes offset \<longleftrightarrow>
     (let alignment = elf_field (offset + 48) 8 bytes :: u64 in
      alignment \<le> 1 \<or> is_power_of_two alignment
        \<and> (elf_field (offset + 8) 8 bytes :: u64) mod alignment = elf_field (offset + 16) 8 bytes mod alignment)"

text \<open>A segment that fits: in the file, in RAM away from the boot page tables, and in one of the windows.\<close>

definition segment_ok :: "u8 list \<Rightarrow> elf_segment \<Rightarrow> bool" where
  "segment_ok bytes s \<longleftrightarrow>
     0 < seg_memory_size s \<and> seg_file_size s \<le> seg_memory_size s
     \<and> seg_file_offset s + seg_file_size s \<le> length bytes \<and> seg_file_offset s + seg_file_size s < 2 ^ 64
     \<and> unat (seg_physical_address s) + seg_memory_size s \<le> 0x200000
     \<and> (unat (seg_physical_address s) + seg_memory_size s \<le> 0x1000 \<or> 0x5000 \<le> unat (seg_physical_address s))
     \<and> (unat (seg_virtual_address s) + seg_memory_size s \<le> 0x200000
          \<and> seg_virtual_address s = seg_physical_address s
        \<or> 0x400000 \<le> unat (seg_virtual_address s) \<and> unat (seg_virtual_address s) + seg_memory_size s \<le> 0x600000
          \<and> unat (seg_virtual_address s) mod 4096 = unat (seg_physical_address s) mod 4096)"

definition segments_apart :: "elf_segment \<Rightarrow> elf_segment \<Rightarrow> bool" where
  "segments_apart s t \<longleftrightarrow>
     (unat (seg_virtual_address s) + seg_memory_size s \<le> unat (seg_virtual_address t)
      \<or> unat (seg_virtual_address t) + seg_memory_size t \<le> unat (seg_virtual_address s))
     \<and> (unat (seg_physical_address s) + seg_memory_size s \<le> unat (seg_physical_address t)
      \<or> unat (seg_physical_address t) + seg_memory_size t \<le> unat (seg_physical_address s))"

definition header_ok :: "u8 list \<Rightarrow> bool" where
  "header_ok bytes \<longleftrightarrow>
     64 \<le> length bytes \<and> take 7 bytes = [0x7f, 0x45, 0x4c, 0x46, 2, 1, 1]
     \<and> elf_field 16 2 bytes = (2 :: u16) \<and> elf_field 18 2 bytes = (62 :: u16)
     \<and> elf_field 20 4 bytes = (1 :: u32) \<and> elf_field 52 2 bytes = (64 :: u16) \<and> elf_field 54 2 bytes = (56 :: u16)"

definition header_table :: "u8 list \<Rightarrow> nat" where
  "header_table bytes = unat (elf_field 32 8 bytes :: u64)"

definition header_count :: "u8 list \<Rightarrow> nat" where
  "header_count bytes = unat (elf_field 56 2 bytes :: u16)"

definition load_indices :: "u8 list \<Rightarrow> nat \<Rightarrow> nat list \<Rightarrow> nat list" where
  "load_indices bytes table indices = filter (\<lambda>i. elf_field (table + i * 56) 4 bytes = PT_LOAD) indices"

definition segments_at :: "u8 list \<Rightarrow> nat \<Rightarrow> nat list \<Rightarrow> elf_segment list" where
  "segments_at bytes table indices = map (\<lambda>i. segment_at bytes (table + i * 56) (of_nat i)) indices"

definition load_headers :: "u8 list \<Rightarrow> nat list" where
  "load_headers bytes = load_indices bytes (header_table bytes) [0..<header_count bytes]"

definition segments_of :: "u8 list \<Rightarrow> elf_segment list" where
  "segments_of bytes = segments_at bytes (header_table bytes) (load_headers bytes)"

text \<open>The pages of an alias segment, and the condition that no page needs two frames.\<close>

definition seg_page_count :: "elf_segment \<Rightarrow> nat" where
  "seg_page_count s = (unat (seg_virtual_address s) mod 4096 + seg_memory_size s + 4095) div 4096"

definition seg_page :: "elf_segment \<Rightarrow> nat \<Rightarrow> page_mapping" where
  "seg_page s k =
     \<lparr>virtual_page = align_down_page (seg_virtual_address s) + of_nat k * LONG_MODE_PAGE_SIZE,
      physical_page = align_down_page (seg_physical_address s) + of_nat k * LONG_MODE_PAGE_SIZE\<rparr>"

definition alias_pages :: "elf_segment list \<Rightarrow> page_mapping list" where
  "alias_pages ss = concat (map (\<lambda>s. map (seg_page s) [0..<seg_page_count s]) (filter seg_uses_alias_window ss))"

definition one_frame_per_page :: "page_mapping set \<Rightarrow> bool" where
  "one_frame_per_page ps \<longleftrightarrow> (\<forall>p \<in> ps. \<forall>q \<in> ps. virtual_page p = virtual_page q \<longrightarrow> p = q)"

fun merge_mappings :: "page_mapping list \<Rightarrow> page_mapping list \<Rightarrow> (page_mapping list, elf64_error) outcome" where
  "merge_mappings [] mappings = Ok mappings"
| "merge_mappings (p # ps) mappings =
     (case find (\<lambda>q. virtual_page q = virtual_page p) mappings of
        Some q \<Rightarrow>
          if physical_page q \<noteq> physical_page p
          then Err (ConflictingPageMapping (virtual_page p) (physical_page q) (physical_page p))
          else merge_mappings ps mappings
      | None \<Rightarrow> merge_mappings ps (mappings @ [p]))"

text \<open>The images the loader accepts.\<close>

definition entry_ok :: "u64 \<Rightarrow> elf_segment list \<Rightarrow> bool" where
  "entry_ok entry ss \<longleftrightarrow> (\<exists>s \<in> set ss. seg_executable s \<and> unat (seg_virtual_address s) \<le> unat entry
     \<and> unat entry < unat (seg_virtual_address s) + seg_file_size s)"

definition elf_ok :: "u8 list \<Rightarrow> bool" where
  "elf_ok bytes \<longleftrightarrow>
     header_ok bytes \<and> header_table bytes + header_count bytes * 56 \<le> length bytes
     \<and> header_table bytes + header_count bytes * 56 < 2 ^ 64
     \<and> load_headers bytes \<noteq> []
     \<and> (\<forall>i \<in> set (load_headers bytes). alignment_ok bytes (header_table bytes + i * 56))
     \<and> (\<forall>s \<in> set (segments_of bytes). segment_ok bytes s)
     \<and> sorted_wrt segments_apart (segments_of bytes)
     \<and> entry_ok (elf_field 24 8 bytes) (segments_of bytes)
     \<and> one_frame_per_page (set (alias_pages (segments_of bytes)))"

text \<open>What every value of the type of images satisfies, since \<open>parse\<close> is its only constructor.\<close>

definition elf_image_wf :: "elf_image \<Rightarrow> bool" where
  "elf_image_wf img \<longleftrightarrow>
     elf_segments img \<noteq> [] \<and> list_all (segment_ok (elf_bytes img)) (elf_segments img)
     \<and> sorted_wrt segments_apart (elf_segments img) \<and> entry_ok (elf_entry img) (elf_segments img)
     \<and> list_all mapping_ok (elf_page_mappings img) \<and> distinct (map virtual_page (elf_page_mappings img))
     \<and> set (elf_page_mappings img) = set (alias_pages (elf_segments img))"

text \<open>The only segment of the built-in image.\<close>

definition proof_segment :: elf_segment where
  "proof_segment = \<lparr>seg_index = 0, seg_file_offset = 0, seg_file_size = 292, seg_memory_size = 0x180,
     seg_virtual_address = 0x400000, seg_physical_address = 0x10000, seg_flags = 5\<rparr>"

section \<open>Lemmas\<close>

subsection \<open>Fields\<close>

lemma elf_reads:
  "offset + 2 \<le> length bytes \<Longrightarrow> elf_read_u16 bytes offset = Ok (elf_field offset 2 bytes)"
  "offset + 4 \<le> length bytes \<Longrightarrow> elf_read_u32 bytes offset = Ok (elf_field offset 4 bytes)"
  "offset + 8 \<le> length bytes \<Longrightarrow> elf_read_u64 bytes offset = Ok (elf_field offset 8 bytes)"
  by (simp_all add: elf_read_u16_def elf_read_u32_def elf_read_u64_def elf_field_def index_range_def)

lemma validate_header_iff: "validate_ident_and_header bytes = Ok u \<longleftrightarrow> header_ok bytes"
proof (cases "64 \<le> length bytes")
  case True
  have "take 3 (drop 4 bytes) = [bytes ! 4, bytes ! 5, bytes ! 6]"
    using True by (intro nth_equalityI) (auto simp: less_Suc_eq numeral_3_eq_3)
  then have take7: "take 7 bytes = take 4 bytes @ [bytes ! 4, bytes ! 5, bytes ! 6]"
    using take_add [of 4 3 bytes] by simp
  have magic: "take 7 bytes = [0x7f, 0x45, 0x4c, 0x46, 2, 1, 1] \<longleftrightarrow>
      take 4 bytes = [0x7f, 0x45, 0x4c, 0x46] \<and> bytes ! 4 = 2 \<and> bytes ! 5 = 1 \<and> bytes ! 6 = 1"
    unfolding take7 using append_eq_append_conv [of "take 4 bytes" "[0x7f, 0x45, 0x4c, 0x46]"
      "[bytes ! 4, bytes ! 5, bytes ! 6]" "[2, 1, 1]"] True by simp
  have sizes: "unat h = 64 \<longleftrightarrow> h = 64" "unat h = 56 \<longleftrightarrow> h = 56" for h :: u16
    by (simp_all add: word_unat_eq_iff)
  from True show ?thesis
    unfolding header_ok_def magic
    by (simp add: validate_ident_and_header_def elf_reads elf_byte_def index_range_def subslice_def sizes if_Err_Ok)
qed (simp add: validate_ident_and_header_def header_ok_def)

lemma validate_header_safe: "\<not> is_fault (validate_ident_and_header bytes)"
  by (simp add: validate_ident_and_header_def elf_reads elf_byte_def index_range_def)

subsection \<open>Segments\<close>

lemma ranges_overlap_iff:
  "ranges_overlap a b c d \<longleftrightarrow> \<not> (unat b \<le> unat c \<or> unat d \<le> unat a)"
  by (auto simp: ranges_overlap_def word_less_nat_alt)

lemma page_offset_eq_iff: "a mod LONG_MODE_PAGE_SIZE = b mod LONG_MODE_PAGE_SIZE \<longleftrightarrow> unat a mod 4096 = unat b mod 4096"
  by (simp add: word_unat_eq_iff unat_mod_distrib)

lemma parse_load_segment_iff:
  assumes "offset + 56 \<le> length bytes"
  shows "parse_load_segment bytes offset index = Ok s \<longleftrightarrow>
    s = segment_at bytes offset index \<and> alignment_ok bytes offset \<and> segment_ok bytes (segment_at bytes offset index)"
proof -
  define al foff va pa fsz msz where "al = (elf_field (offset + 48) 8 bytes :: u64)"
    and "foff = (elf_field (offset + 8) 8 bytes :: u64)" and "va = (elf_field (offset + 16) 8 bytes :: u64)"
    and "pa = (elf_field (offset + 24) 8 bytes :: u64)" and "fsz = (elf_field (offset + 32) 8 bytes :: u64)"
    and "msz = (elf_field (offset + 40) 8 bytes :: u64)"
  note fields = this [symmetric]
  have al: "alignment_ok bytes offset \<longleftrightarrow>
      \<not> (1 < al \<and> \<not> is_power_of_two al) \<and> \<not> (1 < al \<and> foff mod al \<noteq> va mod al)"
    by (auto simp: alignment_ok_def Let_def fields not_less)
  have ok: "segment_ok bytes (segment_at bytes offset index) \<longleftrightarrow>
      msz \<noteq> 0 \<and> \<not> msz < fsz \<and> unat foff + unat fsz < 2 ^ 64 \<and> unat foff + unat fsz \<le> length bytes
      \<and> unat pa + unat msz < 2 ^ 64 \<and> \<not> LONG_MODE_IDENTITY_MAP_SIZE < pa + msz
      \<and> \<not> ranges_overlap pa (pa + msz) LONG_MODE_PML4_ADDR LONG_MODE_PAGE_TABLE_END
      \<and> unat va + unat msz < 2 ^ 64
      \<and> (va + msz \<le> LONG_MODE_IDENTITY_MAP_SIZE \<and> va = pa
         \<or> LONG_MODE_ALIAS_VIRTUAL_BASE \<le> va \<and> va + msz \<le> LONG_MODE_ALIAS_VIRTUAL_END
           \<and> va mod LONG_MODE_PAGE_SIZE = pa mod LONG_MODE_PAGE_SIZE)"
    (is "_ \<longleftrightarrow> ?r")
  proof
    have pos: "msz \<noteq> 0 \<longleftrightarrow> 0 < unat msz" by (simp add: unat_gt_0)
    assume "segment_ok bytes (segment_at bytes offset index)"
    then show ?r
      by (auto simp: segment_ok_def segment_at_def fields word_less_nat_alt word_le_nat_alt unat_add_small
          ranges_overlap_iff page_offset_eq_iff)
  next
    have pos: "msz \<noteq> 0 \<longleftrightarrow> 0 < unat msz" by (simp add: unat_gt_0)
    assume ?r then show "segment_ok bytes (segment_at bytes offset index)"
      by (auto simp: segment_ok_def segment_at_def fields word_less_nat_alt word_le_nat_alt unat_add_small
          ranges_overlap_iff page_offset_eq_iff pos)
  qed
  have seg: "segment_at bytes offset index = \<lparr>seg_index = index, seg_file_offset = unat foff,
      seg_file_size = unat fsz, seg_memory_size = unat msz, seg_virtual_address = va, seg_physical_address = pa,
      seg_flags = elf_field (offset + 4) 4 bytes\<rparr>"
    by (simp add: segment_at_def fields)
  have windows: "unat va + unat msz < 2 ^ 64 \<Longrightarrow> va + msz \<le> LONG_MODE_IDENTITY_MAP_SIZE \<Longrightarrow>
      \<not> LONG_MODE_ALIAS_VIRTUAL_BASE \<le> va"
    by (simp add: word_le_nat_alt unat_add_small)
  have "parse_load_segment bytes offset index = Ok s \<longleftrightarrow>
      msz \<noteq> 0 \<and> \<not> msz < fsz \<and> \<not> (1 < al \<and> \<not> is_power_of_two al) \<and> \<not> (1 < al \<and> foff mod al \<noteq> va mod al)
      \<and> unat foff + unat fsz < 2 ^ 64 \<and> unat foff + unat fsz \<le> length bytes
      \<and> unat pa + unat msz < 2 ^ 64 \<and> \<not> LONG_MODE_IDENTITY_MAP_SIZE < pa + msz
      \<and> \<not> ranges_overlap pa (pa + msz) LONG_MODE_PML4_ADDR LONG_MODE_PAGE_TABLE_END
      \<and> unat va + unat msz < 2 ^ 64
      \<and> (va + msz \<le> LONG_MODE_IDENTITY_MAP_SIZE
          \<or> LONG_MODE_ALIAS_VIRTUAL_BASE \<le> va \<and> va + msz \<le> LONG_MODE_ALIAS_VIRTUAL_END)
      \<and> (va + msz \<le> LONG_MODE_IDENTITY_MAP_SIZE \<longrightarrow> va = pa)
      \<and> (LONG_MODE_ALIAS_VIRTUAL_BASE \<le> va \<and> va + msz \<le> LONG_MODE_ALIAS_VIRTUAL_END
          \<longrightarrow> va mod LONG_MODE_PAGE_SIZE = pa mod LONG_MODE_PAGE_SIZE)
      \<and> s = segment_at bytes offset index"
    unfolding seg using assms
    by (auto simp: parse_load_segment_def elf_reads fields Let_def if_Err_Ok outcome_simps
        usize_checked_def USIZE_BITS_def not_less split: if_splits)
  then show ?thesis unfolding al ok using windows by blast
qed

lemma parse_load_segment_safe: "offset + 56 \<le> length bytes \<Longrightarrow> \<not> is_fault (parse_load_segment bytes offset index)"
  by (simp add: parse_load_segment_def elf_reads Let_def)

text \<open>The ends of the ranges of a segment do not wrap.\<close>

lemma add_small:
  assumes "unat a + n \<le> 0x600000"
  shows "add_ov a (of_nat n) = Ok (a + of_nat n :: u64)" and "unat (a + of_nat n :: u64) = unat a + n"
proof -
  have n: "unat (of_nat n :: u64) = n" using assms by (simp add: unsigned_of_nat take_bit_nat_eq_self)
  show "add_ov a (of_nat n) = Ok (a + of_nat n :: u64)" using assms n by (simp add: add_ov_Ok)
  show "unat (a + of_nat n :: u64) = unat a + n" using assms n by (simp add: unat_add_small)
qed

lemma segment_ends:
  assumes "segment_ok bytes s" and "n \<le> seg_memory_size s"
  shows "unat (seg_virtual_address s) + n \<le> 0x600000" "unat (seg_physical_address s) + n \<le> 0x600000"
  using assms by (auto simp: segment_ok_def)

lemma reject_segment_overlap_eq:
  assumes c: "segment_ok bytes c" and "\<forall>s \<in> set ss. segment_ok bytes s"
  shows "(reject_segment_overlap ss c = Ok u \<longleftrightarrow> (\<forall>s \<in> set ss. segments_apart s c))
    \<and> \<not> is_fault (reject_segment_overlap ss c)"
proof -
  note end_of = add_small [OF segment_ends(1)] add_small [OF segment_ends(2)]
  define ve pe where "ve = seg_virtual_address c + of_nat (seg_memory_size c)"
    and "pe = seg_physical_address c + of_nat (seg_memory_size c)"
  have e: "unat ve = unat (seg_virtual_address c) + seg_memory_size c"
    "unat pe = unat (seg_physical_address c) + seg_memory_size c"
    using end_of(2,4) [OF c] by (simp_all add: ve_def pe_def)
  have "(reject_overlap_with c ve pe ss = Ok u \<longleftrightarrow> (\<forall>s \<in> set ss. segments_apart s c))
      \<and> \<not> is_fault (reject_overlap_with c ve pe ss)"
    using assms(2)
  proof (induction ss)
    case (Cons s ss)
    then have s: "segment_ok bytes s" by simp
    with Cons show ?case
      by (auto simp: end_of [OF s] ranges_overlap_iff e segments_apart_def)
  qed simp
  then show ?thesis
    by (simp add: reject_segment_overlap_def end_of [OF c] ve_def pe_def)
qed

lemma parse_program_headers_eq:
  assumes "\<forall>i \<in> set indices. table + i * 56 + 56 \<le> length bytes" and "\<forall>s \<in> set ss. segment_ok bytes s"
    and "sorted_wrt segments_apart ss"
  shows "(parse_program_headers bytes table indices ss = Ok rs \<longleftrightarrow>
      rs = ss @ segments_at bytes table (load_indices bytes table indices)
      \<and> (\<forall>i \<in> set (load_indices bytes table indices). alignment_ok bytes (table + i * 56))
      \<and> (\<forall>s \<in> set (segments_at bytes table (load_indices bytes table indices)). segment_ok bytes s)
      \<and> sorted_wrt segments_apart (ss @ segments_at bytes table (load_indices bytes table indices)))
    \<and> \<not> is_fault (parse_program_headers bytes table indices ss)"
  using assms
proof (induction indices arbitrary: ss)
  case Nil then show ?case by (auto simp: segments_at_def load_indices_def)
next
  case (Cons i indices)
  let ?o = "table + i * 56"
  define s where "s = segment_at bytes ?o (of_nat i)"
  have o: "?o + 56 \<le> length bytes" and ty: "elf_read_u32 bytes ?o = (Ok (elf_field ?o 4 bytes) :: (_, elf64_error) outcome)"
    and rest: "\<forall>i \<in> set indices. table + i * 56 + 56 \<le> length bytes"
    using Cons.prems(1) by (auto simp: elf_reads)
  show ?case
  proof (cases "elf_field ?o 4 bytes = PT_LOAD")
    case False
    then have "load_indices bytes table (i # indices) = load_indices bytes table indices"
      by (simp add: load_indices_def)
    with False Cons.IH [OF rest Cons.prems(2,3)] ty show ?thesis by (simp add: Let_def)
  next
    case load: True
    then have idx: "load_indices bytes table (i # indices) = i # load_indices bytes table indices"
      and segs: "segments_at bytes table (i # js) = s # segments_at bytes table js" for js
      by (simp_all add: load_indices_def segments_at_def s_def)
    note parse = parse_load_segment_iff [OF o, of "of_nat i"] parse_load_segment_safe [OF o, of "of_nat i"]
    note step = parse_program_headers.simps(2) [of bytes table i indices ss, unfolded Let_def ty and_then.simps, simplified load, simplified]
    consider (bad) "\<not> (alignment_ok bytes ?o \<and> segment_ok bytes s)"
      | (overlap) "alignment_ok bytes ?o" "segment_ok bytes s" "\<not> (\<forall>t \<in> set ss. segments_apart t s)"
      | (good) "alignment_ok bytes ?o" "segment_ok bytes s" "\<forall>t \<in> set ss. segments_apart t s" by blast
    then show ?thesis
    proof cases
      case bad
      then obtain e where "parse_load_segment bytes ?o (of_nat i) = Err e"
        using parse unfolding s_def by (cases "parse_load_segment bytes ?o (of_nat i)") auto
      with bad show ?thesis unfolding idx segs by (auto simp: step)
    next
      case overlap
      then have "parse_load_segment bytes ?o (of_nat i) = Ok s" using parse by (simp add: s_def)
      moreover obtain e where "reject_segment_overlap ss s = Err e"
        using reject_segment_overlap_eq [OF overlap(2) Cons.prems(2)] overlap(3)
        by (cases "reject_segment_overlap ss s") auto
      ultimately show ?thesis unfolding idx segs using overlap(3) by (auto simp: step sorted_wrt_append)
    next
      case good
      then have "parse_load_segment bytes ?o (of_nat i) = Ok s" using parse by (simp add: s_def)
      moreover have "reject_segment_overlap ss s = Ok ()"
        using reject_segment_overlap_eq [OF good(2) Cons.prems(2)] good(3) by blast
      ultimately have "parse_program_headers bytes table (i # indices) ss
          = parse_program_headers bytes table indices (ss @ [s])" by (simp add: step)
      moreover have "sorted_wrt segments_apart (ss @ [s])" "\<forall>t \<in> set (ss @ [s]). segment_ok bytes t"
        using Cons.prems good by (auto simp: sorted_wrt_append)
      ultimately show ?thesis
        unfolding idx segs using Cons.IH [OF rest, of "ss @ [s]"] good by simp
    qed
  qed
qed

lemma entry_backed_eq:
  "\<forall>s \<in> set ss. segment_ok bytes s \<Longrightarrow> entry_backed entry ss = Ok (entry_ok entry ss)"
proof (induction ss)
  case (Cons s ss)
  then have s: "segment_ok bytes s" by simp
  then have "seg_file_size s \<le> seg_memory_size s" by (simp add: segment_ok_def)
  note file_end = add_small [OF segment_ends(1) [OF s this]]
  from Cons show ?case
    by (auto simp: entry_ok_def word_le_nat_alt word_less_nat_alt file_end)
qed (simp add: entry_ok_def)

subsection \<open>Page mappings\<close>

lemma align_down_page_div: "unat (align_down_page a) = 4096 * (unat a div 4096)"
  by (simp add: align_down_page_unat minus_mod_eq_mult_div)

lemma alias_segment:
  assumes "segment_ok bytes s" and "seg_uses_alias_window s"
  shows "0x400000 \<le> unat (seg_virtual_address s)"
    "unat (seg_virtual_address s) + seg_memory_size s \<le> 0x600000"
    "unat (seg_virtual_address s) mod 4096 = unat (seg_physical_address s) mod 4096"
  using assms by (auto simp: segment_ok_def seg_uses_alias_window_def word_le_nat_alt)

lemma page_count_iff: "k < seg_page_count s \<longleftrightarrow> 4096 * k < unat (seg_virtual_address s) mod 4096 + seg_memory_size s"
  using less_eq_div_iff_mult_less_eq [of 4096 "Suc k" "unat (seg_virtual_address s) mod 4096 + seg_memory_size s + 4095"]
  unfolding seg_page_count_def by (simp add: Suc_le_eq) linarith

lemma seg_page_nat:
  assumes "segment_ok bytes s" and "seg_uses_alias_window s" and "k < seg_page_count s"
  shows "unat (align_down_page (seg_virtual_address s)) + 4096 * k \<le> 0x600000"
    and "unat (align_down_page (seg_physical_address s)) + 4096 * k \<le> 0x600000"
    and "unat (virtual_page (seg_page s k)) = 4096 * (unat (seg_virtual_address s) div 4096 + k)"
    and "unat (physical_page (seg_page s k)) = 4096 * (unat (seg_physical_address s) div 4096 + k)"
proof -
  define v p m where "v = unat (seg_virtual_address s)" and "p = unat (seg_physical_address s)" and "m = seg_memory_size s"
  have al: "v + m \<le> 0x600000" "v mod 4096 = p mod 4096" "p + m \<le> 0x200000"
    using alias_segment [OF assms(1,2)] assms(1) by (auto simp: v_def p_def m_def segment_ok_def)
  have k: "4096 * k < v mod 4096 + m" using assms(3) by (simp add: page_count_iff v_def m_def)
  have dm: "4096 * (v div 4096) + v mod 4096 = v" "4096 * (p div 4096) + p mod 4096 = p" by simp_all
  have vb: "4096 * (v div 4096) + 4096 * k \<le> 0x600000" using al k dm by linarith
  have pb: "4096 * (p div 4096) + 4096 * k \<le> 0x600000" using al k dm by linarith
  show v: "unat (align_down_page (seg_virtual_address s)) + 4096 * k \<le> 0x600000"
    using vb by (simp only: align_down_page_div v_def)
  show p: "unat (align_down_page (seg_physical_address s)) + 4096 * k \<le> 0x600000"
    using pb by (simp only: align_down_page_div p_def)
  have k4: "(of_nat k * LONG_MODE_PAGE_SIZE :: u64) = of_nat (4096 * k)" by simp
  show "unat (virtual_page (seg_page s k)) = 4096 * (unat (seg_virtual_address s) div 4096 + k)"
    using add_small(2) [OF v] by (simp only: seg_page_def page_mapping.simps k4 align_down_page_div add_mult_distrib2)
  show "unat (physical_page (seg_page s k)) = 4096 * (unat (seg_physical_address s) div 4096 + k)"
    using add_small(2) [OF p] by (simp only: seg_page_def page_mapping.simps k4 align_down_page_div add_mult_distrib2)
qed

lemma map_segment_pages_eq:
  assumes "segment_ok bytes s" and "seg_uses_alias_window s" and "\<forall>k \<in> set pages. k < seg_page_count s"
  shows "map_segment_pages (align_down_page (seg_virtual_address s)) (align_down_page (seg_physical_address s)) pages ms
    = merge_mappings (map (seg_page s) pages) ms"
  using assms(3)
proof (induction pages arbitrary: ms)
  case (Cons k pages)
  note b = seg_page_nat(1,2) [OF assms(1,2), of k]
  have k: "4096 * k \<le> 0x600000" "k < seg_page_count s" using Cons.prems b by auto
  have "unat (of_nat k :: u64) = k" using k(1) by (simp add: unsigned_of_nat take_bit_nat_eq_self)
  then have mul: "mul_ov (of_nat k) LONG_MODE_PAGE_SIZE = (Ok (of_nat (4096 * k)) :: (u64, elf64_error) outcome)"
    using k(1) by (simp add: mul_ov_def checked_mul_def)
  have add: "add_ov (align_down_page (seg_virtual_address s)) (of_nat (4096 * k)) = (Ok (virtual_page (seg_page s k)) :: (u64, elf64_error) outcome)"
    "add_ov (align_down_page (seg_physical_address s)) (of_nat (4096 * k)) = (Ok (physical_page (seg_page s k)) :: (u64, elf64_error) outcome)"
    using add_small(1) [OF b(1) [OF k(2)]] add_small(1) [OF b(2) [OF k(2)]] by (simp_all add: seg_page_def mult.commute)
  have eta: "\<lparr>virtual_page = virtual_page (seg_page s k), physical_page = physical_page (seg_page s k)\<rparr> = seg_page s k"
    by simp
  from Cons mul add show ?case
    by (simp del: of_nat_mult add: eta split: option.split)
qed simp

lemma map_segment_eq:
  assumes "segment_ok bytes s" and "seg_uses_alias_window s"
  shows "map_segment s ms = merge_mappings (map (seg_page s) [0..<seg_page_count s]) ms"
proof -
  define v m where "v = unat (seg_virtual_address s)" and "m = seg_memory_size s"
  define e where "e = seg_virtual_address s + of_nat m"
  have e: "add_ov (seg_virtual_address s) (of_nat m) = (Ok e :: (u64, elf64_error) outcome)" "unat e = v + m"
    using add_small [OF segment_ends(1) [OF assms(1) order.refl]] by (simp_all add: e_def v_def m_def)
  have em: "v + m \<le> 0x600000" using alias_segment [OF assms] by (simp add: v_def m_def)
  define y where "y = align_down_page (e + 4095)"
  have "add_ov e LONG_MODE_PAGE_SIZE = (Ok (e + 4096) :: (u64, elf64_error) outcome)"
    using em e(2) by (simp add: add_ov_Ok)
  moreover have "unat (e + 4096) = v + m + 4096" using em e(2) by (simp add: unat_add_small)
  then have "sub_ov (e + 4096) 1 = (Ok (e + 4096 - 1) :: (u64, elf64_error) outcome)"
    by (simp add: sub_ov_def checked_sub_def word_le_nat_alt)
  ultimately have up: "align_up_page e = (Ok y :: (u64, elf64_error) outcome)"
    by (simp add: align_up_page_def y_def align_down_page_def add.commute)
  have "unat (e + 4095) = v + m + 4095" using em e(2) by (simp add: unat_add_small)
  then have y: "unat y = 4096 * ((v + m + 4095) div 4096)" by (simp add: y_def align_down_page_div)
  define q where "q = v div 4096"
  have vq: "v = v mod 4096 + 4096 * q" by (simp add: q_def)
  have "v + m + 4095 = v mod 4096 + m + 4095 + 4096 * q" using vq by linarith
  then have div: "(v + m + 4095) div 4096 = q + seg_page_count s"
    by (simp only: div_mult_self2) (simp add: seg_page_count_def v_def m_def)
  have start: "unat (align_down_page (seg_virtual_address s)) = 4096 * q" by (simp add: align_down_page_div v_def q_def)
  then have le: "align_down_page (seg_virtual_address s) \<le> y"
    using y div by (simp add: word_le_nat_alt)
  have n: "unat ((y - align_down_page (seg_virtual_address s)) div LONG_MODE_PAGE_SIZE) = seg_page_count s"
    using y div start unat_sub_le [OF le] by (simp add: unat_div add_mult_distrib2)
  have "map_segment s ms = map_segment_pages (align_down_page (seg_virtual_address s))
      (align_down_page (seg_physical_address s)) [0..<seg_page_count s] ms"
    using le by (simp add: map_segment_def e(1) [unfolded m_def] up sub_ov_def checked_sub_def n)
  also have "\<dots> = merge_mappings (map (seg_page s) [0..<seg_page_count s]) ms"
    by (rule map_segment_pages_eq [OF assms]) simp
  finally show ?thesis .
qed

lemma merge_append: "merge_mappings (ps @ qs) ms = and_then (merge_mappings ps ms) (merge_mappings qs)"
  by (induction ps arbitrary: ms) (simp_all split: option.split)

lemma merge_safe: "\<not> is_fault (merge_mappings ps ms)"
  by (induction ps arbitrary: ms) (simp_all split: option.split)

lemma distinct_one_frame: "distinct (map virtual_page ms) \<Longrightarrow> one_frame_per_page (set ms)"
  by (auto simp: one_frame_per_page_def distinct_map inj_on_def)

lemma merge_Ok:
  "merge_mappings ps ms = Ok rs \<Longrightarrow> distinct (map virtual_page ms) \<Longrightarrow>
    set rs = set ms \<union> set ps \<and> distinct (map virtual_page rs)"
proof (induction ps arbitrary: ms)
  case (Cons p ps)
  show ?case
  proof (cases "find (\<lambda>q. virtual_page q = virtual_page p) ms")
    case None
    then have "virtual_page p \<notin> virtual_page ` set ms" by (auto simp: find_None_iff)
    with Cons None show ?thesis by auto
  next
    case (Some q)
    then have q: "q \<in> set ms" "virtual_page q = virtual_page p" by (auto simp: find_Some_iff)
    with Some Cons.prems have "q = p" by (auto split: if_splits)
    with Cons Some q show ?thesis by (auto split: if_splits)
  qed
qed simp

lemma merge_complete:
  "one_frame_per_page (set ms \<union> set ps) \<Longrightarrow> \<exists>rs. merge_mappings ps ms = Ok rs"
proof (induction ps arbitrary: ms)
  case (Cons p ps)
  show ?case
  proof (cases "find (\<lambda>q. virtual_page q = virtual_page p) ms")
    case None
    with Cons show ?thesis by simp
  next
    case (Some q)
    then have "q \<in> set ms" "virtual_page q = virtual_page p" by (auto simp: find_Some_iff)
    with Cons.prems have "q = p" unfolding one_frame_per_page_def by auto
    with Cons Some show ?thesis by (simp add: one_frame_per_page_def)
  qed
qed simp

lemma merge_iff: "(\<exists>rs. merge_mappings ps [] = Ok rs) \<longleftrightarrow> one_frame_per_page (set ps)"
  using merge_complete [of "[]" ps] merge_Ok [of ps "[]"] distinct_one_frame by fastforce

lemma build_page_mappings_eq:
  assumes "\<forall>s \<in> set ss. segment_ok bytes s"
  shows "build_page_mappings ss = merge_mappings (alias_pages ss) []"
proof -
  have "build_mappings_from ts ms = merge_mappings (concat (map (\<lambda>s. map (seg_page s) [0..<seg_page_count s]) ts)) ms"
    if "\<forall>s \<in> set ts. segment_ok bytes s \<and> seg_uses_alias_window s" for ts ms
    using that
  proof (induction ts arbitrary: ms)
    case (Cons s ts)
    then have "build_mappings_from ts = merge_mappings (concat (map (\<lambda>s. map (seg_page s) [0..<seg_page_count s]) ts))"
      by auto
    with Cons.prems show ?case by (simp add: map_segment_eq [of bytes s] merge_append)
  qed simp
  with assms show ?thesis by (simp add: build_page_mappings_def alias_pages_def)
qed

subsection \<open>Parsing\<close>

lemma elf_parse_iff:
  "elf_parse bytes = Ok img \<longleftrightarrow>
    elf_ok bytes \<and> elf_bytes img = bytes \<and> elf_entry img = elf_field 24 8 bytes \<and> elf_segments img = segments_of bytes
    \<and> merge_mappings (alias_pages (segments_of bytes)) [] = Ok (elf_page_mappings img)"
  and elf_parse_safe: "\<not> is_fault (elf_parse bytes)"
proof -
  let ?t = "header_table bytes" and ?n = "header_count bytes"
  have parse: "elf_parse bytes =
    and_then (validate_ident_and_header bytes) (\<lambda>_.
      if \<not> (?t + ?n * 56 < 2 ^ 64 \<and> ?t + ?n * 56 \<le> length bytes)
      then Err (ProgramHeaderTableOutOfBounds (elf_field 32 8 bytes) (elf_field 56 2 bytes) (elf_field 54 2 bytes) (length bytes))
      else and_then (parse_program_headers bytes ?t [0..<?n] []) (\<lambda>segments.
        if segments = [] then Err NoLoadableSegments else
        and_then (entry_backed (elf_field 24 8 bytes) segments) (\<lambda>backed.
        if \<not> backed then Err (EntryNotInExecutableFileBackedSegment (elf_field 24 8 bytes)) else
        and_then (build_page_mappings segments) (\<lambda>ms.
        Ok \<lparr>elf_bytes = bytes, elf_entry = elf_field 24 8 bytes, elf_segments = segments, elf_page_mappings = ms\<rparr>))))"
  proof (cases "header_ok bytes")
    case False
    then obtain e where "validate_ident_and_header bytes = Err e"
      using validate_header_iff [of bytes "()"] validate_header_safe [of bytes]
      by (cases "validate_ident_and_header bytes") auto
    then show ?thesis by (simp add: elf_parse_def)
  next
    case True
    then have len: "64 \<le> length bytes" and v: "validate_ident_and_header bytes = Ok ()"
      by (simp_all add: header_ok_def validate_header_iff)
    have "?n < 2 ^ 16" unfolding header_count_def using unat_lt [of "elf_field 56 2 bytes :: u16"] by simp
    then have "?n * 56 < 2 ^ 64" by simp
    then show ?thesis
      using len v by (simp add: elf_parse_def elf_reads usize_checked_def USIZE_BITS_def Let_def
          header_table_def [symmetric] header_count_def [symmetric])
  qed
  have "(elf_parse bytes = Ok img \<longleftrightarrow> elf_ok bytes \<and> elf_bytes img = bytes \<and> elf_entry img = elf_field 24 8 bytes
      \<and> elf_segments img = segments_of bytes \<and> merge_mappings (alias_pages (segments_of bytes)) [] = Ok (elf_page_mappings img))
    \<and> \<not> is_fault (elf_parse bytes)"
  proof (cases "header_ok bytes \<and> ?t + ?n * 56 < 2 ^ 64 \<and> ?t + ?n * 56 \<le> length bytes")
    case False
    then show ?thesis
      using validate_header_safe [of bytes] validate_header_iff [of bytes]
      unfolding parse by (auto simp: elf_ok_def outcome_simps is_fault_iff)
  next
    case table: True
    let ?conds = "(\<forall>i \<in> set (load_headers bytes). alignment_ok bytes (?t + i * 56))
      \<and> (\<forall>s \<in> set (segments_of bytes). segment_ok bytes s) \<and> sorted_wrt segments_apart (segments_of bytes)"
    have "?t + i * 56 + 56 \<le> length bytes" if "i < ?n" for i
    proof -
      have "Suc i * 56 \<le> ?n * 56" using that by (intro mult_right_mono) simp_all
      with table show ?thesis by simp
    qed
    then have headers: "(parse_program_headers bytes ?t [0..<?n] [] = Ok rs \<longleftrightarrow> rs = segments_of bytes \<and> ?conds)
        \<and> \<not> is_fault (parse_program_headers bytes ?t [0..<?n] [])" for rs
      using parse_program_headers_eq [of "[0..<?n]" ?t bytes "[]" rs]
      by (simp add: segments_of_def load_headers_def)
    have v: "validate_ident_and_header bytes = Ok ()" using table by (simp add: validate_header_iff)
    have ok: "elf_ok bytes \<longleftrightarrow> ?conds \<and> segments_of bytes \<noteq> [] \<and> entry_ok (elf_field 24 8 bytes) (segments_of bytes)
        \<and> one_frame_per_page (set (alias_pages (segments_of bytes)))"
      using table by (auto simp: elf_ok_def segments_of_def segments_at_def)
    show ?thesis
    proof (cases ?conds)
      case False
      then obtain e where "parse_program_headers bytes ?t [0..<?n] [] = Err e"
        using headers by (cases "parse_program_headers bytes ?t [0..<?n] []") auto
      moreover from False have "\<not> elf_ok bytes" unfolding ok by blast
      ultimately show ?thesis using v table unfolding parse by simp
    next
      case True
      then have "parse_program_headers bytes ?t [0..<?n] [] = Ok (segments_of bytes)" using headers by blast
      moreover have segs: "\<forall>s \<in> set (segments_of bytes). segment_ok bytes s" using True by blast
      ultimately show ?thesis
        unfolding parse ok using v table True merge_safe [of "alias_pages (segments_of bytes)" "[]"]
          merge_iff [of "alias_pages (segments_of bytes)"]
        by (cases img) (auto simp: entry_backed_eq [OF segs] build_page_mappings_eq [OF segs] outcome_simps if_Err_Ok)
    qed
  qed
  then show "elf_parse bytes = Ok img \<longleftrightarrow>
      elf_ok bytes \<and> elf_bytes img = bytes \<and> elf_entry img = elf_field 24 8 bytes \<and> elf_segments img = segments_of bytes
      \<and> merge_mappings (alias_pages (segments_of bytes)) [] = Ok (elf_page_mappings img)"
    and "\<not> is_fault (elf_parse bytes)" by blast+
qed

subsection \<open>Loading\<close>

lemma load_segment_run:
  assumes wf: "memory_wf m" and base: "region_base (mem_region m) = 0"
    and size: "0x200000 \<le> unat (region_size (mem_region m))" and s: "segment_ok bytes s"
  obtains m1 where "load_segments bytes (s # ss) m = load_segments bytes ss m1"
    and "memory_wf m1" and "mem_region m1 = mem_region m"
    and "\<And>a. guest_byte m1 a = (if unat (seg_physical_address s) \<le> a \<and> a < unat (seg_physical_address s) + seg_file_size s
        then bytes ! (seg_file_offset s + (a - unat (seg_physical_address s)))
      else if unat (seg_physical_address s) \<le> a \<and> a < unat (seg_physical_address s) + seg_memory_size s then 0
      else guest_byte m a)"
proof -
  define pa fo fs ms where "pa = seg_physical_address s" and "fo = seg_file_offset s" and "fs = seg_file_size s"
    and "ms = seg_memory_size s"
  note d = pa_def fo_def fs_def ms_def
  have ok: "0 < ms" "fs \<le> ms" "fo + fs \<le> length bytes" "unat pa + ms \<le> 0x200000"
    using s by (simp_all add: segment_ok_def d)
  define contents where "contents = subslice bytes fo (fo + fs)"
  have len: "length contents = fs" using ok by (simp add: contents_def subslice_def)
  define m0 where "m0 = poke pa contents m"
  have in0: "in_region (mem_region m) pa (length contents)" using ok base size len by (simp add: in_region_def)
  have byte0: "guest_byte m0 a = (if unat pa \<le> a \<and> a < unat pa + fs then bytes ! (fo + (a - unat pa)) else guest_byte m a)" for a
    using wf in0 base ok len by (auto simp: m0_def guest_byte_poke contents_def subslice_def)
  define za where "za = pa + of_nat fs"
  have za: "add_ov pa (of_nat fs) = (Ok za :: (u64, vm_error) outcome)" "unat za = unat pa + fs"
    using add_small [of pa fs] ok by (simp_all add: za_def)
  define m1 where "m1 = (if fs < ms then poke za (replicate (ms - fs) 0) m0 else m0)"
  have in1: "in_region (mem_region m0) za (ms - fs)" using ok base size za(2) by (simp add: in_region_def m0_def)
  have "load_segments bytes (s # ss) m = load_segments bytes ss m1"
    using wf in0 in1 ok za(1) len
    by (simp add: d [symmetric] index_range_def contents_def [symmetric] op_then_mem_write m0_def m1_def)
  moreover have "memory_wf m1" "mem_region m1 = mem_region m" using wf by (simp_all add: m1_def m0_def)
  moreover have "guest_byte m1 a = (if unat pa \<le> a \<and> a < unat pa + fs then bytes ! (fo + (a - unat pa))
      else if unat pa \<le> a \<and> a < unat pa + ms then 0 else guest_byte m a)" for a
  proof -
    have m0: "memory_wf m0" "mem_region m0 = mem_region m" using wf by (simp_all add: m0_def)
    with in1 wf base za(2) ok show ?thesis by (auto simp: m1_def byte0 guest_byte_poke)
  qed
  ultimately show thesis using that by (simp add: d)
qed

lemma load_segments_run:
  assumes "memory_wf m" and "region_base (mem_region m) = 0"
    and "0x200000 \<le> unat (region_size (mem_region m))"
    and "\<forall>s \<in> set ss. segment_ok bytes s" and "sorted_wrt segments_apart ss"
  shows "\<exists>m'. load_segments bytes ss m = (Ok (), m') \<and> memory_wf m' \<and> mem_region m' = mem_region m
    \<and> (\<forall>a. (\<forall>s \<in> set ss. \<not> (unat (seg_physical_address s) \<le> a \<and> a < unat (seg_physical_address s) + seg_memory_size s))
        \<longrightarrow> guest_byte m' a = guest_byte m a)
    \<and> (\<forall>s \<in> set ss. \<forall>i < seg_memory_size s. guest_byte m' (unat (seg_physical_address s) + i) =
        (if i < seg_file_size s then bytes ! (seg_file_offset s + i) else 0))"
  using assms
proof (induction ss arbitrary: m)
  case Nil then show ?case by (auto simp: op_return_def)
next
  case (Cons s ss)
  obtain m1 where step: "load_segments bytes (s # ss) m = load_segments bytes ss m1"
    and m1: "memory_wf m1" "mem_region m1 = mem_region m"
    and byte: "\<And>a. guest_byte m1 a = (if unat (seg_physical_address s) \<le> a \<and> a < unat (seg_physical_address s) + seg_file_size s
        then bytes ! (seg_file_offset s + (a - unat (seg_physical_address s)))
      else if unat (seg_physical_address s) \<le> a \<and> a < unat (seg_physical_address s) + seg_memory_size s then 0
      else guest_byte m a)"
    using load_segment_run [OF Cons.prems(1-3), of bytes s ss] Cons.prems(4) by auto
  from Cons.IH [of m1] m1 Cons.prems obtain m' where m': "load_segments bytes ss m1 = (Ok (), m')" "memory_wf m'"
    "mem_region m' = mem_region m"
    and frame: "\<And>a. \<forall>t \<in> set ss. \<not> (unat (seg_physical_address t) \<le> a \<and> a < unat (seg_physical_address t) + seg_memory_size t)
        \<Longrightarrow> guest_byte m' a = guest_byte m1 a"
    and loaded: "\<forall>t \<in> set ss. \<forall>i < seg_memory_size t. guest_byte m' (unat (seg_physical_address t) + i) =
        (if i < seg_file_size t then bytes ! (seg_file_offset t + i) else 0)"
    by auto
  have "guest_byte m' (unat (seg_physical_address s) + i) = (if i < seg_file_size s then bytes ! (seg_file_offset s + i) else 0)"
    if "i < seg_memory_size s" for i
  proof -
    have "\<forall>t \<in> set ss. \<not> (unat (seg_physical_address t) \<le> unat (seg_physical_address s) + i
        \<and> unat (seg_physical_address s) + i < unat (seg_physical_address t) + seg_memory_size t)"
      using Cons.prems(5) that by (fastforce simp: segments_apart_def)
    from frame [OF this] that show ?thesis by (simp add: byte)
  qed
  moreover have "guest_byte m' a = guest_byte m a"
    if "\<forall>t \<in> set (s # ss). \<not> (unat (seg_physical_address t) \<le> a \<and> a < unat (seg_physical_address t) + seg_memory_size t)" for a
    using that frame [of a] Cons.prems(4) by (auto simp: byte segment_ok_def)
  ultimately show ?case
    using step m' loaded by (intro exI [of _ m']) auto
qed

subsection \<open>Addresses of segments\<close>

lemma alias_pages_mapping_ok:
  assumes "\<forall>s \<in> set ss. segment_ok bytes s" and "p \<in> set (alias_pages ss)"
  shows "mapping_ok p"
proof -
  from assms(2) obtain s k where s: "s \<in> set ss" "seg_uses_alias_window s" and k: "k < seg_page_count s"
    and p: "p = seg_page s k"
    by (auto simp: alias_pages_def)
  have ok: "segment_ok bytes s" using assms(1) s(1) by blast
  define v q m where "v = unat (seg_virtual_address s)" and "q = unat (seg_physical_address s)" and "m = seg_memory_size s"
  have al: "0x400000 \<le> v" "v + m \<le> 0x600000" "v mod 4096 = q mod 4096" "q + m \<le> 0x200000" "q + m \<le> 0x1000 \<or> 0x5000 \<le> q"
    using alias_segment [OF ok s(2)] ok by (auto simp: v_def q_def m_def segment_ok_def)
  have k': "4096 * k < v mod 4096 + m" using k by (simp add: page_count_iff v_def m_def)
  define vk qk where "vk = v div 4096 + k" and "qk = q div 4096 + k"
  have dm: "4096 * (v div 4096) + v mod 4096 = v" "4096 * (q div 4096) + q mod 4096 = q" by simp_all
  have vb: "4096 * vk < 0x600000" "4096 * qk < 0x200000" "q + m \<le> 0x1000 \<Longrightarrow> 4096 * qk < 0x1000"
    unfolding vk_def qk_def add_mult_distrib2 using al k' dm by linarith+
  have "1024 \<le> vk" using div_le_mono [OF al(1), of 4096] by (simp add: vk_def)
  moreover have "0x5000 \<le> q \<Longrightarrow> 5 \<le> qk" using div_le_mono [of "0x5000" q 4096] by (simp add: qk_def)
  moreover have "vk < 1536" "qk < 512" "q + m \<le> 0x1000 \<Longrightarrow> qk < 1" using vb by simp_all
  moreover have "unat (virtual_page p) = 4096 * vk" "unat (physical_page p) = 4096 * qk"
    using seg_page_nat(3,4) [OF ok s(2) k] by (simp_all add: p vk_def qk_def v_def q_def)
  ultimately show ?thesis
    using al(5) unfolding mapping_ok_def by auto
qed

lemma segment_translation:
  assumes "\<forall>s \<in> set ss. segment_ok bytes s" and "merge_mappings (alias_pages ss) [] = Ok ps"
    and "s \<in> set ss" and "i < seg_memory_size s"
  shows "boot_translation ps (seg_virtual_address s + of_nat i) = Some \<lparr>access_address = seg_physical_address s + of_nat i,
    access_writable = True, access_user = False\<rparr>"
proof -
  define va pa where "va = seg_virtual_address s" and "pa = seg_physical_address s"
  have ok: "segment_ok bytes s" using assms(1,3) by blast
  have e: "unat (va + of_nat i) = unat va + i" "unat (pa + of_nat i) = unat pa + i"
    using add_small(2) [OF segment_ends(1) [OF ok]] add_small(2) [OF segment_ends(2) [OF ok]] assms(4)
    by (simp_all add: va_def pa_def)
  show ?thesis
  proof (cases "seg_uses_alias_window s")
    case False
    then have "va = pa" "unat va + i < 0x200000"
      using ok assms(4) by (auto simp: segment_ok_def seg_uses_alias_window_def word_le_nat_alt va_def pa_def)
    then show ?thesis
      using e by (simp add: boot_translation_def word_less_nat_alt va_def [symmetric] pa_def [symmetric])
  next
    case True
    note al = alias_segment [OF ok True]
    define o' k where "o' = unat va mod 4096" and "k = (o' + i) div 4096"
    have k: "k < seg_page_count s"
      using assms(4) by (simp add: page_count_iff k_def o'_def va_def)
    have vi: "unat va + i = o' + i + 4096 * (unat va div 4096)" by (simp add: o'_def)
    have "(unat va + i) div 4096 = unat va div 4096 + k" "(unat va + i) mod 4096 = (o' + i) mod 4096"
      unfolding vi k_def by simp_all
    note va_split = this
    have page: "virtual_page (seg_page s k) = align_down_page (va + of_nat i)"
      using seg_page_nat(3) [OF ok True k] e(1) va_split
      by (simp add: word_unat_eq_iff align_down_page_div va_def [symmetric])
    have member: "seg_page s k \<in> set ps" and dist: "distinct (map virtual_page ps)"
      using merge_Ok [OF assms(2)] assms(3) True k by (auto simp: alias_pages_def)
    have found: "find (\<lambda>p. virtual_page p = align_down_page (va + of_nat i)) ps = Some (seg_page s k)"
    proof -
      have "\<exists>p. find (\<lambda>p. virtual_page p = align_down_page (va + of_nat i)) ps = Some p"
        using member page by (auto simp: find_None_iff not_None_eq [symmetric] simp del: not_None_eq)
      then obtain p where p: "find (\<lambda>p. virtual_page p = align_down_page (va + of_nat i)) ps = Some p" by blast
      then have "p \<in> set ps" "virtual_page p = virtual_page (seg_page s k)"
        using page by (auto simp: find_Some_iff)
      with distinct_one_frame [OF dist] member have "p = seg_page s k" unfolding one_frame_per_page_def by blast
      with p show ?thesis by simp
    qed
    have "unat ((va + of_nat i) AND (LONG_MODE_PAGE_SIZE - 1)) = (o' + i) mod 4096"
      by (simp only: page_offset_mask unat_page_offset e(1)) (simp add: va_split)
    note off = this
    have pf: "unat (physical_page (seg_page s k)) = 4096 * (unat pa div 4096 + k)"
      using seg_page_nat(4) [OF ok True k] by (simp add: pa_def)
    have "4096 * (unat pa div 4096 + k) + (o' + i) mod 4096 = unat pa + i"
    proof -
      have "4096 * k + (o' + i) mod 4096 = o' + i" by (simp add: k_def)
      moreover have "4096 * (unat pa div 4096) + o' = unat pa" using al(3) by (simp add: o'_def va_def pa_def)
      ultimately show ?thesis by (simp add: add_mult_distrib2)
    qed
    then have "unat (physical_page (seg_page s k) + ((va + of_nat i) AND (LONG_MODE_PAGE_SIZE - 1))) = unat pa + i"
      using off pf e(2) unat_lt [of "pa + of_nat i"] by (subst unat_add_small) simp_all
    then have "physical_page (seg_page s k) + ((va + of_nat i) AND (LONG_MODE_PAGE_SIZE - 1)) = pa + of_nat i"
      using e(2) by (simp add: word_unat_eq_iff)
    moreover have "\<not> va + of_nat i < LONG_MODE_IDENTITY_MAP_SIZE"
      using al(1) e(1) by (simp add: word_less_nat_alt va_def [symmetric])
    ultimately show ?thesis
      using found by (simp add: boot_translation_def va_def [symmetric] pa_def [symmetric])
  qed
qed

lemma parsed_image_wf:
  assumes "elf_parse bytes = Ok img"
  shows "elf_bytes img = bytes" and "elf_image_wf img"
proof -
  have ok: "\<forall>s \<in> set (elf_segments img). segment_ok bytes s"
    and merge: "merge_mappings (alias_pages (elf_segments img)) [] = Ok (elf_page_mappings img)"
    using assms by (auto simp: elf_parse_iff elf_ok_def)
  show "elf_bytes img = bytes" using assms by (simp add: elf_parse_iff)
  then show "elf_image_wf img"
    using assms ok merge_Ok [OF merge] alias_pages_mapping_ok [OF ok]
    by (auto simp: elf_image_wf_def list_all_iff elf_parse_iff elf_ok_def segments_of_def segments_at_def)
qed

text \<open>An accepted image is always a valid request for a boot layout.\<close>

lemma image_layout:
  assumes "elf_parse bytes = Ok img"
  shows "layout_with_page_mappings r (elf_entry img) sp (elf_page_mappings img) =
    map_ok (\<lambda>_. \<lparr>layout_memory = r, layout_entry = elf_entry img, layout_stack_pointer = sp,
      layout_page_mappings = elf_page_mappings img\<rparr>) (validate_memory_and_stack r sp)"
proof -
  let ?ps = "elf_page_mappings img" and ?e = "elf_entry img"
  have ok: "\<forall>s \<in> set (elf_segments img). segment_ok bytes s" "entry_ok ?e (elf_segments img)"
    and merge: "merge_mappings (alias_pages (elf_segments img)) [] = Ok ?ps"
    using assms by (auto simp: elf_parse_iff elf_ok_def)
  have "list_all mapping_ok ?ps" "distinct (map virtual_page ?ps)"
    using parsed_image_wf(2) [OF assms] by (simp_all add: elf_image_wf_def)
  then have valid: "validate_page_mappings ?ps = Ok ()"
    by (simp add: validate_page_mappings_def validate_mappings_from_Ok)
  from ok(2) obtain s where s: "s \<in> set (elf_segments img)" "unat (seg_virtual_address s) \<le> unat ?e"
    "unat ?e < unat (seg_virtual_address s) + seg_file_size s"
    by (auto simp: entry_ok_def)
  have seg: "segment_ok bytes s" using ok(1) s(1) by blast
  define i where "i = unat ?e - unat (seg_virtual_address s)"
  have i: "i < seg_memory_size s" using s seg by (auto simp: i_def segment_ok_def)
  have e: "?e = seg_virtual_address s + of_nat i"
    using add_small(2) [OF segment_ends(1) [OF seg less_imp_le [OF i]]] s(2) by (simp add: word_unat_eq_iff i_def)
  have "boot_translation ?ps ?e \<noteq> None" using segment_translation [OF ok(1) merge s(1) i] by (simp add: e)
  moreover have "\<not> is_page_table_address ?e" if "?e < LONG_MODE_IDENTITY_MAP_SIZE"
    using that s seg by (auto simp: is_page_table_address_def segment_ok_def word_le_nat_alt word_less_nat_alt)
  moreover have "\<exists>p \<in> set ?ps. virtual_page p = align_down_page ?e" "LONG_MODE_ALIAS_VIRTUAL_BASE \<le> ?e"
    "?e < LONG_MODE_ALIAS_VIRTUAL_END"
    if outside: "\<not> ?e < LONG_MODE_IDENTITY_MAP_SIZE"
  proof -
    obtain p where p: "find (\<lambda>p. virtual_page p = align_down_page ?e) ?ps = Some p"
      using calculation(1) unfolding boot_translation_def if_not_P [OF outside] by (auto split: option.splits)
    then show "\<exists>p \<in> set ?ps. virtual_page p = align_down_page ?e" by (auto simp: find_Some_iff)
    show "LONG_MODE_ALIAS_VIRTUAL_BASE \<le> ?e" "?e < LONG_MODE_ALIAS_VIRTUAL_END"
      using find_alias_window [OF \<open>list_all mapping_ok ?ps\<close> p] by (simp_all add: word_le_nat_alt word_less_nat_alt)
  qed
  ultimately show ?thesis
    using valid by (cases "validate_memory_and_stack r sp") (auto simp: layout_with_page_mappings_def)
qed

lemma loaded_image:
  assumes "elf_parse bytes = Ok img" and "memory_wf m"
    and "layout_with_page_mappings (mem_region m) (elf_entry img) sp (elf_page_mappings img) = Ok l"
  shows "\<exists>m'. op_then (install_page_tables l) (\<lambda>_. elf_load img) m = (Ok (), m')
    \<and> (\<forall>s \<in> set (elf_segments img). \<forall>i < seg_memory_size s.
        translate m' 0x1000 (seg_virtual_address s + of_nat i) = Some \<lparr>access_address = seg_physical_address s + of_nat i,
          access_writable = True, access_user = False\<rparr>
        \<and> guest_byte m' (unat (seg_physical_address s) + i) = (if i < seg_file_size s then bytes ! (seg_file_offset s + i) else 0))
    \<and> (\<forall>a. a < 0x1000 \<or> 0x5000 \<le> a \<longrightarrow> (\<forall>s \<in> set (elf_segments img).
        a < unat (seg_physical_address s) \<or> unat (seg_physical_address s) + seg_memory_size s \<le> a)
        \<longrightarrow> guest_byte m' a = guest_byte m a)"
proof -
  let ?ps = "elf_page_mappings img"
  let ?b = "boot_tables ?ps m"
  have l: "l = \<lparr>layout_memory = mem_region m, layout_entry = elf_entry img, layout_stack_pointer = sp,
      layout_page_mappings = ?ps\<rparr>"
    using assms(3) unfolding image_layout [OF assms(1)] by (auto simp: outcome_simps)
  have "layout_ok l" using layout_with_page_mappings_ok [OF assms(3)] by blast
  then have ok: "region_base (mem_region m) = 0" "0x200000 \<le> unat (region_size (mem_region m))"
    "list_all mapping_ok ?ps" "distinct (map virtual_page ?ps)"
    by (simp_all add: layout_ok_def l)
  have install: "install_page_tables l m = (Ok (), ?b)"
    using install_page_tables_run [OF assms(2) \<open>layout_ok l\<close>] by (simp add: l)
  have b: "memory_wf ?b" "mem_region ?b = mem_region m" using assms(2) by (simp_all add: boot_tables_def zeroed_tables_def)
  have segs: "\<forall>s \<in> set (elf_segments img). segment_ok bytes s" "sorted_wrt segments_apart (elf_segments img)"
    "elf_bytes img = bytes"
    using assms(1) by (auto simp: elf_parse_iff elf_ok_def)
  from load_segments_run [OF b(1) _ _ segs(1,2)] b(2) ok obtain m' where
    load: "load_segments bytes (elf_segments img) ?b = (Ok (), m')" "memory_wf m'" "mem_region m' = mem_region m"
    and frame: "\<And>a. \<forall>s \<in> set (elf_segments img).
      \<not> (unat (seg_physical_address s) \<le> a \<and> a < unat (seg_physical_address s) + seg_memory_size s)
      \<Longrightarrow> guest_byte m' a = guest_byte ?b a"
    and loaded: "\<And>s i. s \<in> set (elf_segments img) \<Longrightarrow> i < seg_memory_size s \<Longrightarrow>
      guest_byte m' (unat (seg_physical_address s) + i) = (if i < seg_file_size s then bytes ! (seg_file_offset s + i) else 0)"
    by auto
  have "guest_byte m' a = guest_byte ?b a" if "0x1000 \<le> a" "a < 0x5000" for a
    using that segs(1) by (intro frame) (auto simp: segment_ok_def)
  then have "holds_boot_tables ?ps m'"
    by (rule holds_boot_tables_frame [OF boot_tables_hold [OF assms(2) ok]])
  then have walk: "translate m' 0x1000 va = boot_translation ?ps va" for va
    using load ok by (intro boot_tables_walk) simp_all
  have merge: "merge_mappings (alias_pages (elf_segments img)) [] = Ok ?ps" using assms(1) by (simp add: elf_parse_iff)
  have "guest_byte m' a = guest_byte m a" if "a < 0x1000 \<or> 0x5000 \<le> a" "\<forall>s \<in> set (elf_segments img).
      a < unat (seg_physical_address s) \<or> unat (seg_physical_address s) + seg_memory_size s \<le> a" for a
    using frame [of a] that(2) boot_tables_frame [OF assms(2) ok(1-3) that(1)]
    by (simp add: not_le disj_commute linorder_not_less [symmetric])
  then show ?thesis
    using install load(1) segs(3) walk loaded
    by (intro exI [of _ m']) (simp add: op_then_def elf_load_def segment_translation [OF segs(1) merge])
qed

subsection \<open>The built-in image\<close>

lemma subslice_append:
  "a \<le> b \<Longrightarrow> b \<le> c \<Longrightarrow> subslice xs a b @ subslice xs b c = subslice xs a c"
  using take_add [of "b - a" "c - b" "drop a xs"] by (simp add: subslice_def)

lemma subslice_splice_other:
  assumes "p + length bs \<le> length bytes" and "b \<le> length bytes" and "b \<le> p \<or> p + length bs \<le> a"
  shows "subslice (splice bytes p bs) a b = subslice bytes a b"
  using assms by (intro nth_equalityI) (auto simp: subslice_def nth_splice)

text \<open>Writes at increasing offsets are all still there at the end.\<close>

lemma fixture_writes_run:
  assumes "sorted_wrt (\<lambda>(p, bs) (q, cs). p + length bs \<le> q) ws"
    and "\<forall>(p, bs) \<in> set ws. p + length bs \<le> length bytes"
  shows "\<exists>out. fixture_writes ws bytes = (Ok () :: (unit, elf64_error) outcome, out) \<and> length out = length bytes
    \<and> (\<forall>(p, bs) \<in> set ws. subslice out p (p + length bs) = bs)
    \<and> (\<forall>a b. b \<le> length bytes \<longrightarrow> (\<forall>(p, bs) \<in> set ws. b \<le> p \<or> p + length bs \<le> a)
        \<longrightarrow> subslice out a b = subslice bytes a b)"
  using assms
proof (induction ws arbitrary: bytes)
  case (Cons w ws)
  obtain p bs where w: "w = (p, bs)" by (cases w)
  have fit: "p + length bs \<le> length bytes" using Cons.prems(2) by (simp add: w)
  then have len: "length (splice bytes p bs) = length bytes" by simp
  have "sorted_wrt (\<lambda>(p, bs) (q, cs). p + length bs \<le> q) ws"
    "\<forall>(q, cs) \<in> set ws. q + length cs \<le> length (splice bytes p bs)"
    using Cons.prems by (simp_all add: len)
  from Cons.IH [OF this, unfolded len] obtain out where
    out: "fixture_writes ws (splice bytes p bs) = (Ok () :: (unit, elf64_error) outcome, out)" "length out = length bytes"
    and kept: "\<forall>(q, cs) \<in> set ws. subslice out q (q + length cs) = cs"
    and frame: "\<And>a b. b \<le> length bytes \<Longrightarrow> \<forall>(q, cs) \<in> set ws. b \<le> q \<or> q + length cs \<le> a
      \<Longrightarrow> subslice out a b = subslice (splice bytes p bs) a b"
    by blast
  have "subslice out p (p + length bs) = bs"
    using frame [of "p + length bs" p] fit Cons.prems(1) slice_splice_same [OF fit] by (auto simp: w)
  moreover have "subslice out a b = subslice bytes a b"
    if "b \<le> length bytes" "\<forall>(q, cs) \<in> set (w # ws). b \<le> q \<or> q + length cs \<le> a" for a b
    using that frame [of b a] subslice_splice_other [OF fit that(1), of a] by (auto simp: w)
  ultimately show ?case
    using out kept fit by (intro exI [of _ out]) (auto simp: w op_then_def fixture_write_def)
qed (simp add: op_return_def)

lemma length_PROOF_CODE: "length PROOF_CODE = 36"
  by (simp add: PROOF_CODE_def)

lemma proof_fixture_fields:
  obtains bytes where "proof_fixture = Ok bytes" and "length bytes = 292"
    and "take 7 bytes = [0x7f, 0x45, 0x4c, 0x46, 2, 1, 1]"
    and "elf_field 16 2 bytes = (2 :: u16)" "elf_field 18 2 bytes = (62 :: u16)" "elf_field 20 4 bytes = (1 :: u32)"
      "elf_field 24 8 bytes = (0x400100 :: u64)" "elf_field 32 8 bytes = (64 :: u64)" "elf_field 52 2 bytes = (64 :: u16)"
      "elf_field 54 2 bytes = (56 :: u16)" "elf_field 56 2 bytes = (1 :: u16)"
    and "elf_field 64 4 bytes = (1 :: u32)" "elf_field 68 4 bytes = (5 :: u32)" "elf_field 72 8 bytes = (0 :: u64)"
      "elf_field 80 8 bytes = (0x400000 :: u64)" "elf_field 88 8 bytes = (0x10000 :: u64)"
      "elf_field 96 8 bytes = (292 :: u64)" "elf_field 104 8 bytes = (0x180 :: u64)" "elf_field 112 8 bytes = (0x1000 :: u64)"
    and "subslice bytes 0x100 292 = PROOF_CODE"
proof -
  let ?ws = "[(0, [0x7f, 0x45, 0x4c, 0x46]), (4, [ELFCLASS64]), (5, [ELFDATA2LSB]), (6, [EV_CURRENT]),
     (16, to_le_bytes ET_EXEC), (18, to_le_bytes EM_X86_64), (20, to_le_bytes (1 :: u32)),
     (24, to_le_bytes (0x400100 :: u64)), (32, to_le_bytes (64 :: u64)), (52, to_le_bytes (64 :: u16)),
     (54, to_le_bytes (56 :: u16)), (56, to_le_bytes (1 :: u16)),
     (64, to_le_bytes PT_LOAD), (68, to_le_bytes (5 :: u32)), (72, to_le_bytes (0 :: u64)),
     (80, to_le_bytes LONG_MODE_ALIAS_VIRTUAL_BASE), (88, to_le_bytes (0x10000 :: u64)),
     (96, to_le_bytes (292 :: u64)), (104, to_le_bytes (0x180 :: u64)),
     (112, to_le_bytes LONG_MODE_PAGE_SIZE), (0x100, PROOF_CODE)] :: (nat \<times> u8 list) list"
  have "sorted_wrt (\<lambda>(p, bs) (q, cs). p + length bs \<le> q) ?ws"
    "\<forall>(p, bs) \<in> set ?ws. p + length bs \<le> length (replicate 292 0 :: u8 list)"
    by (simp_all add: length_PROOF_CODE)
  from fixture_writes_run [OF this, unfolded length_replicate] obtain bytes where
    run: "fixture_writes ?ws (replicate 292 0) = (Ok () :: (unit, elf64_error) outcome, bytes)"
    and len: "length bytes = 292" and kept: "\<forall>(p, bs) \<in> set ?ws. subslice bytes p (p + length bs) = bs"
    by (elim exE conjE) (rule that)
  have "proof_fixture = Ok bytes"
    using run unfolding proof_fixture_def fixture_with_addresses_def
    by (simp add: length_PROOF_CODE add_ov_def checked_add_def del: fixture_writes.simps)
  moreover have "take 7 bytes = subslice bytes 0 4 @ subslice bytes 4 5 @ subslice bytes 5 6 @ subslice bytes 6 7"
    by (simp add: subslice_append) (simp add: subslice_def)
  moreover have "subslice bytes 0 4 = [0x7f, 0x45, 0x4c, 0x46]"
    using bspec [OF kept, of "(0, [0x7f, 0x45, 0x4c, 0x46])"] by (simp add: eval_nat_numeral)
  ultimately show thesis
    using len kept by (intro that [of bytes]) (simp_all add: elf_field_def length_PROOF_CODE)
qed

lemma proof_segment_pages:
  "alias_pages [proof_segment] = [\<lparr>virtual_page = 0x400000, physical_page = 0x10000\<rparr>]"
  by (simp add: alias_pages_def proof_segment_def seg_uses_alias_window_def seg_page_count_def seg_page_def
      align_down_page_def)

lemma proof_fixture_ok:
  obtains bytes where "proof_fixture = Ok bytes" and "elf_ok bytes" and "segments_of bytes = [proof_segment]"
    and "elf_field 24 8 bytes = (0x400100 :: u64)" and "subslice bytes 0x100 292 = PROOF_CODE"
proof -
  obtain bytes where bytes: "proof_fixture = Ok bytes" and len: "length bytes = 292"
    and magic: "take 7 bytes = [0x7f, 0x45, 0x4c, 0x46, 2, 1, 1]"
    and header: "elf_field 16 2 bytes = (2 :: u16)" "elf_field 18 2 bytes = (62 :: u16)" "elf_field 20 4 bytes = (1 :: u32)"
      "elf_field 24 8 bytes = (0x400100 :: u64)" "elf_field 32 8 bytes = (64 :: u64)" "elf_field 52 2 bytes = (64 :: u16)"
      "elf_field 54 2 bytes = (56 :: u16)" "elf_field 56 2 bytes = (1 :: u16)"
    and ph: "elf_field 64 4 bytes = (1 :: u32)" "elf_field 68 4 bytes = (5 :: u32)" "elf_field 72 8 bytes = (0 :: u64)"
      "elf_field 80 8 bytes = (0x400000 :: u64)" "elf_field 88 8 bytes = (0x10000 :: u64)"
      "elf_field 96 8 bytes = (292 :: u64)" "elf_field 104 8 bytes = (0x180 :: u64)" "elf_field 112 8 bytes = (0x1000 :: u64)"
    and code: "subslice bytes 0x100 292 = PROOF_CODE"
    by (rule proof_fixture_fields)
  have loads: "load_headers bytes = [0]"
    by (simp add: load_headers_def load_indices_def header_count_def header_table_def header ph)
  have segs: "segments_of bytes = [proof_segment]"
    by (simp add: segments_of_def segments_at_def loads segment_at_def header_table_def header ph proof_segment_def)
  have "header_ok bytes" by (simp add: header_ok_def len magic header)
  moreover have "segment_ok bytes proof_segment" by (simp add: segment_ok_def proof_segment_def len)
  moreover have "alignment_ok bytes 64"
    by (simp add: alignment_ok_def ph is_power_of_two_def upt_rec [of _ 64])
  moreover have "entry_ok 0x400100 [proof_segment]"
    by (simp add: entry_ok_def proof_segment_def seg_executable_def)
  moreover have "one_frame_per_page (set (alias_pages [proof_segment]))"
    by (simp add: proof_segment_pages one_frame_per_page_def)
  ultimately have "elf_ok bytes"
    using segs loads by (simp add: elf_ok_def header_count_def header_table_def header len)
  with that bytes segs header code show thesis by blast
qed

lemma proof_fixture_parses:
  obtains bytes img where "proof_fixture = Ok bytes" and "elf_parse bytes = Ok img" and "elf_entry img = 0x400100"
    and "elf_segments img = [proof_segment]" and "subslice bytes 0x100 292 = PROOF_CODE"
proof -
  obtain bytes where bytes: "proof_fixture = Ok bytes" "elf_ok bytes" "segments_of bytes = [proof_segment]"
    "elf_field 24 8 bytes = (0x400100 :: u64)" "subslice bytes 0x100 292 = PROOF_CODE"
    by (rule proof_fixture_ok)
  then obtain ps where "merge_mappings (alias_pages [proof_segment]) [] = Ok ps"
    using merge_iff [of "alias_pages [proof_segment]"] by (auto simp: elf_ok_def)
  with bytes have "elf_parse bytes = Ok \<lparr>elf_bytes = bytes, elf_entry = 0x400100, elf_segments = [proof_segment],
      elf_page_mappings = ps\<rparr>"
    by (simp add: elf_parse_iff)
  with that bytes show thesis by simp
qed

lemma boot_stack_accepted:
  "validate_memory_and_stack \<lparr>region_base = 0, region_size = 0x200000\<rparr> 0x1ff000 = Ok ()"
  by (simp add: validate_memory_and_stack_def checked_add_def ranges_overlap_def)

section \<open>Properties\<close>

text \<open>
  C36. Parsing an ELF64 file is total and exact: no file, however malformed, makes the parser panic; it
  accepts exactly the files whose headers are consistent, whose segments fit the file, the RAM and the
  address windows and keep apart, whose entry lies in executable file contents and whose alias pages
  need one frame each; and the image it returns is the one the headers describe.
\<close>

theorem elf_parse_exact:
  "\<not> is_fault (elf_parse bytes) \<and> ((\<exists>img. elf_parse bytes = Ok img) \<longleftrightarrow> elf_ok bytes)
   \<and> (\<forall>img. elf_parse bytes = Ok img \<longrightarrow> elf_bytes img = bytes \<and> elf_entry img = elf_field 24 8 bytes
      \<and> elf_segments img = segments_of bytes
      \<and> set (elf_page_mappings img) = set (alias_pages (segments_of bytes)))"
proof -
  have "\<exists>img. elf_parse bytes = Ok img" if ok: "elf_ok bytes"
  proof -
    obtain ps where "merge_mappings (alias_pages (segments_of bytes)) [] = Ok ps"
      using ok merge_iff [of "alias_pages (segments_of bytes)"] by (auto simp: elf_ok_def)
    with ok have "elf_parse bytes = Ok \<lparr>elf_bytes = bytes, elf_entry = elf_field 24 8 bytes,
        elf_segments = segments_of bytes, elf_page_mappings = ps\<rparr>"
      by (simp add: elf_parse_iff)
    then show ?thesis by blast
  qed
  then show ?thesis
    using merge_Ok [of "alias_pages (segments_of bytes)" "[]"] by (auto simp: elf_parse_safe elf_parse_iff)
qed

theorem elf_parse_exact_witness:
  "\<exists>bytes img. proof_fixture = Ok bytes \<and> elf_parse bytes = Ok img \<and> elf_entry img = 0x400100
   \<and> map seg_virtual_address (elf_segments img) = [0x400000] \<and> map seg_physical_address (elf_segments img) = [0x10000]
   \<and> set (elf_page_mappings img) = {\<lparr>virtual_page = 0x400000, physical_page = 0x10000\<rparr>}"
proof -
  obtain bytes where bytes: "proof_fixture = Ok bytes" and ok: "elf_ok bytes" and segs: "segments_of bytes = [proof_segment]"
    and entry: "elf_field 24 8 bytes = (0x400100 :: u64)"
    by (rule proof_fixture_ok)
  with elf_parse_exact [of bytes] obtain img where "elf_parse bytes = Ok img" "elf_entry img = 0x400100"
    "elf_segments img = [proof_segment]" "set (elf_page_mappings img) = set (alias_pages [proof_segment])"
    by auto
  with bytes show ?thesis
    by (auto simp: proof_segment_def proof_segment_pages [unfolded proof_segment_def])
qed

text \<open>
  C37. Every image that parsing returns is well formed: its segments fit and keep apart, its entry is
  executable file contents, its page mappings are valid, name each page once and are exactly the pages
  of its alias segments.  So building the boot layout for it can only fail for the memory region or the
  stack pointer, never for the image.
\<close>

theorem elf_image_well_formed:
  assumes "elf_parse bytes = Ok img"
  shows "elf_image_wf img \<and> layout_with_page_mappings r (elf_entry img) sp (elf_page_mappings img) =
    map_ok (\<lambda>_. \<lparr>layout_memory = r, layout_entry = elf_entry img, layout_stack_pointer = sp,
      layout_page_mappings = elf_page_mappings img\<rparr>) (validate_memory_and_stack r sp)"
  using parsed_image_wf(2) [OF assms] image_layout [OF assms] by blast

theorem elf_image_well_formed_witness:
  "\<exists>bytes img. proof_fixture = Ok bytes \<and> elf_parse bytes = Ok img \<and> elf_image_wf img
   \<and> layout_with_page_mappings \<lparr>region_base = 0, region_size = 0x200000\<rparr> 0x400100 0x1ff000 (elf_page_mappings img) =
     Ok \<lparr>layout_memory = \<lparr>region_base = 0, region_size = 0x200000\<rparr>, layout_entry = 0x400100,
       layout_stack_pointer = 0x1ff000, layout_page_mappings = elf_page_mappings img\<rparr>"
proof -
  obtain bytes img where parse: "proof_fixture = Ok bytes" "elf_parse bytes = Ok img" "elf_entry img = 0x400100"
    by (rule proof_fixture_parses)
  then show ?thesis
    using elf_image_well_formed [OF parse(2), of "\<lparr>region_base = 0, region_size = 0x200000\<rparr>" "0x1ff000"]
    by (auto simp: boot_stack_accepted)
qed

text \<open>
  C38. Loading an accepted image into any RAM its layout accepts succeeds, and the guest then sees the
  program the file describes: the page walk from the boot root maps every byte of every segment to its
  physical place, writable and supervisor-only, where RAM holds the byte of the file or, past the file
  contents, zero.  No other byte outside the four table pages has changed.
\<close>

theorem elf_load_presents_image:
  assumes "elf_parse bytes = Ok img" and "memory_wf m"
    and "layout_with_page_mappings (mem_region m) (elf_entry img) sp (elf_page_mappings img) = Ok l"
    and "op_then (install_page_tables l) (\<lambda>_. elf_load img) m = (res, m')"
  shows "res = Ok ()
    \<and> (\<forall>s \<in> set (elf_segments img). \<forall>i < seg_memory_size s.
        translate m' 0x1000 (seg_virtual_address s + of_nat i) = Some \<lparr>access_address = seg_physical_address s + of_nat i,
          access_writable = True, access_user = False\<rparr>
        \<and> guest_byte m' (unat (seg_physical_address s) + i) = (if i < seg_file_size s then bytes ! (seg_file_offset s + i) else 0))
    \<and> (\<forall>a. a < 0x1000 \<or> 0x5000 \<le> a \<longrightarrow> (\<forall>s \<in> set (elf_segments img).
        a < unat (seg_physical_address s) \<or> unat (seg_physical_address s) + seg_memory_size s \<le> a)
        \<longrightarrow> guest_byte m' a = guest_byte m a)"
  using loaded_image [OF assms(1-3)] unfolding assms(4) by blast

theorem elf_load_presents_image_witness:
  "\<exists>bytes img l m'. proof_fixture = Ok bytes \<and> elf_parse bytes = Ok img
   \<and> layout_with_page_mappings (mem_region example_boot_ram) 0x400100 0x1ff000 (elf_page_mappings img) = Ok l
   \<and> op_then (install_page_tables l) (\<lambda>_. elf_load img) example_boot_ram = (Ok (), m')
   \<and> translate m' 0x1000 0x40017f = Some \<lparr>access_address = 0x1017f, access_writable = True, access_user = False\<rparr>
   \<and> guest_byte m' 0x1017f = 0 \<and> guest_byte m' 0x10100 = bytes ! 0x100 \<and> guest_byte m' 0x10180 = guest_byte example_boot_ram 0x10180"
proof -
  obtain bytes img where parse: "proof_fixture = Ok bytes" "elf_parse bytes = Ok img" "elf_entry img = 0x400100"
    "elf_segments img = [proof_segment]"
    by (rule proof_fixture_parses)
  obtain l where l: "layout_with_page_mappings (mem_region example_boot_ram) (elf_entry img) 0x1ff000 (elf_page_mappings img) = Ok l"
    by (simp add: image_layout [OF parse(2)] boot_stack_accepted example_boot_ram_def)
  obtain res m' where run: "op_then (install_page_tables l) (\<lambda>_. elf_load img) example_boot_ram = (res, m')" by fastforce
  have wf: "memory_wf example_boot_ram"
    by (simp add: example_boot_ram_def memory_wf_def region_wf_def KVM_MEMORY_ALIGNMENT_def)
  note p = elf_load_presents_image [OF parse(2) wf l run, unfolded parse(4)]
  have "translate m' 0x1000 0x40017f = Some \<lparr>access_address = 0x1017f, access_writable = True, access_user = False\<rparr>
      \<and> guest_byte m' 0x1017f = 0"
    using p [THEN conjunct2, THEN conjunct1, THEN bspec, THEN spec, of proof_segment "0x17f"] by (simp add: proof_segment_def)
  moreover have "guest_byte m' 0x10100 = bytes ! 0x100"
    using p [THEN conjunct2, THEN conjunct1, THEN bspec, THEN spec, of proof_segment "0x100"] by (simp add: proof_segment_def)
  moreover have "guest_byte m' 0x10180 = guest_byte example_boot_ram 0x10180"
    using p [THEN conjunct2, THEN conjunct2, THEN spec, of "0x10180"] by (simp add: proof_segment_def)
  ultimately show ?thesis
    using p parse l run by (intro exI [of _ bytes] exI [of _ img] exI [of _ l] exI [of _ m']) simp
qed

text \<open>
  The assertions \<open>run_elf64_guest\<close> makes about its built-in file hold: whenever the host provides
  two megabytes, the file is generated, parsed, laid out and loaded without a panic or an error, and
  the page walk from the entry address reads the proof program, instruction byte by byte.
\<close>

lemma built_in_guest_prepared:
  assumes "mmap 0x200000 = Ok mapping" and "ram_len mapping = 0x200000"
  shows "\<exists>l m. prepare_elf64_guest mmap = Ok (l, m) \<and> layout_entry l = 0x400100
    \<and> (\<forall>i < length PROOF_CODE. \<exists>x. translate m 0x1000 (layout_entry l + of_nat i) = Some x
        \<and> guest_byte m (unat (access_address x)) = PROOF_CODE ! i)"
proof -
  obtain bytes img where parse: "proof_fixture = Ok bytes" "elf_parse bytes = Ok img" "elf_entry img = 0x400100"
    "elf_segments img = [proof_segment]" and code: "subslice bytes 0x100 292 = PROOF_CODE"
    by (rule proof_fixture_parses)
  let ?m = "\<lparr>mem_region = \<lparr>region_base = 0, region_size = 0x200000\<rparr>, mem_mapping = mapping\<rparr>"
  have new: "memory_new mmap 0 0x200000 = Ok ?m" and wf: "memory_wf ?m"
    using assms by (simp_all add: memory_new_def region_new_def memory_wf_def region_wf_def KVM_MEMORY_ALIGNMENT_def
        usize_try_from_u64_def checked_add_def)
  obtain l where l: "layout_with_page_mappings (mem_region ?m) (elf_entry img) 0x1ff000 (elf_page_mappings img) = Ok l"
    and entry: "layout_entry l = 0x400100"
    by (simp add: image_layout [OF parse(2), unfolded parse(3)] parse(3) boot_stack_accepted)
  let ?place = "\<lambda>m' s. \<forall>i < seg_memory_size s.
      translate m' 0x1000 (seg_virtual_address s + of_nat i) = Some \<lparr>access_address = seg_physical_address s + of_nat i,
        access_writable = True, access_user = False\<rparr>
      \<and> guest_byte m' (unat (seg_physical_address s) + i) = (if i < seg_file_size s then bytes ! (seg_file_offset s + i) else 0)"
  from loaded_image [OF parse(2) wf l, unfolded parse(4)] obtain m' where
    run: "op_then (install_page_tables l) (\<lambda>_. elf_load img) ?m = (Ok (), m')" and place: "?place m' proof_segment"
    by fastforce
  have seg: "translate m' 0x1000 (0x400000 + of_nat i) = Some \<lparr>access_address = 0x10000 + of_nat i,
        access_writable = True, access_user = False\<rparr>" "guest_byte m' (0x10000 + i) = (if i < 292 then bytes ! i else 0)"
    if "i < 0x180" for i
    using place [THEN spec, of i] that by (simp_all add: proof_segment_def)
  have "\<exists>x. translate m' 0x1000 (0x400100 + of_nat i) = Some x \<and> guest_byte m' (unat (access_address x)) = PROOF_CODE ! i"
    if "i < length PROOF_CODE" for i
  proof -
    have i: "i < 36" using that by (simp add: length_PROOF_CODE)
    have "PROOF_CODE ! i = bytes ! (0x100 + i)"
      using i that unfolding code [symmetric] by (simp add: subslice_def)
    moreover have "unat (0x10000 + of_nat (0x100 + i) :: u64) = 0x10000 + (0x100 + i)"
      using i add_small(2) [of "0x10000" "0x100 + i"] by simp
    ultimately show ?thesis using seg [of "0x100 + i"] i by (simp add: add.assoc)
  qed
  moreover have "prepare_elf64_guest mmap = Ok (l, m')"
    using l run by (simp add: prepare_elf64_guest_def parse new)
  ultimately show ?thesis using entry by auto
qed

lemma built_in_guest_prepared_witness:
  "\<exists>l m. prepare_elf64_guest zeroed_mapping = Ok (l, m) \<and> layout_entry l = 0x400100"
  using built_in_guest_prepared [of zeroed_mapping] by (auto simp: zeroed_mapping_def)

end
