(* ===== verification/Msr.thy ===== *)
theory Msr
  imports Vcpu_Regs
begin

text \<open>
  Model-specific registers: index lists of the host and the comparison of host models
  (\<open>src/src/kvm/msr.rs\<close>), access policies, value sets and snapshots
  (\<open>src/src/kvm/msr/value_set.rs\<close>), and reading and writing them through a vCPU
  (\<open>src/src/vcpu/msr_readback.rs\<close>, \<open>src/src/vcpu/msr_write.rs\<close>).

  \<open>msr_ops\<close> has the two calls on the file descriptor of a vCPU.  A call gets the entries of the
  request, index and data, and answers with the number of entries processed.  The text of an error
  that is passed on as text is its template with the numbers it shows.

  The main results: policies and value sets are built exactly from distinct authorised indices,
  snapshot comparison is exact, and a snapshot restored on a KVM that keeps what it was given is
  captured again unchanged.
\<close>

section \<open>Index lists\<close>

type_synonym msr_index = u32

fun normalize_from :: "msr_index list \<Rightarrow> msr_index list \<Rightarrow> msr_index list" where
  "normalize_from seen [] = []"
| "normalize_from seen (i # is) =
     (if i \<in> set seen then normalize_from seen is else i # normalize_from (i # seen) is)"

definition normalize_indices :: "u32 list \<Rightarrow> msr_index list" where
  "normalize_indices indices = normalize_from [] indices"

record host_msr_index_list =
  host_indices :: "msr_index list"

definition host_msr_index_list_from_raw :: "u32 list \<Rightarrow> (host_msr_index_list, 'e) outcome" where
  "host_msr_index_list_from_raw indices =
     and_then (debug_assert (indices \<noteq> [])) (\<lambda>_. Ok \<lparr>host_indices = normalize_indices indices\<rparr>)"

section \<open>Host models\<close>

datatype (plugins only: code) msr_feature_stability = ModelImmutable | HostMutable

abbreviation MSR_IA32_UCODE_REV :: msr_index where "MSR_IA32_UCODE_REV \<equiv> 0x8b"

definition classify_feature_stability :: "msr_index \<Rightarrow> msr_feature_stability" where
  "classify_feature_stability index = (if index = MSR_IA32_UCODE_REV then HostMutable else ModelImmutable)"

record msr_feature_value =
  feature_index :: msr_index
  feature_value :: u64
  feature_stability :: msr_feature_stability

definition msr_feature_value_new :: "msr_index \<Rightarrow> u64 \<Rightarrow> msr_feature_value" where
  "msr_feature_value_new index val = \<lparr>feature_index = index, feature_value = val,
     feature_stability = classify_feature_stability index\<rparr>"

definition model_immutable_values :: "msr_feature_value list \<Rightarrow> msr_feature_value list" where
  "model_immutable_values vs = filter (\<lambda>v. feature_stability v = ModelImmutable) vs"

definition host_mutable_values :: "msr_feature_value list \<Rightarrow> msr_feature_value list" where
  "host_mutable_values vs = filter (\<lambda>v. feature_stability v = HostMutable) vs"

record msr_model_candidate =
  candidate_source :: "msr_feature_value list"
  candidate_values :: "msr_feature_value list"

definition model_candidate :: "msr_feature_value list \<Rightarrow> (msr_model_candidate, 'e) outcome" where
  "model_candidate observation =
     (let vals = model_immutable_values observation in
      and_then (debug_assert (list_all (\<lambda>v. feature_stability v = ModelImmutable) vals)) (\<lambda>_.
      Ok \<lparr>candidate_source = observation, candidate_values = vals\<rparr>))"

record msr_model_mismatch =
  mmm_index :: msr_index
  mmm_reference_value :: u64
  mmm_observed_value :: u64

record msr_model_comparison =
  mmc_reference :: msr_model_candidate
  mmc_observed :: msr_model_candidate
  mmc_missing :: "msr_feature_value list"
  mmc_extra :: "msr_feature_value list"
  mmc_mismatches :: "msr_model_mismatch list"

definition lacks_index :: "msr_feature_value list \<Rightarrow> msr_feature_value \<Rightarrow> bool" where
  "lacks_index vs v \<longleftrightarrow> \<not> list_ex (\<lambda>w. feature_index w = feature_index v) vs"

definition model_value_mismatch :: "msr_feature_value list \<Rightarrow> msr_feature_value \<Rightarrow> msr_model_mismatch option" where
  "model_value_mismatch observed r =
     Option.bind (find (\<lambda>c. feature_index c = feature_index r) observed) (\<lambda>c.
       if feature_value c \<noteq> feature_value r
       then Some \<lparr>mmm_index = feature_index r, mmm_reference_value = feature_value r, mmm_observed_value = feature_value c\<rparr>
       else None)"

definition model_compare :: "msr_model_candidate \<Rightarrow> msr_model_candidate \<Rightarrow> msr_model_comparison" where
  "model_compare s t =
     \<lparr>mmc_reference = s, mmc_observed = t,
      mmc_missing = filter (lacks_index (candidate_values t)) (candidate_values s),
      mmc_extra = filter (lacks_index (candidate_values s)) (candidate_values t),
      mmc_mismatches = List.map_filter (model_value_mismatch (candidate_values t)) (candidate_values s)\<rparr>"

definition model_exact_match :: "msr_model_comparison \<Rightarrow> bool" where
  "model_exact_match c \<longleftrightarrow> mmc_missing c = [] \<and> mmc_extra c = [] \<and> mmc_mismatches c = []"

section \<open>Access policies\<close>

datatype (plugins only: code) msr_access_authority = ReadWrite

record msr_access =
  access_index :: msr_index
  access_authority :: msr_access_authority

type_synonym msr_policy = "msr_access list"

datatype (plugins only: code) msr_policy_error =
    Policy_UnsupportedIndex msr_index usize
  | Policy_DuplicateIndex msr_index usize usize

fun policy_loop :: "msr_index list \<Rightarrow> (msr_index \<rightharpoonup> usize) \<Rightarrow> usize \<Rightarrow> msr_index list \<Rightarrow> msr_access list
    \<Rightarrow> (msr_policy, msr_policy_error) outcome" where
  "policy_loop host seen pos [] entries = Ok entries"
| "policy_loop host seen pos (i # is) entries =
     (case seen i of
        Some first_position \<Rightarrow> Err (Policy_DuplicateIndex i first_position pos)
      | None \<Rightarrow>
          if i \<notin> set host then Err (Policy_UnsupportedIndex i pos)
          else policy_loop host (seen(i \<mapsto> pos)) (pos + 1) is
            (entries @ [\<lparr>access_index = i, access_authority = ReadWrite\<rparr>]))"

definition policy_from_host :: "host_msr_index_list \<Rightarrow> msr_index list \<Rightarrow> (msr_policy, msr_policy_error) outcome" where
  "policy_from_host host requested = policy_loop (host_indices host) Map.empty 0 requested []"

section \<open>Value sets\<close>

record msr_value =
  msr_value_index :: msr_index
  msr_value_value :: u64

type_synonym msr_value_set = "msr_value list"

datatype (plugins only: code) msr_value_set_error =
    Values_UnauthorizedIndex msr_index usize
  | Values_DuplicateIndex msr_index usize usize

fun value_set_loop :: "msr_policy \<Rightarrow> (msr_index \<rightharpoonup> usize) \<Rightarrow> usize \<Rightarrow> (msr_index \<times> u64) list \<Rightarrow> msr_value list
    \<Rightarrow> (msr_value_set, msr_value_set_error) outcome" where
  "value_set_loop policy seen pos [] vals = Ok vals"
| "value_set_loop policy seen pos ((i, x) # rest) vals =
     (case seen i of
        Some first_position \<Rightarrow> Err (Values_DuplicateIndex i first_position pos)
      | None \<Rightarrow>
          if \<not> list_ex (\<lambda>e. access_index e = i \<and> access_authority e = ReadWrite) policy
          then Err (Values_UnauthorizedIndex i pos)
          else value_set_loop policy (seen(i \<mapsto> pos)) (pos + 1) rest
            (vals @ [\<lparr>msr_value_index = i, msr_value_value = x\<rparr>]))"

definition value_set_from_policy ::
  "msr_policy \<Rightarrow> (msr_index \<times> u64) list \<Rightarrow> (msr_value_set, msr_value_set_error) outcome" where
  "value_set_from_policy policy requested = value_set_loop policy Map.empty 0 requested []"

fun value_set_error_text :: "msr_value_set_error \<Rightarrow> io_payload" where
  "value_set_error_text (Values_UnauthorizedIndex i pos) =
     Message ''guest MSR value index {:#x} at position {position} is not authorized by the guest MSR access policy''
       [ucast i, of_nat pos]"
| "value_set_error_text (Values_DuplicateIndex i first_position duplicate_position) =
     Message ''guest MSR value index {:#x} is duplicated at positions {first_position} and {duplicate_position}''
       [ucast i, of_nat first_position, of_nat duplicate_position]"

section \<open>Snapshots\<close>

record msr_snapshot =
  snapshot_policy :: msr_policy
  snapshot_values :: msr_value_set

datatype (plugins only: code) msr_snapshot_error =
    Snapshot_CoverageMismatch usize usize
  | Snapshot_IndexMismatch usize msr_index msr_index

fun check_positions :: "usize \<Rightarrow> msr_policy \<Rightarrow> msr_value list \<Rightarrow> (unit, msr_snapshot_error) outcome" where
  "check_positions pos (e # es) (v # vs) =
     (if access_index e \<noteq> msr_value_index v
      then Err (Snapshot_IndexMismatch pos (access_index e) (msr_value_index v))
      else check_positions (pos + 1) es vs)"
| "check_positions pos _ _ = Ok ()"

definition msr_from_capture :: "msr_policy \<Rightarrow> msr_value_set \<Rightarrow> (msr_snapshot, msr_snapshot_error) outcome" where
  "msr_from_capture policy vals =
     (if length policy \<noteq> length vals then Err (Snapshot_CoverageMismatch (length policy) (length vals))
      else map_ok (\<lambda>_. \<lparr>snapshot_policy = policy, snapshot_values = vals\<rparr>) (check_positions 0 policy vals))"

fun snapshot_error_text :: "msr_snapshot_error \<Rightarrow> io_payload" where
  "snapshot_error_text (Snapshot_CoverageMismatch policy_entries value_entries) =
     Message ''full guest MSR snapshot has {value_entries} values for {policy_entries} policy entries''
       [of_nat value_entries, of_nat policy_entries]"
| "snapshot_error_text (Snapshot_IndexMismatch pos policy_index value_index) =
     Message ''full guest MSR snapshot index mismatch at position {position}: policy {:#x}, values {:#x}''
       [of_nat pos, ucast policy_index, ucast value_index]"

record msr_mismatch =
  msr_mm_position :: usize
  msr_mm_index :: msr_index
  msr_mm_reference :: u64
  msr_mm_observed :: u64

record msr_comparison =
  msr_cmp_reference :: msr_snapshot
  msr_cmp_observed :: msr_snapshot
  msr_cmp_policy_matches :: bool
  msr_cmp_mismatches :: "msr_mismatch list"

fun msr_mismatches :: "usize \<Rightarrow> msr_value list \<Rightarrow> msr_value list \<Rightarrow> msr_mismatch list" where
  "msr_mismatches pos (a # as) (b # bs) =
     (if msr_value_value a \<noteq> msr_value_value b
      then \<lparr>msr_mm_position = pos, msr_mm_index = msr_value_index a, msr_mm_reference = msr_value_value a,
             msr_mm_observed = msr_value_value b\<rparr> # msr_mismatches (pos + 1) as bs
      else msr_mismatches (pos + 1) as bs)"
| "msr_mismatches pos _ _ = []"

definition msr_compare :: "msr_snapshot \<Rightarrow> msr_snapshot \<Rightarrow> msr_comparison" where
  "msr_compare s t =
     (let matches = snapshot_policy s = snapshot_policy t in
      \<lparr>msr_cmp_reference = s, msr_cmp_observed = t, msr_cmp_policy_matches = matches,
       msr_cmp_mismatches = (if matches then msr_mismatches 0 (snapshot_values s) (snapshot_values t) else [])\<rparr>)"

definition msr_exact_match :: "msr_comparison \<Rightarrow> bool" where
  "msr_exact_match c \<longleftrightarrow> msr_cmp_policy_matches c \<and> msr_cmp_mismatches c = []"

section \<open>Reading through a vCPU\<close>

text \<open>
  \<open>KVM_GET_MSRS\<close> and \<open>KVM_SET_MSRS\<close>: a request is the first entries of a fixed array, and the answer
  is the number of entries processed and, for a read, the entries as KVM left them.
\<close>

record 'k msr_ops =
  kvm_get_msrs :: "(u32 \<times> u64) list \<Rightarrow> 'k \<Rightarrow> io_error + usize \<times> (u32 \<times> u64) list"
  kvm_set_msrs :: "(u32 \<times> u64) list \<Rightarrow> 'k \<Rightarrow> (io_error + usize) \<times> 'k"

abbreviation VCPU_MSR_CAPACITY :: usize where "VCPU_MSR_CAPACITY \<equiv> 1024"

definition prepare_vcpu_msr_request :: "msr_index list \<Rightarrow> ((u32 \<times> u64) list, io_error) outcome" where
  "prepare_vcpu_msr_request indices =
     (if VCPU_MSR_CAPACITY < length indices
      then Err (Custom InvalidInput (Message ''vCPU KVM_GET_MSRS request count {} exceeds bounded capacity {}''
        [of_nat (length indices), of_nat VCPU_MSR_CAPACITY]))
      else Ok (map (\<lambda>i. (i, 0)) indices))"

fun decode_entries :: "usize \<Rightarrow> msr_index list \<Rightarrow> (u32 \<times> u64) list \<Rightarrow> ((msr_index \<times> u64) list, io_error) outcome" where
  "decode_entries pos (i # is) ((j, x) # es) =
     (if j \<noteq> i
      then Err (Custom InvalidData (Message
        ''KVM_GET_MSRS changed vCPU MSR index at entry {position}: expected {:#x}, got {:#x}''
        [of_nat pos, ucast i, ucast j]))
      else map_ok (\<lambda>vs. (i, x) # vs) (decode_entries (pos + 1) is es))"
| "decode_entries pos _ _ = Ok []"

definition decode_vcpu_msr_response ::
  "msr_index list \<Rightarrow> usize \<Rightarrow> (u32 \<times> u64) list \<Rightarrow> ((msr_index \<times> u64) list, io_error) outcome" where
  "decode_vcpu_msr_response expected returned entries =
     (if returned < length expected
      then Err (Custom InvalidData (Message
        ''KVM_GET_MSRS returned {returned} of {} requested vCPU MSRs; first unread index {:#x}''
        [of_nat returned, of_nat (length expected), ucast (expected ! returned)]))
      else if returned \<noteq> length expected
      then Err (Custom InvalidData (Message ''KVM_GET_MSRS returned {returned} vCPU MSRs after {} were requested''
        [of_nat returned, of_nat (length expected)]))
      else if length entries < length expected
      then Err (Custom InvalidData (Message
        ''KVM_GET_MSRS response buffer has {} entries for {} requested vCPU MSRs''
        [of_nat (length entries), of_nat (length expected)]))
      else decode_entries 0 expected entries)"

definition vcpu_msrs :: "'k msr_ops \<Rightarrow> msr_index list \<Rightarrow> 'k vcpu \<Rightarrow> ((msr_index \<times> u64) list, vm_error) outcome" where
  "vcpu_msrs M indices v =
     (if indices = [] then Ok [] else
      and_then (map_err (vcpu_operation (vcpu_id v) ''validate KVM_GET_MSRS request'')
        (prepare_vcpu_msr_request indices)) (\<lambda>request.
      case kvm_get_msrs M request (vcpu_fd v) of
        Inl source \<Rightarrow> Err (vcpu_operation (vcpu_id v) ''KVM_GET_MSRS'' source)
      | Inr (returned, entries) \<Rightarrow>
          map_err (vcpu_operation (vcpu_id v) ''validate KVM_GET_MSRS response'')
            (decode_vcpu_msr_response indices returned entries)))"

definition policy_msr_indices :: "msr_policy \<Rightarrow> msr_index list" where
  "policy_msr_indices policy = map access_index policy"

fun check_captured :: "usize \<Rightarrow> msr_policy \<Rightarrow> (msr_index \<times> u64) list \<Rightarrow> (unit, io_error) outcome" where
  "check_captured pos (e # es) ((i, _) # cs) =
     (if access_index e \<noteq> i
      then Err (Custom InvalidData (Message
        ''guest MSR capture changed index at entry {position}: expected {:#x}, got {:#x}''
        [of_nat pos, ucast (access_index e), ucast i]))
      else check_captured (pos + 1) es cs)"
| "check_captured pos _ _ = Ok ()"

definition materialize_policy_capture ::
  "msr_policy \<Rightarrow> (msr_index \<times> u64) list \<Rightarrow> (msr_value_set, io_error) outcome" where
  "materialize_policy_capture policy captured =
     (if length captured \<noteq> length policy
      then Err (Custom InvalidData (Message ''guest MSR capture contains {} values for {} policy entries''
        [of_nat (length captured), of_nat (length policy)]))
      else and_then (check_captured 0 policy captured) (\<lambda>_.
        map_err (\<lambda>e. Custom InvalidData (value_set_error_text e)) (value_set_from_policy policy captured)))"

definition capture_msrs :: "'k msr_ops \<Rightarrow> msr_policy \<Rightarrow> 'k vcpu \<Rightarrow> (msr_value_set, vm_error) outcome" where
  "capture_msrs M policy v =
     (let indices = policy_msr_indices policy;
          materialize = (\<lambda>captured. map_err (vcpu_operation (vcpu_id v) ''materialize guest MSR capture'')
            (materialize_policy_capture policy captured)) in
      if indices = [] then materialize []
      else and_then (vcpu_msrs M indices v) materialize)"

definition capture_msr_snapshot :: "'k msr_ops \<Rightarrow> msr_policy \<Rightarrow> 'k vcpu \<Rightarrow> (msr_snapshot, vm_error) outcome" where
  "capture_msr_snapshot M policy v =
     and_then (capture_msrs M policy v) (\<lambda>vals.
     map_err (\<lambda>e. vcpu_operation (vcpu_id v) ''validate full guest MSR snapshot''
       (Custom InvalidData (snapshot_error_text e))) (msr_from_capture policy vals))"

section \<open>Writing through a vCPU\<close>

definition prepare_vcpu_msr_write_request :: "msr_value_set \<Rightarrow> ((u32 \<times> u64) list option, io_error) outcome" where
  "prepare_vcpu_msr_write_request vals =
     (if vals = [] then Ok None
      else if VCPU_MSR_CAPACITY < length vals
      then Err (Custom InvalidInput (Message ''vCPU KVM_SET_MSRS request count {} exceeds bounded capacity {}''
        [of_nat (length vals), of_nat VCPU_MSR_CAPACITY]))
      else Ok (Some (map (\<lambda>v. (msr_value_index v, msr_value_value v)) vals)))"

definition validate_vcpu_msr_write_completion :: "u16 \<Rightarrow> msr_value_set \<Rightarrow> usize \<Rightarrow> (unit, vm_error) outcome" where
  "validate_vcpu_msr_write_completion vid vals processed =
     (if processed = length vals then Ok ()
      else if processed < length vals
      then Err (HostEnvironment (VcpuMsrPartialWrite vid (length vals) processed (msr_value_index (vals ! processed))))
      else Err (HostEnvironment (VcpuMsrInvalidWriteCompletion vid (length vals) processed)))"

definition set_msrs :: "'k msr_ops \<Rightarrow> msr_value_set \<Rightarrow> ('k vcpu, unit, vm_error) op" where
  "set_msrs M vals v =
     (case map_err (vcpu_operation (vcpu_id v) ''validate KVM_SET_MSRS request'') (prepare_vcpu_msr_write_request vals) of
        Err e \<Rightarrow> (Err e, v)
      | Fault p \<Rightarrow> (Fault p, v)
      | Ok None \<Rightarrow> (Ok (), v)
      | Ok (Some request) \<Rightarrow>
          (case kvm_set_msrs M request (vcpu_fd v) of
             (Inl source, k) \<Rightarrow> (Err (vcpu_operation (vcpu_id v) ''KVM_SET_MSRS'' source), v\<lparr>vcpu_fd := k\<rparr>)
           | (Inr processed, k) \<Rightarrow>
               (validate_vcpu_msr_write_completion (vcpu_id v) vals processed, v\<lparr>vcpu_fd := k\<rparr>)))"

definition restore_msr_snapshot :: "'k msr_ops \<Rightarrow> msr_snapshot \<Rightarrow> ('k vcpu, unit, vm_error) op" where
  "restore_msr_snapshot M s = set_msrs M (snapshot_values s)"

definition restore_and_verify_msr_snapshot ::
  "'k msr_ops \<Rightarrow> msr_snapshot \<Rightarrow> ('k vcpu, msr_comparison, vm_error) op" where
  "restore_and_verify_msr_snapshot M s =
     op_then (restore_msr_snapshot M s) (\<lambda>_ v.
       (map_ok (msr_compare s) (capture_msr_snapshot M (snapshot_policy s) v), v))"

section \<open>Specification\<close>

text \<open>The snapshots that \<open>from_capture\<close> accepts, and the requests as pairs.\<close>

definition msr_snapshot_ok :: "msr_snapshot \<Rightarrow> bool" where
  "msr_snapshot_ok s \<longleftrightarrow> map msr_value_index (snapshot_values s) = map access_index (snapshot_policy s)
     \<and> distinct (map access_index (snapshot_policy s))"

definition msr_pairs :: "msr_value_set \<Rightarrow> (msr_index \<times> u64) list" where
  "msr_pairs vs = map (\<lambda>v. (msr_value_index v, msr_value_value v)) vs"

text \<open>
  What the sources rely on for the registers \<open>I\<close> of a policy: after KVM has processed a whole write
  request of distinct registers among them, reading them gives the values written.  This is a
  condition on the choice of \<open>I\<close>: a time stamp counter is not such a register.
\<close>

definition msrs_kept :: "'k msr_ops \<Rightarrow> msr_index set \<Rightarrow> bool" where
  "msrs_kept M I \<longleftrightarrow> (\<forall>es k k'. distinct (map fst es) \<longrightarrow> fst ` set es \<subseteq> I \<longrightarrow>
     kvm_set_msrs M es k = (Inr (length es), k') \<longrightarrow>
     kvm_get_msrs M (map (\<lambda>(i, _). (i, 0)) es) k' = Inr (length es, es))"

section \<open>Lemmas\<close>

subsection \<open>Index lists and policies\<close>

lemma normalize_from_props:
  "distinct (normalize_from seen is) \<and> set (normalize_from seen is) = set is - set seen"
  by (induction seen "is" rule: normalize_from.induct) auto

lemma normalize_indices_props: "distinct (normalize_indices is)" "set (normalize_indices is) = set is"
  by (simp_all add: normalize_indices_def normalize_from_props)

lemma policy_loop_Ok:
  "policy_loop host seen n is es = Ok p \<longleftrightarrow>
     distinct is \<and> set is \<inter> dom seen = {} \<and> set is \<subseteq> set host
     \<and> p = es @ map (\<lambda>i. \<lparr>access_index = i, access_authority = ReadWrite\<rparr>) is"
  by (induction "is" arbitrary: seen n es) (auto split: option.splits)

lemma policy_loop_safe: "\<not> is_fault (policy_loop host seen n is es)"
  by (induction "is" arbitrary: seen n es) (auto split: option.splits)

lemma policy_from_host_Ok:
  "policy_from_host host is = Ok p \<longleftrightarrow> distinct is \<and> set is \<subseteq> set (host_indices host)
     \<and> p = map (\<lambda>i. \<lparr>access_index = i, access_authority = ReadWrite\<rparr>) is"
  by (simp add: policy_from_host_def policy_loop_Ok)

lemma authority_only [simp]: "a = ReadWrite \<longleftrightarrow> True"
  by (cases a) simp

lemma value_set_loop_Ok:
  "value_set_loop policy seen n req vs0 = Ok vs \<longleftrightarrow>
     distinct (map fst req) \<and> fst ` set req \<inter> dom seen = {} \<and> fst ` set req \<subseteq> access_index ` set policy
     \<and> vs = vs0 @ map (\<lambda>(i, x). \<lparr>msr_value_index = i, msr_value_value = x\<rparr>) req"
proof (induction req arbitrary: seen n vs0)
  case (Cons r rest)
  obtain i x where r: "r = (i, x)" by (cases r)
  have ex: "list_ex (\<lambda>e. access_index e = i) policy \<longleftrightarrow> i \<in> access_index ` set policy"
    by (auto simp: list_ex_iff)
  have dom: "fst ` set rest \<inter> dom (seen(i \<mapsto> n)) = {} \<longleftrightarrow> i \<notin> fst ` set rest \<and> fst ` set rest \<inter> dom seen = {}"
    by auto
  show ?case
    by (cases "seen i") (auto simp: r ex Cons.IH dom simp del: fun_upd_apply dom_fun_upd)
qed auto

lemma value_set_loop_safe: "\<not> is_fault (value_set_loop policy seen n req vs)"
proof (induction req arbitrary: seen n vs)
  case (Cons r rest)
  then show ?case by (cases r; cases "seen (fst r)") simp_all
qed simp

lemma value_set_from_policy_Ok:
  "value_set_from_policy policy req = Ok vs \<longleftrightarrow> distinct (map fst req)
     \<and> fst ` set req \<subseteq> access_index ` set policy
     \<and> vs = map (\<lambda>(i, x). \<lparr>msr_value_index = i, msr_value_value = x\<rparr>) req"
  by (simp add: value_set_from_policy_def value_set_loop_Ok)

subsection \<open>Snapshots\<close>

lemma check_positions_Ok:
  "length p = length vs \<Longrightarrow> check_positions n p vs = Ok () \<longleftrightarrow> map access_index p = map msr_value_index vs"
  by (induction n p vs rule: check_positions.induct) auto

lemma msr_from_capture_Ok:
  "msr_from_capture p vs = Ok s \<longleftrightarrow>
     map access_index p = map msr_value_index vs \<and> s = \<lparr>snapshot_policy = p, snapshot_values = vs\<rparr>"
  using check_positions_Ok [of p vs 0] map_eq_imp_length_eq [of access_index p msr_value_index vs]
  by (cases "check_positions 0 p vs") (auto simp: msr_from_capture_def)

lemma msr_mismatches_Nil:
  "length as = length bs \<Longrightarrow> msr_mismatches n as bs = [] \<longleftrightarrow> map msr_value_value as = map msr_value_value bs"
  by (induction n as bs rule: msr_mismatches.induct) auto

lemma msr_values_eqI:
  "map msr_value_index as = map msr_value_index bs \<Longrightarrow> map msr_value_value as = map msr_value_value bs
     \<Longrightarrow> as = (bs :: msr_value list)"
proof (induction as arbitrary: bs)
  case (Cons a as)
  then show ?case by (cases bs) auto
qed simp

lemma msr_exact_match_iff:
  assumes "msr_snapshot_ok s" and "msr_snapshot_ok t"
  shows "msr_exact_match (msr_compare s t) \<longleftrightarrow> s = t"
proof -
  have "length (snapshot_values s) = length (snapshot_policy s)" "length (snapshot_values t) = length (snapshot_policy t)"
    using assms by (auto simp: msr_snapshot_ok_def dest: map_eq_imp_length_eq)
  with assms show ?thesis
    using msr_values_eqI [of "snapshot_values s" "snapshot_values t"]
    by (cases s; cases t) (auto simp: msr_exact_match_def msr_compare_def Let_def msr_mismatches_Nil msr_snapshot_ok_def)
qed

subsection \<open>Reading and writing\<close>

lemma decode_entries_Ok:
  "length is \<le> length es \<Longrightarrow> decode_entries n is es = Ok out \<longleftrightarrow>
     map fst (take (length is) es) = is \<and> out = take (length is) es"
proof (induction "is" arbitrary: n es out)
  case (Cons i "is")
  then obtain e es' where es: "es = e # es'" by (cases es) auto
  with Cons show ?case by (cases e) (auto simp: outcome_simps if_Err_Ok)
qed auto

lemma check_captured_Ok:
  "length cs = length p \<Longrightarrow> check_captured n p cs = Ok () \<longleftrightarrow> map fst cs = map access_index p"
  by (induction n p cs rule: check_captured.induct) auto

lemma capture_msrs_Ok:
  assumes "capture_msrs M p v = Ok vs"
  shows "map msr_value_index vs = map access_index p" and "distinct (map access_index p)"
    and "length p \<le> VCPU_MSR_CAPACITY"
proof -
  have "\<exists>cs. materialize_policy_capture p cs = Ok vs \<and> length p \<le> VCPU_MSR_CAPACITY"
  proof (cases "p = []")
    case True
    with assms show ?thesis by (intro exI [of _ "[]"]) (simp add: capture_msrs_def policy_msr_indices_def map_err_Ok)
  next
    case False
    with assms show ?thesis
      by (auto simp: capture_msrs_def Let_def policy_msr_indices_def vcpu_msrs_def prepare_vcpu_msr_request_def
          outcome_simps if_Err_Ok)
  qed
  then obtain cs where cs: "materialize_policy_capture p cs = Ok vs" and len: "length p \<le> VCPU_MSR_CAPACITY" by blast
  show "length p \<le> VCPU_MSR_CAPACITY" by (rule len)
  have "length cs = length p" "check_captured 0 p cs = Ok ()" and vs: "value_set_from_policy p cs = Ok vs"
    using cs by (auto simp: materialize_policy_capture_def outcome_simps if_Err_Ok)
  then have fst: "map fst cs = map access_index p" using check_captured_Ok by blast
  have "vs = map (\<lambda>(i, x). \<lparr>msr_value_index = i, msr_value_value = x\<rparr>) cs" "distinct (map fst cs)"
    using vs unfolding value_set_from_policy_Ok by blast+
  then have "map msr_value_index vs = map fst cs" "distinct (map fst cs)" by auto
  then show "map msr_value_index vs = map access_index p" "distinct (map access_index p)"
    unfolding fst by blast+
qed

lemma capture_snapshot_Ok:
  assumes "capture_msr_snapshot M p v = Ok s"
  shows "msr_snapshot_ok s" and "snapshot_policy s = p" and "length p \<le> VCPU_MSR_CAPACITY"
  using assms capture_msrs_Ok [of M p v]
  by (auto simp: capture_msr_snapshot_def msr_from_capture_Ok msr_snapshot_ok_def outcome_simps)

lemma length_msr_pairs [simp]: "length (msr_pairs vs) = length vs"
  by (simp add: msr_pairs_def)

lemma fst_msr_pairs: "map fst (msr_pairs vs) = map msr_value_index vs"
  by (simp add: msr_pairs_def comp_def)

lemma msr_pairs_back: "map (\<lambda>(i, x). \<lparr>msr_value_index = i, msr_value_value = x\<rparr>) (msr_pairs vs) = (vs :: msr_value list)"
  by (induction vs) (simp_all add: msr_pairs_def)

lemma materialize_pairs:
  assumes "msr_snapshot_ok s"
  shows "materialize_policy_capture (snapshot_policy s) (msr_pairs (snapshot_values s)) = Ok (snapshot_values s)"
proof -
  let ?p = "snapshot_policy s" and ?ps = "msr_pairs (snapshot_values s)"
  have fst: "map fst ?ps = map access_index ?p" and dist: "distinct (map fst ?ps)"
    using assms by (simp_all add: msr_snapshot_ok_def fst_msr_pairs)
  then have len: "length ?ps = length ?p" by (metis length_map)
  have "fst ` set ?ps = access_index ` set ?p" using arg_cong [OF fst, of set] by simp
  with dist have "value_set_from_policy ?p ?ps = Ok (snapshot_values s)"
    by (simp add: value_set_from_policy_Ok msr_pairs_back)
  moreover have "check_captured 0 ?p ?ps = Ok ()" using check_captured_Ok [OF len] fst by blast
  ultimately show ?thesis using len by (simp add: materialize_policy_capture_def)
qed

lemma restored_msrs_captured:
  assumes "msrs_kept M I" and ok: "msr_snapshot_ok s" and inside: "access_index ` set (snapshot_policy s) \<subseteq> I"
    and run: "restore_msr_snapshot M s v = (Ok (), v')"
  shows "capture_msr_snapshot M (snapshot_policy s) v' = Ok s"
proof -
  let ?p = "snapshot_policy s" and ?vs = "snapshot_values s"
  have idx: "map msr_value_index ?vs = map access_index ?p" using ok by (simp add: msr_snapshot_ok_def)
  then have len: "length ?p = length ?vs" by (metis length_map)
  have "capture_msrs M ?p v' = Ok ?vs"
  proof (cases "?vs = []")
    case True
    with len materialize_pairs [OF ok] show ?thesis
      by (simp add: capture_msrs_def policy_msr_indices_def msr_pairs_def)
  next
    case False
    from run False obtain k where set: "kvm_set_msrs M (msr_pairs ?vs) (vcpu_fd v) = (Inr (length ?vs), k)"
      and v': "v' = v\<lparr>vcpu_fd := k\<rparr>" and cap: "length ?vs \<le> VCPU_MSR_CAPACITY"
      by (auto simp: restore_msr_snapshot_def set_msrs_def prepare_vcpu_msr_write_request_def msr_pairs_def
          validate_vcpu_msr_write_completion_def split: if_splits prod.splits sum.splits)
    have "distinct (map fst (msr_pairs ?vs))" using ok by (simp add: msr_snapshot_ok_def fst_msr_pairs)
    moreover have "fst ` set (msr_pairs ?vs) \<subseteq> I" using inside arg_cong [OF idx, of set] by (simp add: msr_pairs_def image_image)
    ultimately have "kvm_get_msrs M (map (\<lambda>(i, _). (i, 0)) (msr_pairs ?vs)) k = Inr (length ?vs, msr_pairs ?vs)"
      using set assms(1) unfolding msrs_kept_def by (metis length_msr_pairs)
    moreover have "map (\<lambda>(i, _). (i, 0)) (msr_pairs ?vs) = map (\<lambda>i. (i, 0 :: u64)) (map access_index ?p)"
      unfolding idx [symmetric] by (simp add: msr_pairs_def)
    ultimately have get: "kvm_get_msrs M (map (\<lambda>i. (i, 0)) (map access_index ?p)) k = Inr (length ?vs, msr_pairs ?vs)"
      by simp
    have "decode_entries 0 (map access_index ?p) (msr_pairs ?vs) = Ok (msr_pairs ?vs)"
      using len idx by (simp add: decode_entries_Ok fst_msr_pairs)
    then have "vcpu_msrs M (map access_index ?p) v' = Ok (msr_pairs ?vs)"
      using False len cap get
      by (auto simp: vcpu_msrs_def prepare_vcpu_msr_request_def decode_vcpu_msr_response_def v' simp del: map_map)
    then show ?thesis
      using False len materialize_pairs [OF ok] by (auto simp: capture_msrs_def policy_msr_indices_def)
  qed
  moreover have "msr_from_capture ?p ?vs = Ok s" using idx by (simp add: msr_from_capture_Ok)
  ultimately show ?thesis by (simp add: capture_msr_snapshot_def)
qed

lemma restore_and_verify_msrs:
  assumes "msrs_kept M I" and "msr_snapshot_ok s" and "access_index ` set (snapshot_policy s) \<subseteq> I"
    and "restore_msr_snapshot M s v = (Ok (), v')"
  shows "restore_and_verify_msr_snapshot M s v = (Ok (msr_compare s s), v')"
  using restored_msrs_captured [OF assms] assms(4) by (simp add: restore_and_verify_msr_snapshot_def op_then_def)

subsection \<open>Host models\<close>

lemma find_index_iff:
  "distinct (map feature_index vs) \<Longrightarrow> find (\<lambda>c. feature_index c = i) vs = Some c \<longleftrightarrow> c \<in> set vs \<and> feature_index c = i"
  by (induction vs) auto

lemma map_filter_Nil: "List.map_filter f xs = [] \<longleftrightarrow> (\<forall>x \<in> set xs. f x = None)"
  by (induction xs) (simp_all add: List.map_filter_simps split: option.split)

lemma filter_lacks_Nil: "filter (lacks_index vs) ws = [] \<longleftrightarrow> (\<forall>w \<in> set ws. \<exists>v \<in> set vs. feature_index v = feature_index w)"
  by (simp add: lacks_index_def filter_empty_conv list_ex_iff)

text \<open>Two models match exactly when they have the same registers with the same values.\<close>

lemma model_exact_match_iff:
  assumes "distinct (map feature_index (candidate_values s))" and "distinct (map feature_index (candidate_values t))"
  shows "model_exact_match (model_compare s t) \<longleftrightarrow>
    (\<lambda>v. (feature_index v, feature_value v)) ` set (candidate_values s) =
    (\<lambda>v. (feature_index v, feature_value v)) ` set (candidate_values t)"
proof -
  let ?S = "candidate_values s" and ?T = "candidate_values t"
  have none: "model_value_mismatch ?T r = None \<longleftrightarrow>
      (\<forall>c \<in> set ?T. feature_index c = feature_index r \<longrightarrow> feature_value c = feature_value r)" for r
  proof (cases "find (\<lambda>c. feature_index c = feature_index r) ?T")
    case None
    then have "\<forall>c \<in> set ?T. feature_index c \<noteq> feature_index r" by (auto simp: find_None_iff)
    with None show ?thesis by (simp add: model_value_mismatch_def)
  next
    case (Some c)
    then have c: "c \<in> set ?T" "feature_index c = feature_index r"
      using find_index_iff [OF assms(2), of "feature_index r" c] by simp_all
    have "c' = c" if "c' \<in> set ?T" "feature_index c' = feature_index r" for c'
      using that Some find_index_iff [OF assms(2), of "feature_index r" c'] by simp
    then have "(\<forall>c' \<in> set ?T. feature_index c' = feature_index r \<longrightarrow> feature_value c' = feature_value r)
        \<longleftrightarrow> feature_value c = feature_value r"
      using c by blast
    with Some show ?thesis by (simp add: model_value_mismatch_def)
  qed
  have "model_exact_match (model_compare s t) \<longleftrightarrow>
      (\<forall>r \<in> set ?S. \<exists>c \<in> set ?T. feature_index c = feature_index r)
      \<and> (\<forall>c \<in> set ?T. \<exists>r \<in> set ?S. feature_index r = feature_index c)
      \<and> (\<forall>r \<in> set ?S. \<forall>c \<in> set ?T. feature_index c = feature_index r \<longrightarrow> feature_value c = feature_value r)"
    unfolding model_exact_match_def model_compare_def msr_model_comparison.simps filter_lacks_Nil map_filter_Nil none ..
  also have "\<dots> \<longleftrightarrow> (\<lambda>v. (feature_index v, feature_value v)) ` set ?S = (\<lambda>v. (feature_index v, feature_value v)) ` set ?T"
    (is "?l \<longleftrightarrow> ?f ` _ = _")
  proof
    assume l: ?l
    have "?f v \<in> ?f ` set ?T" if v: "v \<in> set ?S" for v
    proof -
      obtain c where "c \<in> set ?T" "feature_index c = feature_index v" using l v by blast
      with l v show ?thesis by (intro image_eqI [of _ _ c]) auto
    qed
    moreover have "?f v \<in> ?f ` set ?S" if v: "v \<in> set ?T" for v
    proof -
      obtain c where "c \<in> set ?S" "feature_index c = feature_index v" using l v by blast
      with l v show ?thesis by (intro image_eqI [of _ _ c]) auto
    qed
    ultimately show "?f ` set ?S = ?f ` set ?T" by blast
  next
    assume eq: "?f ` set ?S = ?f ` set ?T"
    have sub: "\<exists>c \<in> set ?T. ?f c = ?f r" if "r \<in> set ?S" for r
      using imageI [OF that, of ?f] unfolding eq by auto
    have sup: "\<exists>r \<in> set ?S. ?f r = ?f c" if "c \<in> set ?T" for c
      using imageI [OF that, of ?f] unfolding eq [symmetric] by auto
    have "feature_value c = feature_value r" if rc: "r \<in> set ?S" "c \<in> set ?T" "feature_index c = feature_index r" for r c
    proof -
      obtain c' where c': "c' \<in> set ?T" "feature_index c' = feature_index r" "feature_value c' = feature_value r"
        using sub [OF rc(1)] by auto
      have "inj_on feature_index (set ?T)" using assms(2) by (simp add: distinct_map)
      then have "c = c'" using rc c' by (intro inj_onD [of feature_index "set ?T"]) simp_all
      with c' show ?thesis by simp
    qed
    moreover have "\<forall>r \<in> set ?S. \<exists>c \<in> set ?T. feature_index c = feature_index r" using sub by simp blast
    moreover have "\<forall>c \<in> set ?T. \<exists>r \<in> set ?S. feature_index r = feature_index c" using sup by simp blast
    ultimately show ?l by blast
  qed
  finally show ?thesis .
qed

end
