(* ===== verification/State_Snapshot.thy ===== *)
theory State_Snapshot
  imports Msr Long_Mode
begin

text \<open>
  The state of a vCPU as a whole (\<open>src/src/state_snapshot.rs\<close>, \<open>src/src/vcpu/snapshot_verify.rs\<close>) and
  checkpoints of a vCPU with guest pages: a single page (\<open>src/src/state_snapshot/checkpoint.rs\<close>) and
  bounded page sets (\<open>src/src/state_snapshot/page_set.rs\<close>).

  The main results: a snapshot that is restored on a KVM that keeps what it was given is captured
  again unchanged, and restoring a page set writes exactly its pages and verifies as exact.
\<close>

section \<open>vCPU state\<close>

record vcpu_state =
  state_registers :: register_snapshot
  state_special :: special_snapshot
  state_msrs :: msr_snapshot

record vcpu_state_comparison =
  stc_registers :: register_comparison
  stc_special :: special_comparison
  stc_msrs :: msr_comparison

definition state_compare :: "vcpu_state \<Rightarrow> vcpu_state \<Rightarrow> (vcpu_state_comparison, 'e) outcome" where
  "state_compare s t =
     map_ok (\<lambda>special. \<lparr>stc_registers = register_compare (state_registers s) (state_registers t),
       stc_special = special, stc_msrs = msr_compare (state_msrs s) (state_msrs t)\<rparr>)
       (special_compare (state_special s) (state_special t))"

definition state_exact_match :: "vcpu_state_comparison \<Rightarrow> bool" where
  "state_exact_match c \<longleftrightarrow>
     register_exact_match (stc_registers c) \<and> special_exact_match (stc_special c) \<and> msr_exact_match (stc_msrs c)"

definition capture_state_snapshot ::
  "'k kvm_ops \<Rightarrow> 'k msr_ops \<Rightarrow> msr_policy \<Rightarrow> 'k vcpu \<Rightarrow> (vcpu_state, vm_error) outcome" where
  "capture_state_snapshot K M policy v =
     and_then (capture_register_snapshot K v) (\<lambda>registers.
     and_then (capture_special_register_snapshot K v) (\<lambda>special.
     and_then (capture_msr_snapshot M policy v) (\<lambda>msrs.
     Ok \<lparr>state_registers = registers, state_special = special, state_msrs = msrs\<rparr>)))"

definition verify_state_snapshot ::
  "'k kvm_ops \<Rightarrow> 'k msr_ops \<Rightarrow> vcpu_state \<Rightarrow> 'k vcpu \<Rightarrow> (vcpu_state_comparison, vm_error) outcome" where
  "verify_state_snapshot K M s v =
     and_then (capture_state_snapshot K M (snapshot_policy (state_msrs s)) v) (state_compare s)"

definition restore_state_snapshot ::
  "'k kvm_ops \<Rightarrow> 'k msr_ops \<Rightarrow> vcpu_state \<Rightarrow> ('k vcpu, unit, vm_error) op" where
  "restore_state_snapshot K M s =
     op_then (restore_special_register_snapshot K (state_special s)) (\<lambda>_.
     op_then (restore_register_snapshot K (state_registers s)) (\<lambda>_.
     restore_msr_snapshot M (state_msrs s)))"

definition restore_and_verify_state_snapshot ::
  "'k kvm_ops \<Rightarrow> 'k msr_ops \<Rightarrow> vcpu_state \<Rightarrow> ('k vcpu, vcpu_state_comparison, vm_error) op" where
  "restore_and_verify_state_snapshot K M s =
     op_then (restore_state_snapshot K M s) (\<lambda>_ v. (verify_state_snapshot K M s v, v))"

section \<open>Verifying components\<close>

definition verify_register_snapshot ::
  "'k kvm_ops \<Rightarrow> register_snapshot \<Rightarrow> 'k vcpu \<Rightarrow> (register_comparison, vm_error) outcome" where
  "verify_register_snapshot K s v = map_ok (register_compare s) (capture_register_snapshot K v)"

definition verify_special_register_snapshot ::
  "'k kvm_ops \<Rightarrow> special_snapshot \<Rightarrow> 'k vcpu \<Rightarrow> (special_comparison, vm_error) outcome" where
  "verify_special_register_snapshot K s v =
     and_then (capture_special_register_snapshot K v) (special_compare s)"

definition verify_msr_snapshot ::
  "'k msr_ops \<Rightarrow> msr_snapshot \<Rightarrow> 'k vcpu \<Rightarrow> (msr_comparison, vm_error) outcome" where
  "verify_msr_snapshot M s v = map_ok (msr_compare s) (capture_msr_snapshot M (snapshot_policy s) v)"

section \<open>Page sets\<close>

abbreviation BOUNDED_CHECKPOINT_PAGE_SET_LIMIT :: usize where "BOUNDED_CHECKPOINT_PAGE_SET_LIMIT \<equiv> 8"
abbreviation PAGE_LEN :: usize where "PAGE_LEN \<equiv> 4096"

record checkpoint_page =
  page_address :: u64
  page_bytes :: "u8 list"

record page_set_checkpoint =
  ckpt_pages :: "checkpoint_page list"
  ckpt_vcpu :: vcpu_state

definition page_set_error :: "string \<Rightarrow> io_payload \<Rightarrow> vm_error" where
  "page_set_error operation detail = HostEnvironment (VcpuOperation 0 operation (Custom InvalidData detail))"

fun adjacent_equal :: "u64 list \<Rightarrow> bool" where
  "adjacent_equal (a # b # as) \<longleftrightarrow> a = b \<or> adjacent_equal (b # as)"
| "adjacent_equal _ \<longleftrightarrow> False"

definition validate_page_addresses :: "u64 list \<Rightarrow> (u64 list, vm_error) outcome" where
  "validate_page_addresses page_addresses =
     (let operation = ''bounded page-set checkpoint capture'' in
      if page_addresses = [] then
        Err (page_set_error operation (Message ''checkpoint ownership set must contain at least one page'' []))
      else if BOUNDED_CHECKPOINT_PAGE_SET_LIMIT < length page_addresses then
        Err (page_set_error operation (Message ''checkpoint ownership set has {} pages, limit is {}''
          [of_nat (length page_addresses), of_nat BOUNDED_CHECKPOINT_PAGE_SET_LIMIT]))
      else
        let canonical = sort page_addresses in
        case find (\<lambda>a. a mod LONG_MODE_PAGE_SIZE \<noteq> 0) canonical of
          Some a \<Rightarrow> Err (page_set_error operation (Message ''checkpoint page {:#x} is not 4KiB aligned'' [a]))
        | None \<Rightarrow>
            if adjacent_equal canonical then
              Err (page_set_error operation (Message ''checkpoint ownership set contains a duplicate page'' []))
            else Ok canonical)"

fun capture_pages :: "guest_memory \<Rightarrow> u64 list \<Rightarrow> (checkpoint_page list, vm_error) outcome" where
  "capture_pages m [] = Ok []"
| "capture_pages m (a # as) =
     and_then (mem_read m a PAGE_LEN) (\<lambda>bytes.
     map_ok (\<lambda>ps. \<lparr>page_address = a, page_bytes = bytes\<rparr> # ps) (capture_pages m as))"

definition page_set_capture :: "'k kvm_ops \<Rightarrow> 'k msr_ops \<Rightarrow> 'k vcpu \<Rightarrow> msr_policy \<Rightarrow> guest_memory \<Rightarrow> u64 list
    \<Rightarrow> (page_set_checkpoint, vm_error) outcome" where
  "page_set_capture K M v policy m page_addresses =
     and_then (validate_page_addresses page_addresses) (\<lambda>canonical.
     and_then (capture_pages m canonical) (\<lambda>pages.
     and_then (capture_state_snapshot K M policy v) (\<lambda>state.
     Ok \<lparr>ckpt_pages = pages, ckpt_vcpu = state\<rparr>)))"

record page_comparison =
  pc_address :: u64
  pc_exact :: bool

record page_set_comparison =
  psc_pages :: "page_comparison list"
  psc_vcpu :: vcpu_state_comparison

fun compare_pages :: "checkpoint_page list \<Rightarrow> guest_memory \<Rightarrow> (page_comparison list, vm_error) outcome" where
  "compare_pages [] m = Ok []"
| "compare_pages (p # ps) m =
     and_then (mem_read m (page_address p) (length (page_bytes p))) (\<lambda>observed.
     map_ok (\<lambda>cs. \<lparr>pc_address = page_address p, pc_exact = (observed = page_bytes p)\<rparr> # cs) (compare_pages ps m))"

definition all_pages_exact :: "page_set_comparison \<Rightarrow> bool" where
  "all_pages_exact c \<longleftrightarrow> list_all pc_exact (psc_pages c)"

definition page_set_exact_match :: "page_set_comparison \<Rightarrow> bool" where
  "page_set_exact_match c \<longleftrightarrow> all_pages_exact c \<and> state_exact_match (psc_vcpu c)"

definition page_set_verify :: "'k kvm_ops \<Rightarrow> 'k msr_ops \<Rightarrow> page_set_checkpoint \<Rightarrow> 'k vcpu \<Rightarrow> guest_memory
    \<Rightarrow> (page_set_comparison, vm_error) outcome" where
  "page_set_verify K M c v m =
     and_then (compare_pages (ckpt_pages c) m) (\<lambda>pages.
     map_ok (\<lambda>state. \<lparr>psc_pages = pages, psc_vcpu = state\<rparr>) (verify_state_snapshot K M (ckpt_vcpu c) v))"

fun restore_pages :: "checkpoint_page list \<Rightarrow> (guest_memory, unit, vm_error) op" where
  "restore_pages [] = op_return ()"
| "restore_pages (p # ps) = op_then (mem_write (page_address p) (page_bytes p)) (\<lambda>_. restore_pages ps)"

text \<open>Restoring changes the guest memory first and then the vCPU; a failure leaves what was done.\<close>

definition page_set_restore_and_verify :: "'k kvm_ops \<Rightarrow> 'k msr_ops \<Rightarrow> page_set_checkpoint
    \<Rightarrow> ('k vcpu \<times> guest_memory, page_set_comparison, vm_error) op" where
  "page_set_restore_and_verify K M c = (\<lambda>(v, m).
     case restore_pages (ckpt_pages c) m of
       (Err e, m) \<Rightarrow> (Err e, (v, m))
     | (Fault p, m) \<Rightarrow> (Fault p, (v, m))
     | (Ok _, m) \<Rightarrow>
         (case restore_and_verify_state_snapshot K M (ckpt_vcpu c) v of
            (r, v) \<Rightarrow>
              (and_then r (\<lambda>state. map_ok (\<lambda>pages. \<lparr>psc_pages = pages, psc_vcpu = state\<rparr>)
                 (compare_pages (ckpt_pages c) m)), (v, m))))"

section \<open>Single pages\<close>

record page_checkpoint =
  single_page_address :: u64
  single_page :: "u8 list"
  single_vcpu :: vcpu_state

record single_comparison =
  single_page_exact :: bool
  single_vcpu_comparison :: vcpu_state_comparison

definition single_capture :: "'k kvm_ops \<Rightarrow> 'k msr_ops \<Rightarrow> 'k vcpu \<Rightarrow> msr_policy \<Rightarrow> guest_memory \<Rightarrow> u64
    \<Rightarrow> (page_checkpoint, vm_error) outcome" where
  "single_capture K M v policy m a =
     (if a mod LONG_MODE_PAGE_SIZE \<noteq> 0
      then Err (page_set_error ''bounded checkpoint capture'' (Message ''checkpoint page {:#x} is not 4KiB aligned'' [a]))
      else and_then (mem_read m a PAGE_LEN) (\<lambda>page.
        map_ok (\<lambda>state. \<lparr>single_page_address = a, single_page = page, single_vcpu = state\<rparr>)
          (capture_state_snapshot K M policy v)))"

definition single_verify :: "'k kvm_ops \<Rightarrow> 'k msr_ops \<Rightarrow> page_checkpoint \<Rightarrow> 'k vcpu \<Rightarrow> guest_memory
    \<Rightarrow> (single_comparison, vm_error) outcome" where
  "single_verify K M c v m =
     and_then (mem_read m (single_page_address c) (length (single_page c))) (\<lambda>observed.
     map_ok (\<lambda>state. \<lparr>single_page_exact = (observed = single_page c), single_vcpu_comparison = state\<rparr>)
       (verify_state_snapshot K M (single_vcpu c) v))"

definition single_restore_and_verify :: "'k kvm_ops \<Rightarrow> 'k msr_ops \<Rightarrow> page_checkpoint
    \<Rightarrow> ('k vcpu \<times> guest_memory, single_comparison, vm_error) op" where
  "single_restore_and_verify K M c = (\<lambda>(v, m).
     case mem_write (single_page_address c) (single_page c) m of
       (Err e, m) \<Rightarrow> (Err e, (v, m))
     | (Fault p, m) \<Rightarrow> (Fault p, (v, m))
     | (Ok _, m) \<Rightarrow>
         (case restore_and_verify_state_snapshot K M (single_vcpu c) v of
            (r, v) \<Rightarrow>
              (and_then r (\<lambda>state.
                 map_ok (\<lambda>observed. \<lparr>single_page_exact = (observed = single_page c), single_vcpu_comparison = state\<rparr>)
                   (mem_read m (single_page_address c) (length (single_page c)))), (v, m))))"

definition single_exact_match :: "single_comparison \<Rightarrow> bool" where
  "single_exact_match c \<longleftrightarrow> single_page_exact c \<and> state_exact_match (single_vcpu_comparison c)"

section \<open>Specification\<close>

text \<open>
  What restoring a whole state relies on besides the laws of the single calls: writing the
  model-specific registers \<open>I\<close> leaves the general and special registers alone.  This too is a
  condition on the choice of \<open>I\<close>: it excludes the model-specific registers that are special registers
  under another name, such as \<open>EFER\<close>, \<open>IA32_APIC_BASE\<close>, \<open>IA32_FS_BASE\<close> and \<open>IA32_GS_BASE\<close>.
\<close>

definition msrs_independent :: "'k kvm_ops \<Rightarrow> 'k msr_ops \<Rightarrow> msr_index set \<Rightarrow> bool" where
  "msrs_independent K M I \<longleftrightarrow> (\<forall>es k r k'. kvm_set_msrs M es k = (r, k') \<longrightarrow> fst ` set es \<subseteq> I \<longrightarrow>
     kvm_get_regs K k' = kvm_get_regs K k \<and> kvm_get_sregs K k' = kvm_get_sregs K k)"

definition keeps_state :: "'k kvm_ops \<Rightarrow> 'k msr_ops \<Rightarrow> msr_index set \<Rightarrow> bool" where
  "keeps_state K M I \<longleftrightarrow> regs_kept K \<and> sregs_kept K \<and> sregs_independent K \<and> msrs_kept M I \<and> msrs_independent K M I"

text \<open>The states that captures return, as far as restoring them needs it.\<close>

definition vcpu_state_ok :: "msr_index set \<Rightarrow> vcpu_state \<Rightarrow> bool" where
  "vcpu_state_ok I s \<longleftrightarrow> regs_wf (to_kvm_regs (state_registers s))
     \<and> (\<exists>k. sregs_wf k \<and> state_special s = from_kvm_sregs k) \<and> msr_snapshot_ok (state_msrs s)
     \<and> access_index ` set (snapshot_policy (state_msrs s)) \<subseteq> I"

text \<open>Pages that are whole, aligned and in increasing order.\<close>

definition pages_ok :: "checkpoint_page list \<Rightarrow> bool" where
  "pages_ok ps \<longleftrightarrow> list_all (\<lambda>p. length (page_bytes p) = PAGE_LEN \<and> unat (page_address p) mod PAGE_LEN = 0) ps
     \<and> sorted_wrt (<) (map page_address ps)"

text \<open>The checkpoint of a single page as a page set, and its comparison.\<close>

definition as_page_set :: "page_checkpoint \<Rightarrow> page_set_checkpoint" where
  "as_page_set c = \<lparr>ckpt_pages = [\<lparr>page_address = single_page_address c, page_bytes = single_page c\<rparr>],
     ckpt_vcpu = single_vcpu c\<rparr>"

definition as_single_comparison :: "page_set_comparison \<Rightarrow> single_comparison" where
  "as_single_comparison c = \<lparr>single_page_exact = all_pages_exact c, single_vcpu_comparison = psc_vcpu c\<rparr>"

section \<open>Lemmas\<close>

subsection \<open>vCPU state\<close>

lemma state_compare_exact:
  assumes "length (sr_interrupt_bitmap (state_special s)) = 4" and "length (sr_interrupt_bitmap (state_special t)) = 4"
    and "msr_snapshot_ok (state_msrs s)" and "msr_snapshot_ok (state_msrs t)"
  shows "\<exists>c. state_compare s t = Ok c \<and> (state_exact_match c \<longleftrightarrow> s = t)"
proof -
  have "filter (\<lambda>f. special_value (state_special s) f \<noteq> special_value (state_special t) f) SPECIAL_FIELDS = []
      \<longleftrightarrow> state_special s = state_special t"
    using special_snapshot_eqI [OF assms(1,2)] SPECIAL_FIELDS_complete by (auto simp: filter_empty_conv)
  moreover have "s = t \<longleftrightarrow> state_registers s = state_registers t \<and> state_special s = state_special t
      \<and> state_msrs s = state_msrs t"
    by (cases s; cases t) simp
  ultimately show ?thesis
    by (simp add: state_compare_def special_compare_Ok [OF assms(1,2)] state_exact_match_def
        special_exact_match_def register_exact_match_iff msr_exact_match_iff [OF assms(3,4)])
qed

lemma capture_state_Ok:
  "capture_state_snapshot K M policy v = Ok s \<longleftrightarrow> capture_register_snapshot K v = Ok (state_registers s)
     \<and> capture_special_register_snapshot K v = Ok (state_special s) \<and> capture_msr_snapshot M policy v = Ok (state_msrs s)"
  by (cases s) (auto simp: capture_state_snapshot_def outcome_simps)

lemma restored_state_captured:
  assumes "keeps_state K M I" and "vcpu_state_ok I s" and "restore_state_snapshot K M s v = (Ok (), v')"
  shows "capture_state_snapshot K M (snapshot_policy (state_msrs s)) v' = Ok s"
proof -
  from assms(2) obtain k0 where k0: "sregs_wf k0" "state_special s = from_kvm_sregs k0"
    and wf: "regs_wf (to_kvm_regs (state_registers s))"
    and ok: "msr_snapshot_ok (state_msrs s)" and free: "access_index ` set (snapshot_policy (state_msrs s)) \<subseteq> I"
    by (auto simp: vcpu_state_ok_def)
  from assms(3) obtain k1 k2 where
    k1: "kvm_set_sregs K (encode_snapshot (state_special s)) (vcpu_fd v) = (None, k1)"
    and k2: "kvm_set_regs K (to_kvm_regs (state_registers s)) k1 = (None, k2)"
    and msrs: "restore_msr_snapshot M (state_msrs s) (v\<lparr>vcpu_fd := k2\<rparr>) = (Ok (), v')"
    by (auto simp: restore_state_snapshot_def op_then_def restore_special_register_snapshot_def
        restore_register_snapshot_def split: prod.splits option.splits)
  note laws = assms(1) [unfolded keeps_state_def]
  obtain t where t: "kvm_get_sregs K k1 = Inr t" "sregs_agree (encode_snapshot (state_special s)) t"
    using laws k1 k0 by (auto elim: sregs_keptE)
  have regs: "kvm_get_regs K k2 = Inr (to_kvm_regs (state_registers s))"
    using laws regs_keptD [OF _ k2 wf] by blast
  have sregs: "kvm_get_sregs K k2 = Inr t"
    using laws k2 t(1) unfolding sregs_independent_def by metis
  have keep: "kvm_get_regs K (vcpu_fd v') = kvm_get_regs K k2 \<and> kvm_get_sregs K (vcpu_fd v') = kvm_get_sregs K k2"
  proof (cases "snapshot_values (state_msrs s) = []")
    case True
    with msrs show ?thesis
      by (auto simp: restore_msr_snapshot_def set_msrs_def prepare_vcpu_msr_write_request_def)
  next
    case False
    with msrs obtain r where set: "kvm_set_msrs M (msr_pairs (snapshot_values (state_msrs s))) k2 = (r, vcpu_fd v')"
      by (auto simp: restore_msr_snapshot_def set_msrs_def prepare_vcpu_msr_write_request_def msr_pairs_def
          split: if_splits prod.splits sum.splits)
    have "map fst (msr_pairs (snapshot_values (state_msrs s))) = map access_index (snapshot_policy (state_msrs s))"
      using ok by (simp add: fst_msr_pairs msr_snapshot_ok_def)
    from arg_cong [OF this, of set] free
    have "fst ` set (msr_pairs (snapshot_values (state_msrs s))) \<subseteq> I" by simp
    with set laws show ?thesis unfolding msrs_independent_def by blast
  qed
  have "from_kvm_sregs t = state_special s"
    using sregs_agree_from [OF t(2)] by (simp add: k0(2))
  then show ?thesis
    using keep regs sregs restored_msrs_captured [OF _ ok free msrs] laws
    by (simp add: capture_state_snapshot_def capture_register_snapshot_def capture_special_register_snapshot_def)
qed

lemma restore_and_verify_state:
  assumes "keeps_state K M I" and "vcpu_state_ok I s" and "restore_state_snapshot K M s v = (Ok (), v')"
  obtains c where "restore_and_verify_state_snapshot K M s v = (Ok c, v')" and "state_exact_match c"
proof -
  have "length (sr_interrupt_bitmap (state_special s)) = 4" "msr_snapshot_ok (state_msrs s)"
    using assms(2) by (auto simp: vcpu_state_ok_def sregs_wf_def)
  then obtain c where "state_compare s s = (Ok c :: (_, vm_error) outcome)" "state_exact_match c"
    using state_compare_exact [of s s] by auto
  with that restored_state_captured [OF assms] assms(3) show thesis
    by (simp add: restore_and_verify_state_snapshot_def verify_state_snapshot_def op_then_def)
qed

subsection \<open>Pages\<close>

lemma adjacent_equal_sorted: "sorted as \<Longrightarrow> \<not> adjacent_equal as \<longleftrightarrow> sorted_wrt (<) as"
  by (induction as rule: adjacent_equal.induct) (auto simp: less_le)

lemma validate_page_addresses_Ok:
  "validate_page_addresses as = Ok bs \<longleftrightarrow> as \<noteq> [] \<and> length as \<le> BOUNDED_CHECKPOINT_PAGE_SET_LIMIT
     \<and> bs = sort as \<and> sorted_wrt (<) bs \<and> (\<forall>a \<in> set as. a mod LONG_MODE_PAGE_SIZE = 0)"
proof -
  have "find (\<lambda>a. a mod LONG_MODE_PAGE_SIZE \<noteq> 0) (sort as) = None \<longleftrightarrow> (\<forall>a \<in> set as. a mod LONG_MODE_PAGE_SIZE = 0)"
    by (auto simp: find_None_iff)
  then show ?thesis
    using adjacent_equal_sorted [of "sort as"]
    by (cases "find (\<lambda>a. a mod LONG_MODE_PAGE_SIZE \<noteq> 0) (sort as)")
      (auto simp: validate_page_addresses_def Let_def)
qed

lemma capture_pages_Ok:
  assumes "memory_wf m"
  shows "capture_pages m as = Ok ps \<longleftrightarrow> (\<forall>a \<in> set as. in_region (mem_region m) a PAGE_LEN)
    \<and> ps = map (\<lambda>a. \<lparr>page_address = a, page_bytes = map (guest_byte m) [unat a..<unat a + PAGE_LEN]\<rparr>) as"
  by (induction as arbitrary: ps) (auto simp: outcome_simps mem_read_Ok_iff [OF assms])

lemma pages_ok_Cons:
  "pages_ok (p # ps) \<longleftrightarrow> length (page_bytes p) = PAGE_LEN \<and> unat (page_address p) mod PAGE_LEN = 0
     \<and> (\<forall>q \<in> set ps. unat (page_address p) + PAGE_LEN \<le> unat (page_address q)) \<and> pages_ok ps"
proof -
  have "unat a + PAGE_LEN \<le> unat b \<longleftrightarrow> a < b" if "unat a mod PAGE_LEN = 0" "unat b mod PAGE_LEN = 0" for a b :: u64
    using that by (auto simp: word_less_nat_alt elim!: dvdE simp flip: dvd_eq_mod_eq_0)
  then show ?thesis by (auto simp: pages_ok_def list_all_iff)
qed

lemma restore_pages_run:
  assumes "memory_wf m" and "pages_ok ps" and "\<forall>p \<in> set ps. in_region (mem_region m) (page_address p) PAGE_LEN"
  shows "\<exists>m'. restore_pages ps m = (Ok (), m') \<and> memory_wf m' \<and> mem_region m' = mem_region m
    \<and> (\<forall>p \<in> set ps. \<forall>i < PAGE_LEN. guest_byte m' (unat (page_address p) + i) = page_bytes p ! i)
    \<and> (\<forall>x \<ge> unat (region_base (mem_region m)).
        (\<forall>p \<in> set ps. x < unat (page_address p) \<or> unat (page_address p) + PAGE_LEN \<le> x) \<longrightarrow> guest_byte m' x = guest_byte m x)"
  using assms
proof (induction ps arbitrary: m)
  case Nil
  then show ?case by (auto simp: op_return_def)
next
  case (Cons p ps)
  let ?b = "unat (region_base (mem_region m))"
  have p: "length (page_bytes p) = PAGE_LEN" "\<forall>q \<in> set ps. unat (page_address p) + PAGE_LEN \<le> unat (page_address q)" "pages_ok ps"
    using Cons.prems(2) by (simp_all add: pages_ok_Cons)
  have inr: "in_region (mem_region m) (page_address p) (length (page_bytes p))" using Cons.prems(3) p by simp
  let ?m = "poke (page_address p) (page_bytes p) m"
  have step: "restore_pages (p # ps) m = restore_pages ps ?m"
    using mem_write_inside [OF Cons.prems(1) inr] by (simp add: op_then_def)
  have byte: "guest_byte ?m x = (if unat (page_address p) \<le> x \<and> x < unat (page_address p) + PAGE_LEN
      then page_bytes p ! (x - unat (page_address p)) else guest_byte m x)" if "?b \<le> x" for x
    using guest_byte_poke [OF Cons.prems(1) inr that] p by simp
  from Cons.IH [of ?m] Cons.prems p(3) obtain m' where m': "restore_pages ps ?m = (Ok (), m')" "memory_wf m'"
    "mem_region m' = mem_region m"
    and loaded: "\<forall>q \<in> set ps. \<forall>i < PAGE_LEN. guest_byte m' (unat (page_address q) + i) = page_bytes q ! i"
    and frame: "\<And>x. ?b \<le> x \<Longrightarrow> \<forall>q \<in> set ps. x < unat (page_address q) \<or> unat (page_address q) + PAGE_LEN \<le> x
      \<Longrightarrow> guest_byte m' x = guest_byte ?m x"
    by auto
  have "?b \<le> unat (page_address p)" using inr by (simp add: in_region_def)
  then have "guest_byte m' (unat (page_address p) + i) = page_bytes p ! i" if "i < PAGE_LEN" for i
    using that frame [of "unat (page_address p) + i"] p(2) byte [of "unat (page_address p) + i"] by fastforce
  moreover have "guest_byte m' x = guest_byte m x" if "?b \<le> x"
    "\<forall>q \<in> set (p # ps). x < unat (page_address q) \<or> unat (page_address q) + PAGE_LEN \<le> x" for x
    using that frame [of x] byte [of x] by auto
  ultimately show ?case using step m' loaded by (intro exI [of _ m']) auto
qed

lemma compare_pages_exact:
  assumes "memory_wf m" and "pages_ok ps" and "\<forall>p \<in> set ps. in_region (mem_region m) (page_address p) PAGE_LEN"
    and "\<forall>p \<in> set ps. \<forall>i < PAGE_LEN. guest_byte m (unat (page_address p) + i) = page_bytes p ! i"
  shows "compare_pages ps m = Ok (map (\<lambda>p. \<lparr>pc_address = page_address p, pc_exact = True\<rparr>) ps)"
  using assms(2-)
proof (induction ps)
  case (Cons p ps)
  have "map (guest_byte m) [unat (page_address p)..<unat (page_address p) + PAGE_LEN] = page_bytes p"
    using Cons.prems by (intro nth_equalityI) (auto simp: pages_ok_Cons)
  moreover have "mem_read m (page_address p) PAGE_LEN =
      Ok (map (guest_byte m) [unat (page_address p)..<unat (page_address p) + PAGE_LEN])"
    using Cons.prems by (intro mem_read_inside [OF assms(1)]) simp
  ultimately show ?case using Cons by (simp add: pages_ok_Cons)
qed simp

text \<open>Restoring a page set: the memory holds the pages, and nothing else has changed.\<close>

lemma page_set_restored:
  assumes "keeps_state K M I" and "memory_wf m" and "vcpu_state_ok I (ckpt_vcpu c)" and "pages_ok (ckpt_pages c)"
    and inr: "\<forall>p \<in> set (ckpt_pages c). in_region (mem_region m) (page_address p) PAGE_LEN"
    and "restore_state_snapshot K M (ckpt_vcpu c) v = (Ok (), v')"
  shows "\<exists>cmp m'. page_set_restore_and_verify K M c (v, m) = (Ok cmp, (v', m')) \<and> page_set_exact_match cmp
    \<and> (\<forall>p \<in> set (ckpt_pages c). \<forall>i < PAGE_LEN. guest_byte m' (unat (page_address p) + i) = page_bytes p ! i)
    \<and> (\<forall>x \<ge> unat (region_base (mem_region m)). (\<forall>p \<in> set (ckpt_pages c).
        x < unat (page_address p) \<or> unat (page_address p) + PAGE_LEN \<le> x) \<longrightarrow> guest_byte m' x = guest_byte m x)"
proof -
  obtain sc where sc: "restore_and_verify_state_snapshot K M (ckpt_vcpu c) v = (Ok sc, v')" "state_exact_match sc"
    using restore_and_verify_state [OF assms(1,3,6)] by blast
  from restore_pages_run [OF assms(2,4) inr] obtain m' where m': "restore_pages (ckpt_pages c) m = (Ok (), m')"
    "memory_wf m'" "mem_region m' = mem_region m"
    and bytes: "\<forall>p \<in> set (ckpt_pages c). \<forall>i < PAGE_LEN. guest_byte m' (unat (page_address p) + i) = page_bytes p ! i"
    and frame: "\<forall>x \<ge> unat (region_base (mem_region m)). (\<forall>p \<in> set (ckpt_pages c).
        x < unat (page_address p) \<or> unat (page_address p) + PAGE_LEN \<le> x) \<longrightarrow> guest_byte m' x = guest_byte m x"
    by blast
  have cmp: "compare_pages (ckpt_pages c) m' = Ok (map (\<lambda>p. \<lparr>pc_address = page_address p, pc_exact = True\<rparr>) (ckpt_pages c))"
    using compare_pages_exact [OF m'(2) assms(4) _ bytes] inr m'(3) by simp
  show ?thesis
    using sc m'(1) cmp bytes frame
    by (intro exI [of _ "\<lparr>psc_pages = map (\<lambda>p. \<lparr>pc_address = page_address p, pc_exact = True\<rparr>) (ckpt_pages c), psc_vcpu = sc\<rparr>"] exI [of _ m'])
      (simp add: page_set_restore_and_verify_def page_set_exact_match_def all_pages_exact_def list_all_iff)
qed

text \<open>
  A single-page checkpoint is a page set of one page: verifying and restoring it do the same, errors
  included, and its comparison is exact when theirs is.
\<close>

lemma single_verify_page_set:
  "single_verify K M c v m = map_ok as_single_comparison (page_set_verify K M (as_page_set c) v m)"
  by (cases "mem_read m (single_page_address c) (length (single_page c))"; cases "verify_state_snapshot K M (single_vcpu c) v")
    (simp_all add: single_verify_def page_set_verify_def as_page_set_def as_single_comparison_def all_pages_exact_def)

lemma single_restore_page_set:
  "single_restore_and_verify K M c s =
     map_prod (map_ok as_single_comparison) id (page_set_restore_and_verify K M (as_page_set c) s)"
proof -
  obtain v m where s: "s = (v, m)" by fastforce
  obtain r m' where w: "mem_write (single_page_address c) (single_page c) m = (r, m')" by fastforce
  obtain q v' where q: "restore_and_verify_state_snapshot K M (single_vcpu c) v = (q, v')" by fastforce
  show ?thesis
    by (cases r; cases q; cases "mem_read m' (single_page_address c) (length (single_page c)) :: (_, vm_error) outcome")
      (simp_all add: s w q single_restore_and_verify_def page_set_restore_and_verify_def as_page_set_def op_then_def op_return_def
        as_single_comparison_def all_pages_exact_def)
qed

lemma single_exact_page_set: "single_exact_match (as_single_comparison c) \<longleftrightarrow> page_set_exact_match c"
  by (simp add: single_exact_match_def as_single_comparison_def page_set_exact_match_def)

end
