(* ===== verification/Checkpoint_Schema.thy ===== *)
theory Checkpoint_Schema
  imports State_Snapshot
begin

text \<open>
  The versioned byte format of page-set checkpoints (\<open>src/src/state_snapshot/page_set/schema_v1/\<close>:
  \<open>types.rs\<close>, \<open>codec.rs\<close>, \<open>encoding.rs\<close>, and the cursor at the head of \<open>cursor_tests.rs\<close>).

  Decoding reads untrusted bytes through a cursor.  \<open>consumes p R\<close> says that the reader \<open>p\<close> accepts
  exactly the byte strings that \<open>R\<close> relates to its results, and never panics; it is closed under
  sequencing, checks and loops, so the relation of a whole decoder is read off its text.

  The main results: decoding never panics, accepts every encoding of a valid checkpoint and returns
  that checkpoint, every checkpoint it returns is valid and can be encoded again, and a captured
  checkpoint that went through its bytes restores to the captured state.
\<close>

section \<open>Errors\<close>

text \<open>Where the sources keep the text of an error, the model keeps the error.\<close>

datatype (plugins only: code) schema_error =
    Schema_InvalidMagic
  | Schema_UnsupportedVersion u16
  | Schema_UnsupportedArchitecture u16
  | Schema_InvalidHeaderLength u32
  | Schema_InvalidTotalLength u64 usize
  | Schema_InvalidPageSize u32
  | Schema_InvalidPageCount u16
  | Schema_InvalidMsrCount u16
  | Schema_NonZeroFlags u32
  | Schema_NonZeroReserved string u64
  | Schema_LengthOverflow
  | Schema_Truncated usize usize usize
  | Schema_UnalignedPage u64
  | Schema_PageAddressOverflow u64
  | Schema_NonCanonicalPageOrder u64 u64
  | Schema_InvalidPageLength u64 usize
  | Schema_InvalidSegmentField u8 string u8
  | Schema_NonCanonicalMsrOrder u32 u32
  | Schema_HostMsrIncompatible msr_policy_error
  | Schema_MsrValueSet msr_value_set_error
  | Schema_MsrSnapshot msr_snapshot_error

abbreviation VERSIONED_PAGE_VCPU_CHECKPOINT_MSR_LIMIT :: usize where
  "VERSIONED_PAGE_VCPU_CHECKPOINT_MSR_LIMIT \<equiv> 256"
abbreviation SCHEMA_HEADER_LEN :: usize where "SCHEMA_HEADER_LEN \<equiv> 40"
abbreviation REGISTER_BLOCK_LEN :: usize where "REGISTER_BLOCK_LEN \<equiv> 144"
abbreviation SPECIAL_REGISTER_BLOCK_LEN :: usize where "SPECIAL_REGISTER_BLOCK_LEN \<equiv> 312"
abbreviation PAGE_RECORD_LEN :: usize where "PAGE_RECORD_LEN \<equiv> 4104"
abbreviation MSR_RECORD_LEN :: usize where "MSR_RECORD_LEN \<equiv> 16"

definition CHECKPOINT_MAGIC :: "u8 list" where
  "CHECKPOINT_MAGIC = [0x4d, 0x48, 0x56, 0x43, 0x4b, 0x50, 0x54, 0]"

section \<open>The cursor\<close>

record cursor =
  cur_bytes :: "u8 list"
  cur_offset :: usize

definition cursor_new :: "u8 list \<Rightarrow> cursor" where
  "cursor_new bytes = \<lparr>cur_bytes = bytes, cur_offset = 0\<rparr>"

definition cursor_remaining :: "cursor \<Rightarrow> usize" where
  "cursor_remaining c = length (cur_bytes c) - cur_offset c"

definition cursor_take :: "usize \<Rightarrow> (cursor, u8 list, schema_error) op" where
  "cursor_take n c =
     (if cursor_remaining c < n then (Err (Schema_Truncated (cur_offset c) n (cursor_remaining c)), c)
      else (index_range (cur_bytes c) (cur_offset c) (cur_offset c + n), c\<lparr>cur_offset := cur_offset c + n\<rparr>))"

definition cursor_array :: "usize \<Rightarrow> (cursor, u8 list, schema_error) op" where
  "cursor_array n = op_then (cursor_take n) (\<lambda>bs. op_lift (expect (if length bs = n then Some bs else None)))"

definition cursor_u8 :: "(cursor, u8, schema_error) op" where
  "cursor_u8 = op_then (cursor_take 1) (\<lambda>bs. op_lift (if 0 < length bs then Ok (bs ! 0) else Fault Index_Out_Of_Range))"

definition cursor_u16 :: "(cursor, u16, schema_error) op" where
  "cursor_u16 = op_then (cursor_array 2) (\<lambda>bs. op_return (from_le_bytes bs))"

definition cursor_u32 :: "(cursor, u32, schema_error) op" where
  "cursor_u32 = op_then (cursor_array 4) (\<lambda>bs. op_return (from_le_bytes bs))"

definition cursor_u64 :: "(cursor, u64, schema_error) op" where
  "cursor_u64 = op_then (cursor_array 8) (\<lambda>bs. op_return (from_le_bytes bs))"

section \<open>Registers\<close>

definition encode_registers :: "register_snapshot \<Rightarrow> u8 list" where
  "encode_registers r = concat (map to_le_bytes [rs_rax r, rs_rbx r, rs_rcx r, rs_rdx r, rs_rsi r, rs_rdi r, rs_rsp r,
     rs_rbp r, rs_r8 r, rs_r9 r, rs_r10 r, rs_r11 r, rs_r12 r, rs_r13 r, rs_r14 r, rs_r15 r, rs_rip r, rs_rflags r])"

definition decode_registers :: "(cursor, kvm_regs, schema_error) op" where
  "decode_registers =
     op_then cursor_u64 (\<lambda>rax. op_then cursor_u64 (\<lambda>rbx. op_then cursor_u64 (\<lambda>rcx. op_then cursor_u64 (\<lambda>rdx.
     op_then cursor_u64 (\<lambda>rsi. op_then cursor_u64 (\<lambda>rdi. op_then cursor_u64 (\<lambda>rsp. op_then cursor_u64 (\<lambda>rbp.
     op_then cursor_u64 (\<lambda>r8. op_then cursor_u64 (\<lambda>r9. op_then cursor_u64 (\<lambda>r10. op_then cursor_u64 (\<lambda>r11.
     op_then cursor_u64 (\<lambda>r12. op_then cursor_u64 (\<lambda>r13. op_then cursor_u64 (\<lambda>r14. op_then cursor_u64 (\<lambda>r15.
     op_then cursor_u64 (\<lambda>rip. op_then cursor_u64 (\<lambda>rflags.
     op_return \<lparr>kr_rax = rax, kr_rbx = rbx, kr_rcx = rcx, kr_rdx = rdx, kr_rsi = rsi, kr_rdi = rdi, kr_rsp = rsp,
       kr_rbp = rbp, kr_r8 = r8, kr_r9 = r9, kr_r10 = r10, kr_r11 = r11, kr_r12 = r12, kr_r13 = r13, kr_r14 = r14,
       kr_r15 = r15, kr_rip = rip, kr_rflags = rflags\<rparr>))))))))))))))))))"

definition encode_segment :: "segment_state \<Rightarrow> u8 list" where
  "encode_segment s = to_le_bytes (seg_base s) @ to_le_bytes (seg_limit s) @ to_le_bytes (seg_selector s) @
     [seg_segment_type s, seg_present s, seg_dpl s, seg_db s, seg_s s, seg_l s, seg_g s, seg_avl s, seg_unusable s, 0]"

definition check_segment :: "u8 \<Rightarrow> kvm_segment \<Rightarrow> u8 \<Rightarrow> (kvm_segment, schema_error) outcome" where
  "check_segment segment k reserved =
     (if 0x0f < kseg_segment_type k then Err (Schema_InvalidSegmentField segment ''type'' (kseg_segment_type k))
      else if 3 < kseg_dpl k then Err (Schema_InvalidSegmentField segment ''dpl'' (kseg_dpl k))
      else case find (\<lambda>(_, x). 1 < x) [(''present'', kseg_present k), (''db'', kseg_db k), (''s'', kseg_s k),
          (''l'', kseg_l k), (''g'', kseg_g k), (''avl'', kseg_avl k), (''unusable'', kseg_unusable k)] of
        Some (field, x) \<Rightarrow> Err (Schema_InvalidSegmentField segment field x)
      | None \<Rightarrow>
          if reserved \<noteq> 0 then Err (Schema_NonZeroReserved ''segment.reserved'' (ucast reserved)) else Ok k)"

definition decode_segment :: "u8 \<Rightarrow> (cursor, kvm_segment, schema_error) op" where
  "decode_segment segment =
     op_then cursor_u64 (\<lambda>base. op_then cursor_u32 (\<lambda>limit. op_then cursor_u16 (\<lambda>selector.
     op_then cursor_u8 (\<lambda>type. op_then cursor_u8 (\<lambda>present. op_then cursor_u8 (\<lambda>dpl. op_then cursor_u8 (\<lambda>db.
     op_then cursor_u8 (\<lambda>s. op_then cursor_u8 (\<lambda>l. op_then cursor_u8 (\<lambda>g. op_then cursor_u8 (\<lambda>avl.
     op_then cursor_u8 (\<lambda>unusable. op_then cursor_u8 (\<lambda>reserved.
     op_lift (check_segment segment
       \<lparr>kseg_base = base, kseg_limit = limit, kseg_selector = selector, kseg_segment_type = type,
        kseg_present = present, kseg_dpl = dpl, kseg_db = db, kseg_s = s, kseg_l = l, kseg_g = g,
        kseg_avl = avl, kseg_unusable = unusable, kseg_padding = 0\<rparr> reserved))))))))))))))"

definition encode_dtable :: "table_state \<Rightarrow> u8 list" where
  "encode_dtable t = to_le_bytes (tab_base t) @ to_le_bytes (tab_limit t) @ [0, 0, 0, 0, 0, 0]"

definition decode_dtable :: "string \<Rightarrow> (cursor, kvm_dtable, schema_error) op" where
  "decode_dtable reserved_field =
     op_then cursor_u64 (\<lambda>base. op_then cursor_u16 (\<lambda>limit. op_then (cursor_take 6) (\<lambda>reserved.
     op_lift (
       if list_ex (\<lambda>b. b \<noteq> 0) reserved
       then Err (Schema_NonZeroReserved reserved_field
         (fold (\<lambda>(i, b) acc. acc OR push_bit (8 * i) (ucast b)) (List.enumerate 0 reserved) 0))
       else Ok \<lparr>kdt_base = base, kdt_limit = limit, kdt_padding = [0, 0, 0]\<rparr>))))"

definition encode_special_registers :: "special_snapshot \<Rightarrow> (u8 list, 'e) outcome" where
  "encode_special_registers s =
     (if length (sr_interrupt_bitmap s) < 4 then Fault Index_Out_Of_Range else
      Ok (concat (map encode_segment [sr_cs s, sr_ds s, sr_es s, sr_fs s, sr_gs s, sr_ss s, sr_tr s, sr_ldt s])
        @ encode_dtable (sr_gdt s) @ encode_dtable (sr_idt s)
        @ concat (map to_le_bytes [sr_cr0 s, sr_cr2 s, sr_cr3 s, sr_cr4 s, sr_cr8 s, sr_efer s, sr_apic_base s,
            sr_interrupt_bitmap s ! 0, sr_interrupt_bitmap s ! 1, sr_interrupt_bitmap s ! 2, sr_interrupt_bitmap s ! 3])))"

definition decode_special_registers :: "(cursor, kvm_sregs, schema_error) op" where
  "decode_special_registers =
     op_then (decode_segment 0) (\<lambda>cs. op_then (decode_segment 1) (\<lambda>ds. op_then (decode_segment 2) (\<lambda>es.
     op_then (decode_segment 3) (\<lambda>fs. op_then (decode_segment 4) (\<lambda>gs. op_then (decode_segment 5) (\<lambda>ss.
     op_then (decode_segment 6) (\<lambda>tr. op_then (decode_segment 7) (\<lambda>ldt.
     op_then (decode_dtable ''gdt.reserved'') (\<lambda>gdt. op_then (decode_dtable ''idt.reserved'') (\<lambda>idt.
     op_then cursor_u64 (\<lambda>cr0. op_then cursor_u64 (\<lambda>cr2. op_then cursor_u64 (\<lambda>cr3. op_then cursor_u64 (\<lambda>cr4.
     op_then cursor_u64 (\<lambda>cr8. op_then cursor_u64 (\<lambda>efer. op_then cursor_u64 (\<lambda>apic_base.
     op_then cursor_u64 (\<lambda>b0. op_then cursor_u64 (\<lambda>b1. op_then cursor_u64 (\<lambda>b2. op_then cursor_u64 (\<lambda>b3.
     op_return \<lparr>ks_cs = cs, ks_ds = ds, ks_es = es, ks_fs = fs, ks_gs = gs, ks_ss = ss, ks_tr = tr, ks_ldt = ldt,
       ks_gdt = gdt, ks_idt = idt, ks_cr0 = cr0, ks_cr2 = cr2, ks_cr3 = cr3, ks_cr4 = cr4, ks_cr8 = cr8,
       ks_efer = efer, ks_apic_base = apic_base, ks_interrupt_bitmap = [b0, b1, b2, b3]\<rparr>)))))))))))))))))))))"

section \<open>Validation\<close>

definition encoded_length :: "usize \<Rightarrow> usize \<Rightarrow> (usize, schema_error) outcome" where
  "encoded_length page_count msr_count =
     and_then (ok_or (usize_checked (PAGE_RECORD_LEN * page_count)) Schema_LengthOverflow) (\<lambda>pages.
     and_then (ok_or (usize_checked (MSR_RECORD_LEN * msr_count)) Schema_LengthOverflow) (\<lambda>msrs.
     ok_or (Option.bind (usize_checked (SCHEMA_HEADER_LEN + pages)) (\<lambda>n.
       Option.bind (usize_checked (n + REGISTER_BLOCK_LEN)) (\<lambda>n.
       Option.bind (usize_checked (n + SPECIAL_REGISTER_BLOCK_LEN)) (\<lambda>n. usize_checked (n + msrs)))))
       Schema_LengthOverflow))"

definition count_u16 :: "usize \<Rightarrow> u16" where
  "count_u16 n = (if n < 65536 then of_nat n else - 1)"

definition validate_page_address :: "u64 \<Rightarrow> (unit, schema_error) outcome" where
  "validate_page_address a =
     (if a mod LONG_MODE_PAGE_SIZE \<noteq> 0 then Err (Schema_UnalignedPage a)
      else map_ok (\<lambda>_. ()) (ok_or (checked_add a LONG_MODE_PAGE_SIZE) (Schema_PageAddressOverflow a)))"

fun validate_pages_from :: "u64 option \<Rightarrow> checkpoint_page list \<Rightarrow> (unit, schema_error) outcome" where
  "validate_pages_from previous [] = Ok ()"
| "validate_pages_from previous (p # ps) =
     (let address = page_address p in
      and_then (validate_page_address address) (\<lambda>_.
      if length (page_bytes p) \<noteq> PAGE_LEN then Err (Schema_InvalidPageLength address (length (page_bytes p)))
      else case previous of
        Some prev \<Rightarrow>
          if address \<le> prev then Err (Schema_NonCanonicalPageOrder prev address)
          else validate_pages_from (Some address) ps
      | None \<Rightarrow> validate_pages_from (Some address) ps))"

definition validate_pages :: "checkpoint_page list \<Rightarrow> (unit, schema_error) outcome" where
  "validate_pages pages =
     (if pages = [] \<or> BOUNDED_CHECKPOINT_PAGE_SET_LIMIT < length pages
      then Err (Schema_InvalidPageCount (count_u16 (length pages)))
      else validate_pages_from None pages)"

fun validate_msr_order_from :: "u32 option \<Rightarrow> (msr_index \<times> u64) list \<Rightarrow> (unit, schema_error) outcome" where
  "validate_msr_order_from previous [] = Ok ()"
| "validate_msr_order_from previous ((current, _) # ms) =
     (case previous of
        Some prev \<Rightarrow>
          if current \<le> prev then Err (Schema_NonCanonicalMsrOrder prev current)
          else validate_msr_order_from (Some current) ms
      | None \<Rightarrow> validate_msr_order_from (Some current) ms)"

definition validate_msr_order :: "(msr_index \<times> u64) list \<Rightarrow> (unit, schema_error) outcome" where
  "validate_msr_order msrs = validate_msr_order_from None msrs"

section \<open>Page-set checkpoints\<close>

record versioned_checkpoint =
  vc_pages :: "checkpoint_page list"
  vc_registers :: register_snapshot
  vc_special :: special_snapshot
  vc_msrs :: "(msr_index \<times> u64) list"

definition from_checkpoint :: "page_set_checkpoint \<Rightarrow> (versioned_checkpoint, schema_error) outcome" where
  "from_checkpoint c =
     and_then (validate_pages (ckpt_pages c)) (\<lambda>_.
     let msrs = msr_pairs (snapshot_values (state_msrs (ckpt_vcpu c))) in
     if VERSIONED_PAGE_VCPU_CHECKPOINT_MSR_LIMIT < length msrs
     then Err (Schema_InvalidMsrCount (count_u16 (length msrs)))
     else
       let msrs = sort_key fst msrs in
       and_then (validate_msr_order msrs) (\<lambda>_.
       Ok \<lparr>vc_pages = ckpt_pages c, vc_registers = state_registers (ckpt_vcpu c),
         vc_special = state_special (ckpt_vcpu c), vc_msrs = msrs\<rparr>))"

definition encode_page :: "checkpoint_page \<Rightarrow> u8 list" where
  "encode_page p = to_le_bytes (page_address p) @ page_bytes p"

definition encode_msr :: "msr_index \<times> u64 \<Rightarrow> u8 list" where
  "encode_msr = (\<lambda>(i, x). to_le_bytes i @ to_le_bytes (0 :: u32) @ to_le_bytes x)"

definition count_expect :: "usize \<Rightarrow> (u16, 'e) outcome" where
  "count_expect n = expect (if n < 65536 then Some (of_nat n) else None)"

definition checkpoint_encode :: "versioned_checkpoint \<Rightarrow> (u8 list, schema_error) outcome" where
  "checkpoint_encode v =
     and_then (validate_pages (vc_pages v)) (\<lambda>_.
     and_then (validate_msr_order (vc_msrs v)) (\<lambda>_.
     if VERSIONED_PAGE_VCPU_CHECKPOINT_MSR_LIMIT < length (vc_msrs v)
     then Err (Schema_InvalidMsrCount (count_u16 (length (vc_msrs v))))
     else
       and_then (encoded_length (length (vc_pages v)) (length (vc_msrs v))) (\<lambda>total_len.
       and_then (count_expect (length (vc_pages v))) (\<lambda>page_count.
       and_then (count_expect (length (vc_msrs v))) (\<lambda>msr_count.
       and_then (encode_special_registers (vc_special v)) (\<lambda>special.
       let bytes = CHECKPOINT_MAGIC @ to_le_bytes (1 :: u16) @ to_le_bytes (1 :: u16)
             @ to_le_bytes (of_nat SCHEMA_HEADER_LEN :: u32) @ to_le_bytes (of_nat total_len :: u64)
             @ to_le_bytes (of_nat PAGE_LEN :: u32) @ to_le_bytes page_count @ to_le_bytes msr_count
             @ to_le_bytes (0 :: u32) @ to_le_bytes (0 :: u32)
             @ concat (map encode_page (vc_pages v)) @ encode_registers (vc_registers v) @ special
             @ concat (map encode_msr (vc_msrs v)) in
       and_then (debug_assert (length bytes = total_len)) (\<lambda>_. Ok bytes)))))))"

fun decode_pages :: "nat \<Rightarrow> u64 option \<Rightarrow> (cursor, checkpoint_page list, schema_error) op" where
  "decode_pages 0 previous = op_return []"
| "decode_pages (Suc n) previous =
     op_then cursor_u64 (\<lambda>address.
     op_then (op_lift (validate_page_address address)) (\<lambda>_.
     op_then (op_lift (case previous of
       Some prev \<Rightarrow> if address \<le> prev then Err (Schema_NonCanonicalPageOrder prev address) else Ok ()
     | None \<Rightarrow> Ok ())) (\<lambda>_.
     op_then (cursor_take PAGE_LEN) (\<lambda>bytes.
     op_then (decode_pages n (Some address)) (\<lambda>ps.
     op_return (\<lparr>page_address = address, page_bytes = bytes\<rparr> # ps))))))"

fun decode_msrs :: "string \<Rightarrow> nat \<Rightarrow> u32 option \<Rightarrow> (cursor, (msr_index \<times> u64) list, schema_error) op" where
  "decode_msrs field 0 previous = op_return []"
| "decode_msrs field (Suc n) previous =
     op_then cursor_u32 (\<lambda>index.
     op_then cursor_u32 (\<lambda>reserved.
     op_then (op_lift (if reserved \<noteq> 0 then Err (Schema_NonZeroReserved field (ucast reserved)) else Ok ())) (\<lambda>_.
     op_then (op_lift (case previous of
       Some prev \<Rightarrow> if index \<le> prev then Err (Schema_NonCanonicalMsrOrder prev index) else Ok ()
     | None \<Rightarrow> Ok ())) (\<lambda>_.
     op_then cursor_u64 (\<lambda>x.
     op_then (decode_msrs field n (Some index)) (\<lambda>ms.
     op_return ((index, x) # ms)))))))"

text \<open>A check of the decoder: go on, or stop with an error.\<close>

definition require :: "bool \<Rightarrow> 'e \<Rightarrow> ('s, unit, 'e) op" where
  "require b e = op_lift (if b then Ok () else Err e)"

text \<open>The fields in the order of the format; the length declared by the header is kept for the last check.\<close>

definition decode_checkpoint_body :: "u8 list \<Rightarrow> (cursor, u64 \<times> versioned_checkpoint, schema_error) op" where
  "decode_checkpoint_body bytes =
     op_then (cursor_take 8) (\<lambda>magic.
     op_then (require (magic = CHECKPOINT_MAGIC) Schema_InvalidMagic) (\<lambda>_.
     op_then cursor_u16 (\<lambda>version. op_then (require (version = 1) (Schema_UnsupportedVersion version)) (\<lambda>_.
     op_then cursor_u16 (\<lambda>architecture.
     op_then (require (architecture = 1) (Schema_UnsupportedArchitecture architecture)) (\<lambda>_.
     op_then cursor_u32 (\<lambda>header_len.
     op_then (require (header_len = of_nat SCHEMA_HEADER_LEN) (Schema_InvalidHeaderLength header_len)) (\<lambda>_.
     op_then cursor_u64 (\<lambda>declared_total.
     op_then (require (declared_total = of_nat (length bytes))
       (Schema_InvalidTotalLength declared_total (length bytes))) (\<lambda>_.
     op_then cursor_u32 (\<lambda>page_size.
     op_then (require (page_size = of_nat PAGE_LEN) (Schema_InvalidPageSize page_size)) (\<lambda>_.
     op_then cursor_u16 (\<lambda>page_count.
     op_then (require (page_count \<noteq> 0 \<and> unat page_count \<le> BOUNDED_CHECKPOINT_PAGE_SET_LIMIT)
       (Schema_InvalidPageCount page_count)) (\<lambda>_.
     op_then cursor_u16 (\<lambda>msr_count.
     op_then (require (unat msr_count \<le> VERSIONED_PAGE_VCPU_CHECKPOINT_MSR_LIMIT) (Schema_InvalidMsrCount msr_count)) (\<lambda>_.
     op_then cursor_u32 (\<lambda>flags. op_then (require (flags = 0) (Schema_NonZeroFlags flags)) (\<lambda>_.
     op_then cursor_u32 (\<lambda>reserved.
     op_then (require (reserved = 0) (Schema_NonZeroReserved ''header.reserved'' (ucast reserved))) (\<lambda>_.
     op_then (op_lift (encoded_length (unat page_count) (unat msr_count))) (\<lambda>expected_len.
     op_then (require (expected_len = length bytes) (Schema_InvalidTotalLength declared_total expected_len)) (\<lambda>_.
     op_then (decode_pages (unat page_count) None) (\<lambda>pages.
     op_then decode_registers (\<lambda>regs.
     op_then decode_special_registers (\<lambda>sregs.
     op_then (decode_msrs ''msr.reserved'' (unat msr_count) None) (\<lambda>msrs.
     op_return (declared_total, \<lparr>vc_pages = pages, vc_registers = from_kvm_regs regs,
       vc_special = from_kvm_sregs sregs, vc_msrs = msrs\<rparr>)))))))))))))))))))))))))))"

definition checkpoint_decode :: "u8 list \<Rightarrow> (versioned_checkpoint, schema_error) outcome" where
  "checkpoint_decode bytes =
     (case decode_checkpoint_body bytes (cursor_new bytes) of
        (r, c) \<Rightarrow> and_then r (\<lambda>(declared_total, v).
          if cursor_remaining c \<noteq> 0 then Err (Schema_InvalidTotalLength declared_total (cur_offset c)) else Ok v))"

definition materialize_msrs :: "host_msr_index_list \<Rightarrow> (msr_index \<times> u64) list \<Rightarrow> (msr_snapshot, schema_error) outcome" where
  "materialize_msrs host msrs =
     and_then (map_err Schema_HostMsrIncompatible (policy_from_host host (map fst msrs))) (\<lambda>policy.
     and_then (map_err Schema_MsrValueSet (value_set_from_policy policy msrs)) (\<lambda>vals.
     map_err Schema_MsrSnapshot (msr_from_capture policy vals)))"

definition versioned_materialize ::
  "versioned_checkpoint \<Rightarrow> host_msr_index_list \<Rightarrow> (page_set_checkpoint, schema_error) outcome" where
  "versioned_materialize v host =
     and_then (validate_pages (vc_pages v)) (\<lambda>_.
     and_then (validate_msr_order (vc_msrs v)) (\<lambda>_.
     map_ok (\<lambda>msrs. \<lparr>ckpt_pages = vc_pages v,
       ckpt_vcpu = \<lparr>state_registers = vc_registers v, state_special = vc_special v, state_msrs = msrs\<rparr>\<rparr>)
       (materialize_msrs host (vc_msrs v))))"

section \<open>Specification\<close>

text \<open>
  A reader accepts exactly the byte strings that the relation gives for its result, advances past
  them, and never panics.
\<close>

definition consumes :: "(cursor, 'a, 'e) op \<Rightarrow> ('a \<Rightarrow> u8 list \<Rightarrow> bool) \<Rightarrow> bool" where
  "consumes p R \<longleftrightarrow> (\<forall>c. cur_offset c \<le> length (cur_bytes c) \<longrightarrow> \<not> is_fault (fst (p c))
     \<and> (\<forall>v c'. p c = (Ok v, c') \<longleftrightarrow> (\<exists>bs rest. drop (cur_offset c) (cur_bytes c) = bs @ rest \<and> R v bs
         \<and> c' = c\<lparr>cur_offset := cur_offset c + length bs\<rparr>)))"

text \<open>The registers a decoder accepts, and the bytes it reads them from.\<close>

definition kvm_segment_ok :: "kvm_segment \<Rightarrow> bool" where
  "kvm_segment_ok k \<longleftrightarrow> kseg_segment_type k \<le> 0x0f \<and> kseg_dpl k \<le> 3 \<and> kseg_padding k = 0
     \<and> kseg_present k \<le> 1 \<and> kseg_db k \<le> 1 \<and> kseg_s k \<le> 1 \<and> kseg_l k \<le> 1 \<and> kseg_g k \<le> 1
     \<and> kseg_avl k \<le> 1 \<and> kseg_unusable k \<le> 1"

definition raw_segment :: "kvm_segment \<Rightarrow> u8 list" where
  "raw_segment k = to_le_bytes (kseg_base k) @ to_le_bytes (kseg_limit k) @ to_le_bytes (kseg_selector k) @
     [kseg_segment_type k, kseg_present k, kseg_dpl k, kseg_db k, kseg_s k, kseg_l k, kseg_g k, kseg_avl k,
      kseg_unusable k, 0]"

definition kvm_sregs_ok :: "kvm_sregs \<Rightarrow> bool" where
  "kvm_sregs_ok k \<longleftrightarrow>
     list_all kvm_segment_ok [ks_cs k, ks_ds k, ks_es k, ks_fs k, ks_gs k, ks_ss k, ks_tr k, ks_ldt k]
     \<and> kdt_padding (ks_gdt k) = [0, 0, 0] \<and> kdt_padding (ks_idt k) = [0, 0, 0] \<and> length (ks_interrupt_bitmap k) = 4"

definition raw_sregs :: "kvm_sregs \<Rightarrow> u8 list" where
  "raw_sregs k =
     concat (map raw_segment [ks_cs k, ks_ds k, ks_es k, ks_fs k, ks_gs k, ks_ss k, ks_tr k, ks_ldt k])
     @ encode_dtable (from_kvm_dtable (ks_gdt k)) @ encode_dtable (from_kvm_dtable (ks_idt k))
     @ concat (map to_le_bytes ([ks_cr0 k, ks_cr2 k, ks_cr3 k, ks_cr4 k, ks_cr8 k, ks_efer k, ks_apic_base k]
         @ ks_interrupt_bitmap k))"

text \<open>Valid checkpoints, and the bytes of a checkpoint with its special registers given as bytes.\<close>

definition segment_state_ok :: "segment_state \<Rightarrow> bool" where
  "segment_state_ok s \<longleftrightarrow> kvm_segment_ok (to_kvm_segment s)
     \<and> canonical_segment_type (seg_segment_type s) (seg_unusable s) = seg_segment_type s"

definition special_ok :: "special_snapshot \<Rightarrow> bool" where
  "special_ok s \<longleftrightarrow>
     list_all segment_state_ok [sr_cs s, sr_ds s, sr_es s, sr_fs s, sr_gs s, sr_ss s, sr_tr s, sr_ldt s]
     \<and> length (sr_interrupt_bitmap s) = 4"

definition contents_ok :: "versioned_checkpoint \<Rightarrow> bool" where
  "contents_ok v \<longleftrightarrow> vc_pages v \<noteq> [] \<and> length (vc_pages v) \<le> BOUNDED_CHECKPOINT_PAGE_SET_LIMIT \<and> pages_ok (vc_pages v)
     \<and> (\<forall>p \<in> set (vc_pages v). unat (page_address p) + PAGE_LEN < 2 ^ 64)
     \<and> length (vc_msrs v) \<le> VERSIONED_PAGE_VCPU_CHECKPOINT_MSR_LIMIT \<and> sorted_wrt (<) (map fst (vc_msrs v))"

definition checkpoint_ok :: "versioned_checkpoint \<Rightarrow> bool" where
  "checkpoint_ok v \<longleftrightarrow> contents_ok v \<and> special_ok (vc_special v)"

definition checkpoint_length :: "versioned_checkpoint \<Rightarrow> nat" where
  "checkpoint_length v = 496 + PAGE_RECORD_LEN * length (vc_pages v) + MSR_RECORD_LEN * length (vc_msrs v)"

definition raw_checkpoint :: "versioned_checkpoint \<Rightarrow> u8 list \<Rightarrow> u8 list" where
  "raw_checkpoint v special = CHECKPOINT_MAGIC @ to_le_bytes (1 :: u16) @ to_le_bytes (1 :: u16)
     @ to_le_bytes (40 :: u32) @ to_le_bytes (of_nat (checkpoint_length v) :: u64)
     @ to_le_bytes (4096 :: u32) @ to_le_bytes (of_nat (length (vc_pages v)) :: u16)
     @ to_le_bytes (of_nat (length (vc_msrs v)) :: u16) @ to_le_bytes (0 :: u32) @ to_le_bytes (0 :: u32)
     @ concat (map encode_page (vc_pages v)) @ encode_registers (vc_registers v) @ special
     @ concat (map encode_msr (vc_msrs v))"

text \<open>
  An example host: it stores both register files and the model-specific registers, here with one
  register in the policy.
\<close>

type_synonym example_fd = "(kvm_regs \<times> kvm_sregs) \<times> (u32 \<Rightarrow> u64)"

definition example_host :: "example_fd kvm_ops" where
  "example_host = \<lparr>kvm_run_vcpu = (\<lambda>k run. (None, k, run)), kvm_get_regs = (\<lambda>(k, _). kvm_get_regs example_kvm k),
     kvm_set_regs = (\<lambda>r (k, f). map_prod id (\<lambda>k'. (k', f)) (kvm_set_regs example_kvm r k)),
     kvm_get_sregs = (\<lambda>(k, _). kvm_get_sregs example_kvm k),
     kvm_set_sregs = (\<lambda>s (k, f). map_prod id (\<lambda>k'. (k', f)) (kvm_set_sregs example_kvm s k))\<rparr>"

fun write_msrs :: "(u32 \<times> u64) list \<Rightarrow> (u32 \<Rightarrow> u64) \<Rightarrow> u32 \<Rightarrow> u64" where
  "write_msrs [] f = f"
| "write_msrs ((i, x) # es) f = write_msrs es (f(i := x))"

definition example_msrs :: "example_fd msr_ops" where
  "example_msrs = \<lparr>kvm_get_msrs = (\<lambda>es (_, f). Inr (length es, map (\<lambda>(i, _). (i, f i)) es)),
     kvm_set_msrs = (\<lambda>es (k, f). (Inr (length es), (k, write_msrs es f)))\<rparr>"

definition example_policy :: msr_policy where
  "example_policy = [\<lparr>access_index = 0xc0000102, access_authority = ReadWrite\<rparr>,
     \<lparr>access_index = 0x174, access_authority = ReadWrite\<rparr>]"

definition example_source :: "kvm_sregs \<Rightarrow> (u32 \<Rightarrow> u64) \<Rightarrow> example_fd vcpu" where
  "example_source k f = \<lparr>vcpu_id = 0, vcpu_fd = ((kvm_regs_default, k), f), vcpu_run = [],
     vcpu_supports_internal_error_data = True\<rparr>"

definition example_versioned :: versioned_checkpoint where
  "example_versioned = \<lparr>vc_pages = [\<lparr>page_address = 0x9000, page_bytes = replicate PAGE_LEN 0xf4\<rparr>],
     vc_registers = from_kvm_regs kvm_regs_default, vc_special = from_kvm_sregs example_sregs, vc_msrs = [(0x174, 8)]\<rparr>"

named_theorems reader_intros

section \<open>Byte formats\<close>

text \<open>
  What the users of a format rely on: decoding is safe on every input and returns only valid values,
  and every valid value has an encoding that decodes to it.
\<close>

locale byte_format =
  fixes encode :: "'v \<Rightarrow> (u8 list, 'e) outcome"
    and decode :: "u8 list \<Rightarrow> ('v, 'e) outcome"
    and valid :: "'v \<Rightarrow> bool"
  assumes decode_total: "\<not> is_fault (decode bytes)"
    and decode_valid: "decode bytes = Ok v \<Longrightarrow> valid v"
    and encode_decode: "valid v \<Longrightarrow> \<exists>bytes. encode v = Ok bytes \<and> decode bytes = Ok v"
begin

lemma encoded_decodes: "valid v \<Longrightarrow> encode v = Ok bytes \<Longrightarrow> decode bytes = Ok v"
  using encode_decode by fastforce

lemma encode_injective:
  assumes "valid v" and "valid w" and "encode v = encode w"
  shows "v = w"
  using encode_decode [OF assms(1)] encode_decode [OF assms(2)] assms(3) by auto

lemma valid_iff_decodable: "valid v \<longleftrightarrow> (\<exists>bytes. decode bytes = Ok v)"
  using encode_decode decode_valid by blast

lemma decode_reencode:
  assumes "decode bytes = Ok v"
  shows "\<exists>bytes'. encode v = Ok bytes' \<and> decode bytes' = Ok v"
  using encode_decode [OF decode_valid [OF assms]] .

end

section \<open>Lemmas\<close>

subsection \<open>Readers\<close>

lemma consumesI:
  assumes "\<And>pre rest v c'. p \<lparr>cur_bytes = pre @ rest, cur_offset = length pre\<rparr> = (Ok v, c') \<longleftrightarrow>
      (\<exists>bs rest'. rest = bs @ rest' \<and> R v bs \<and> c' = \<lparr>cur_bytes = pre @ rest, cur_offset = length pre + length bs\<rparr>)"
    and "\<And>pre rest. \<not> is_fault (fst (p \<lparr>cur_bytes = pre @ rest, cur_offset = length pre\<rparr>))"
  shows "consumes p R"
  unfolding consumes_def
proof (intro allI impI)
  fix c :: cursor
  assume off: "cur_offset c \<le> length (cur_bytes c)"
  obtain bytes off' where c: "c = \<lparr>cur_bytes = bytes, cur_offset = off'\<rparr>" by (cases c) auto
  define pre rest where "pre = take off' bytes" and "rest = drop off' bytes"
  have "bytes = pre @ rest" "off' = length pre" "drop off' bytes = rest" using off by (simp_all add: pre_def rest_def c)
  then show "\<not> is_fault (fst (p c)) \<and> (\<forall>v c'. p c = (Ok v, c') \<longleftrightarrow>
      (\<exists>bs rest. drop (cur_offset c) (cur_bytes c) = bs @ rest \<and> R v bs \<and> c' = c\<lparr>cur_offset := cur_offset c + length bs\<rparr>))"
    using assms [of pre rest] by (simp add: c)
qed

lemma consumesD:
  assumes "consumes p R"
  shows "p \<lparr>cur_bytes = pre @ rest, cur_offset = length pre\<rparr> = (Ok v, c') \<longleftrightarrow>
      (\<exists>bs rest'. rest = bs @ rest' \<and> R v bs \<and> c' = \<lparr>cur_bytes = pre @ rest, cur_offset = length pre + length bs\<rparr>)"
    and "\<not> is_fault (fst (p \<lparr>cur_bytes = pre @ rest, cur_offset = length pre\<rparr>))"
  using assms unfolding consumes_def by (auto dest!: spec [of _ "\<lparr>cur_bytes = pre @ rest, cur_offset = length pre\<rparr>"])

lemma consumes_whole:
  assumes "consumes p R"
  shows "(\<exists>c. p (cursor_new bytes) = (Ok v, c) \<and> cursor_remaining c = 0) \<longleftrightarrow> R v bytes"
    and "\<not> is_fault (fst (p (cursor_new bytes)))"
proof -
  have run: "p (cursor_new bytes) = (Ok v, c) \<longleftrightarrow> (\<exists>bs rest. bytes = bs @ rest \<and> R v bs
      \<and> c = \<lparr>cur_bytes = bytes, cur_offset = length bs\<rparr>)" for c
    using consumesD(1) [OF assms, of "[]" bytes v c] by (simp add: cursor_new_def)
  show "(\<exists>c. p (cursor_new bytes) = (Ok v, c) \<and> cursor_remaining c = 0) \<longleftrightarrow> R v bytes"
  proof
    assume "R v bytes"
    then show "\<exists>c. p (cursor_new bytes) = (Ok v, c) \<and> cursor_remaining c = 0"
      unfolding run by (intro exI [of _ "\<lparr>cur_bytes = bytes, cur_offset = length bytes\<rparr>"]) (auto simp: cursor_remaining_def)
  qed (auto simp: run cursor_remaining_def)
  show "\<not> is_fault (fst (p (cursor_new bytes)))"
    using consumesD(2) [OF assms, of "[]" bytes] by (simp add: cursor_new_def)
qed

lemma consumes_cong: "consumes p R \<Longrightarrow> (\<And>v bs. R v bs \<longleftrightarrow> S v bs) \<Longrightarrow> consumes p S"
  by (simp add: consumes_def)

lemma consumes_return [reader_intros]: "consumes (op_return x) (\<lambda>v bs. v = x \<and> bs = [])"
  by (rule consumesI) (auto simp: op_return_def)

lemma consumes_lift: "\<not> is_fault r \<Longrightarrow> consumes (op_lift r) (\<lambda>v bs. r = Ok v \<and> bs = [])"
  by (rule consumesI) (auto simp: op_lift_def)

lemma consumes_require [reader_intros]: "consumes (require b e) (\<lambda>v bs. b \<and> bs = [])"
  by (rule consumesI) (auto simp: require_def op_lift_def)

lemma consumes_then_if:
  assumes p: "consumes p R" and q: "\<And>x b. R x b \<Longrightarrow> consumes (q x) (S x)"
  shows "consumes (op_then p q) (\<lambda>v bs. \<exists>x b1 b2. R x b1 \<and> S x v b2 \<and> bs = b1 @ b2)"
proof (rule consumesI)
  fix pre rest :: "u8 list" and v c'
  let ?c = "\<lparr>cur_bytes = pre @ rest, cur_offset = length pre\<rparr>"
  let ?c1 = "\<lambda>b1 r1. \<lparr>cur_bytes = pre @ b1 @ r1, cur_offset = length pre + length b1\<rparr>"
  have step: "q x (?c1 b1 r1) = (Ok v, c') \<longleftrightarrow> (\<exists>b2 r2. r1 = b2 @ r2 \<and> S x v b2
        \<and> c' = \<lparr>cur_bytes = pre @ b1 @ r1, cur_offset = length pre + length b1 + length b2\<rparr>)"
    if "R x b1" for x b1 r1 v c'
    using consumesD(1) [OF q [OF that], of "pre @ b1" r1 v c'] by simp
  have safe: "\<not> is_fault (fst (q x (?c1 b1 r1)))" if "R x b1" for x b1 r1
    using consumesD(2) [OF q [OF that], of "pre @ b1" r1] by simp
  show "\<not> is_fault (fst (op_then p q ?c))"
  proof (cases "\<exists>x c1. p ?c = (Ok x, c1)")
    case True
    then obtain x c1 where run: "p ?c = (Ok x, c1)" by blast
    then obtain b1 r1 where "rest = b1 @ r1" "R x b1" "c1 = ?c1 b1 r1"
      using consumesD(1) [OF p, of pre rest x c1] by auto
    with run safe show ?thesis by (simp add: op_then_def)
  next
    case False
    with consumesD(2) [OF p, of pre rest] show ?thesis
      by (cases "p ?c"; cases "fst (p ?c)") (auto simp: op_then_def)
  qed
  let ?out = "\<lambda>bs. \<lparr>cur_bytes = pre @ rest, cur_offset = length pre + length bs\<rparr>"
  show "op_then p q ?c = (Ok v, c') \<longleftrightarrow>
      (\<exists>bs rest'. rest = bs @ rest' \<and> (\<exists>x b1 b2. R x b1 \<and> S x v b2 \<and> bs = b1 @ b2) \<and> c' = ?out bs)"
  proof
    assume "op_then p q ?c = (Ok v, c')"
    then obtain x c1 where "p ?c = (Ok x, c1)" and q1: "q x c1 = (Ok v, c')"
      by (cases "p ?c"; cases "fst (p ?c)") (auto simp: op_then_def)
    then obtain b1 r1 where r1: "rest = b1 @ r1" "R x b1" "c1 = ?c1 b1 r1"
      using consumesD(1) [OF p, of pre rest x c1] by auto
    with q1 step [of x b1 r1] obtain b2 r2 where "r1 = b2 @ r2" "S x v b2"
      "c' = \<lparr>cur_bytes = pre @ b1 @ r1, cur_offset = length pre + length b1 + length b2\<rparr>" by auto
    with r1 show "\<exists>bs rest'. rest = bs @ rest' \<and> (\<exists>x b1 b2. R x b1 \<and> S x v b2 \<and> bs = b1 @ b2) \<and> c' = ?out bs"
      by (intro exI [of _ "b1 @ b2"] exI [of _ r2]) auto
  next
    assume "\<exists>bs rest'. rest = bs @ rest' \<and> (\<exists>x b1 b2. R x b1 \<and> S x v b2 \<and> bs = b1 @ b2) \<and> c' = ?out bs"
    then obtain x b1 b2 r2 where r: "rest = b1 @ b2 @ r2" "R x b1" "S x v b2" "c' = ?out (b1 @ b2)" by auto
    then have "p ?c = (Ok x, ?c1 b1 (b2 @ r2))" using consumesD(1) [OF p, of pre rest] by auto
    moreover have "q x (?c1 b1 (b2 @ r2)) = (Ok v, c')" using r step [OF r(2)] by auto
    ultimately show "op_then p q ?c = (Ok v, c')" by (simp add: op_then_def)
  qed
qed

lemma consumes_then [reader_intros]:
  "consumes p R \<Longrightarrow> (\<And>x. consumes (q x) (S x)) \<Longrightarrow>
     consumes (op_then p q) (\<lambda>v bs. \<exists>x b1 b2. R x b1 \<and> S x v b2 \<and> bs = b1 @ b2)"
  by (rule consumes_then_if)

lemma consumes_take [reader_intros]: "consumes (cursor_take n) (\<lambda>v bs. v = bs \<and> length bs = n)"
proof (rule consumesI)
  fix pre rest :: "u8 list" and v c'
  show "\<not> is_fault (fst (cursor_take n \<lparr>cur_bytes = pre @ rest, cur_offset = length pre\<rparr>))"
    by (auto simp: cursor_take_def cursor_remaining_def index_range_def)
  show "cursor_take n \<lparr>cur_bytes = pre @ rest, cur_offset = length pre\<rparr> = (Ok v, c') \<longleftrightarrow> (\<exists>bs rest'. rest = bs @ rest'
      \<and> (v = bs \<and> length bs = n) \<and> c' = \<lparr>cur_bytes = pre @ rest, cur_offset = length pre + length bs\<rparr>)"
    by (auto simp: cursor_take_def cursor_remaining_def index_range_def subslice_def
        intro!: exI [of _ "take n rest"] exI [of _ "drop n rest"])
qed

lemma consumes_array: "consumes (cursor_array n) (\<lambda>v bs. v = bs \<and> length bs = n)"
proof -
  have "consumes (cursor_array n) (\<lambda>v bs. \<exists>x b1 b2. (x = b1 \<and> length b1 = n) \<and> (v = x \<and> b2 = []) \<and> bs = b1 @ b2)"
    unfolding cursor_array_def
    by (rule consumes_then_if [OF consumes_take]) (auto intro: consumes_cong [OF consumes_lift])
  then show ?thesis by (rule consumes_cong) auto
qed

lemma consumes_u8 [reader_intros]: "consumes cursor_u8 (\<lambda>v bs. bs = [v])"
proof -
  have "consumes cursor_u8 (\<lambda>v bs. \<exists>x b1 b2. (x = b1 \<and> length b1 = 1) \<and> (v = x ! 0 \<and> b2 = []) \<and> bs = b1 @ b2)"
    unfolding cursor_u8_def
    by (rule consumes_then_if [OF consumes_take]) (auto intro: consumes_cong [OF consumes_lift])
  then show ?thesis by (rule consumes_cong) (auto simp: length_Suc_conv)
qed

lemma consumes_word:
  assumes "8 dvd LENGTH('a)" and "n = LENGTH('a) div 8"
  shows "consumes (op_then (cursor_array n) (\<lambda>bs. op_return (from_le_bytes bs :: 'a::len word))) (\<lambda>v bs. bs = to_le_bytes v)"
  by (rule consumes_cong [OF consumes_then [OF consumes_array consumes_return]])
    (use assms to_from_le_bytes [where 'a = 'a] from_to_le_bytes [where 'a = 'a] in auto)

lemma consumes_words [reader_intros]:
  "consumes cursor_u16 (\<lambda>v bs. bs = to_le_bytes v)" "consumes cursor_u32 (\<lambda>v bs. bs = to_le_bytes v)"
  "consumes cursor_u64 (\<lambda>v bs. bs = to_le_bytes v)"
  unfolding cursor_u16_def cursor_u32_def cursor_u64_def by (rule consumes_word; simp)+

lemma consumes_then_bytes:
  assumes "consumes p (\<lambda>x b. b = f x)" and "\<And>x. consumes (q x) (S x)"
  shows "consumes (op_then p q) (\<lambda>v bs. \<exists>x b. S x v b \<and> bs = f x @ b)"
  by (rule consumes_cong [OF consumes_then [OF assms]]) auto

lemmas consumes_word_then = consumes_then_bytes [OF consumes_words(1)] consumes_then_bytes [OF consumes_words(2)]
  consumes_then_bytes [OF consumes_words(3)] consumes_then_bytes [OF consumes_u8]

subsection \<open>Registers\<close>

lemma consumes_registers: "consumes decode_registers (\<lambda>v bs. bs = encode_registers (from_kvm_regs v))"
  unfolding decode_registers_def
  apply (rule consumes_cong, (rule consumes_word_then consumes_return)+)
  subgoal for v bs by (cases v) (simp add: encode_registers_def from_kvm_regs_def)
  done

lemma check_segment_Ok:
  "kseg_padding k = 0 \<Longrightarrow> check_segment i k reserved = Ok v \<longleftrightarrow> kvm_segment_ok k \<and> reserved = 0 \<and> v = k"
proof -
  assume pad: "kseg_padding k = 0"
  let ?flags = "[(''present'', kseg_present k), (''db'', kseg_db k), (''s'', kseg_s k), (''l'', kseg_l k),
    (''g'', kseg_g k), (''avl'', kseg_avl k), (''unusable'', kseg_unusable k)]"
  have ok: "kvm_segment_ok k \<longleftrightarrow> \<not> 0x0f < kseg_segment_type k \<and> \<not> 3 < kseg_dpl k \<and> list_all (\<lambda>(_, x). x \<le> 1) ?flags"
    using pad by (simp add: kvm_segment_ok_def not_less)
  have flags: "find (\<lambda>(_, x). 1 < x) ?flags = None \<longleftrightarrow> list_all (\<lambda>(_, x). x \<le> 1) ?flags"
    unfolding find_None_iff list_all_iff by (auto simp: not_less simp del: list.set)
  show ?thesis
    unfolding check_segment_def ok flags [symmetric]
    by (cases "find (\<lambda>(_, x). 1 < x) ?flags") (auto simp del: find.simps)
qed

lemma check_segment_safe: "\<not> is_fault (check_segment i k reserved)"
  by (auto simp: check_segment_def split: option.split)

lemma consumes_segment: "consumes (decode_segment i) (\<lambda>v bs. kvm_segment_ok v \<and> bs = raw_segment v)"
  unfolding decode_segment_def
  apply (rule consumes_cong, (rule consumes_word_then consumes_lift check_segment_safe)+)
  subgoal for v bs by (cases v) (auto simp: check_segment_Ok kvm_segment_ok_def raw_segment_def)
  done

lemma six_zeros: "length bs = 6 \<and> \<not> list_ex (\<lambda>b. b \<noteq> 0) bs \<longleftrightarrow> bs = [0, 0, 0, 0, 0, 0 :: u8]"
proof -
  have "length bs = 6 \<and> \<not> list_ex (\<lambda>b. b \<noteq> 0) bs \<longleftrightarrow> bs = replicate 6 0"
    by (auto simp: list_ex_iff intro: replicate_eqI)
  then show ?thesis by (simp add: numeral_eq_Suc)
qed

lemma consumes_dtable:
  "consumes (decode_dtable field) (\<lambda>v bs. kdt_padding v = [0, 0, 0] \<and> bs = encode_dtable (from_kvm_dtable v))"
proof -
  let ?r = "\<lambda>base limit (reserved :: u8 list). if list_ex (\<lambda>b. b \<noteq> 0) reserved
      then Err (Schema_NonZeroReserved field (fold (\<lambda>(i, b) acc. acc OR push_bit (8 * i) (ucast b)) (List.enumerate 0 reserved) 0))
      else Ok \<lparr>kdt_base = base, kdt_limit = limit, kdt_padding = [0, 0, 0]\<rparr>"
  have tail: "consumes (op_then (cursor_take 6) (\<lambda>reserved. op_lift (?r base limit reserved)))
      (\<lambda>v bs. v = \<lparr>kdt_base = base, kdt_limit = limit, kdt_padding = [0, 0, 0]\<rparr> \<and> bs = [0, 0, 0, 0, 0, 0])" for base limit
  proof (rule consumes_cong [OF consumes_then [OF consumes_take consumes_lift]])
    show "\<not> is_fault (?r base limit reserved)" for reserved by simp
    show "(\<exists>x b1 b2. (x = b1 \<and> length b1 = 6) \<and> (?r base limit x = Ok v \<and> b2 = []) \<and> bs = b1 @ b2) \<longleftrightarrow>
        v = \<lparr>kdt_base = base, kdt_limit = limit, kdt_padding = [0, 0, 0]\<rparr> \<and> bs = [0, 0, 0, 0, 0, 0]" for v bs
      using six_zeros [of bs] by auto
  qed
  show ?thesis
    unfolding decode_dtable_def
    apply (rule consumes_cong, (rule consumes_word_then tail)+)
    subgoal for v bs by (cases v) (auto simp: encode_dtable_def from_kvm_dtable_def)
    done
qed

lemma consumes_then_bytes_if:
  assumes "consumes p (\<lambda>x b. P x \<and> b = f x)" and "\<And>x. consumes (q x) (S x)"
  shows "consumes (op_then p q) (\<lambda>v bs. \<exists>x b. P x \<and> S x v b \<and> bs = f x @ b)"
  by (rule consumes_cong [OF consumes_then [OF assms]]) auto

lemma length_4_iff: "length xs = 4 \<longleftrightarrow> (\<exists>a b c d. xs = [a, b, c, d])"
  by (auto simp: numeral_eq_Suc length_Suc_conv)

lemma consumes_special: "consumes decode_special_registers (\<lambda>v bs. kvm_sregs_ok v \<and> bs = raw_sregs v)"
  unfolding decode_special_registers_def
  apply (rule consumes_cong, (rule consumes_then_bytes_if [OF consumes_segment]
      consumes_then_bytes_if [OF consumes_dtable] consumes_word_then consumes_return)+)
  subgoal for v bs by (cases v) (auto simp: kvm_sregs_ok_def raw_sregs_def length_4_iff)
  done

subsection \<open>Pages and model-specific registers\<close>

lemma consumes_lift_then:
  "\<not> is_fault r \<Longrightarrow> (\<And>x. consumes (q x) (S x)) \<Longrightarrow>
     consumes (op_then (op_lift r) q) (\<lambda>v bs. \<exists>x. r = Ok x \<and> S x v bs)"
  by (rule consumes_cong [OF consumes_then [OF consumes_lift]]) auto

lemma consumes_require_then:
  "(\<And>x. consumes (q x) (S x)) \<Longrightarrow> consumes (op_then (require b e) q) (\<lambda>v bs. b \<and> S () v bs)"
  by (rule consumes_cong [OF consumes_then [OF consumes_require]]) auto

lemma consumes_take_then:
  "(\<And>x. consumes (q x) (S x)) \<Longrightarrow> consumes (op_then (cursor_take n) q) (\<lambda>v bs. \<exists>x b. length x = n \<and> S x v b \<and> bs = x @ b)"
  by (rule consumes_cong [OF consumes_then [OF consumes_take]]) auto

lemma validate_page_address_safe [simp]: "\<not> is_fault (validate_page_address a)"
  by (simp add: validate_page_address_def)

lemma safe_checks:
  "\<not> is_fault (Ok x)" "\<not> is_fault (Err e)" "\<not> is_fault r \<Longrightarrow> \<not> is_fault r' \<Longrightarrow> \<not> is_fault (if b then r else r')"
  "\<not> is_fault r \<Longrightarrow> (\<And>x. \<not> is_fault (f x)) \<Longrightarrow> \<not> is_fault (case opt of None \<Rightarrow> r | Some x \<Rightarrow> f x)"
  by (auto split: option.split)

lemma consumes_pages:
  "consumes (decode_pages n previous) (\<lambda>ps bs. (length ps = n \<and> validate_pages_from previous ps = Ok ())
     \<and> bs = concat (map encode_page ps))"
proof (induction n arbitrary: previous)
  case 0
  show ?case by (auto intro!: consumes_cong [OF consumes_return])
next
  case (Suc n)
  show ?case
    unfolding decode_pages.simps
    apply (rule consumes_cong, (rule consumes_word_then consumes_lift_then consumes_take_then
        consumes_then_bytes_if [OF Suc] consumes_return validate_page_address_safe safe_checks)+)
    subgoal for ps bs
      by (cases ps; cases previous) (auto simp: encode_page_def outcome_simps Let_def if_Err_Ok)
    done
qed

lemma consumes_msrs:
  "consumes (decode_msrs field n previous) (\<lambda>ms bs. (length ms = n \<and> validate_msr_order_from previous ms = Ok ())
     \<and> bs = concat (map encode_msr ms))"
proof (induction n arbitrary: previous)
  case 0
  show ?case by (auto intro!: consumes_cong [OF consumes_return])
next
  case (Suc n)
  show ?case
    unfolding decode_msrs.simps
    apply (rule consumes_cong, (rule consumes_word_then consumes_lift_then
        consumes_then_bytes_if [OF Suc] consumes_return safe_checks)+)
    subgoal for ms bs
      by (cases ms; cases previous) (auto simp: encode_msr_def if_Err_Ok)
    done
qed

subsection \<open>Checkpoints\<close>

lemma validate_page_address_Ok:
  "validate_page_address a = Ok () \<longleftrightarrow> unat a mod PAGE_LEN = 0 \<and> unat a + PAGE_LEN < 2 ^ 64"
proof -
  have "a mod 4096 = 0 \<longleftrightarrow> unat a mod 4096 = 0"
    by (simp add: word_unat_eq_iff unat_mod)
  then show ?thesis
    by (auto simp: validate_page_address_def outcome_simps checked_add_def)
qed

lemma validate_pages_from_Ok:
  "validate_pages_from previous ps = Ok () \<longleftrightarrow> pages_ok ps \<and> (\<forall>p \<in> set ps. unat (page_address p) + PAGE_LEN < 2 ^ 64)
     \<and> (\<forall>a p. previous = Some a \<longrightarrow> p \<in> set ps \<longrightarrow> a < page_address p)"
proof (induction ps arbitrary: previous)
  case (Cons p ps)
  have "validate_pages_from previous (p # ps) = Ok () \<longleftrightarrow> validate_page_address (page_address p) = Ok ()
      \<and> length (page_bytes p) = PAGE_LEN \<and> (\<forall>a. previous = Some a \<longrightarrow> a < page_address p)
      \<and> validate_pages_from (Some (page_address p)) ps = Ok ()"
    by (cases previous) (auto simp: Let_def outcome_simps if_Err_Ok not_le)
  moreover have "pages_ok (p # ps) \<longleftrightarrow> length (page_bytes p) = PAGE_LEN \<and> unat (page_address p) mod PAGE_LEN = 0
      \<and> (\<forall>q \<in> set ps. page_address p < page_address q) \<and> pages_ok ps"
    by (auto simp: pages_ok_def)
  moreover have "(\<forall>a q. previous = Some a \<longrightarrow> q \<in> set (p # ps) \<longrightarrow> a < page_address q) \<longleftrightarrow>
      (\<forall>a. previous = Some a \<longrightarrow> a < page_address p)" if "\<forall>q \<in> set ps. page_address p < page_address q"
    using that by (cases previous) (auto dest: order.strict_trans)
  ultimately show ?case
    unfolding Cons validate_page_address_Ok by (simp add: ball_conj_distrib) blast
qed (simp add: pages_ok_def)

lemma validate_msr_order_from_Ok:
  "validate_msr_order_from previous ms = Ok () \<longleftrightarrow> sorted_wrt (<) (map fst ms)
     \<and> (\<forall>a m. previous = Some a \<longrightarrow> m \<in> set ms \<longrightarrow> a < fst m)"
proof (induction ms arbitrary: previous)
  case (Cons m ms)
  have "validate_msr_order_from previous (m # ms) = Ok () \<longleftrightarrow> (\<forall>a. previous = Some a \<longrightarrow> a < fst m)
      \<and> validate_msr_order_from (Some (fst m)) ms = Ok ()"
    by (cases previous; cases m) (auto simp: if_Err_Ok not_le)
  then show ?case unfolding Cons by (cases m) auto
qed simp

lemma encoded_length_small:
  assumes "a \<le> 8" and "b \<le> 256"
  shows "encoded_length a b = Ok (496 + PAGE_RECORD_LEN * a + MSR_RECORD_LEN * b)"
proof -
  have "496 + PAGE_RECORD_LEN * a + MSR_RECORD_LEN * b < 2 ^ 64" using assms by simp
  then show ?thesis using assms by (simp add: encoded_length_def usize_checked_def USIZE_BITS_def)
qed

lemma encoded_length_safe: "\<not> is_fault (encoded_length a b)"
  by (simp add: encoded_length_def)

lemmas ex_conj_out = ex_simps(1,2) [symmetric]

lemma length_CHECKPOINT_MAGIC: "length CHECKPOINT_MAGIC = 8"
  by (simp add: CHECKPOINT_MAGIC_def)

lemma count_small:
  assumes "n \<le> 256"
  shows "unat (of_nat n :: u16) = n" and "of_nat n = (0 :: u16) \<longleftrightarrow> n = 0"
proof -
  show unat: "unat (of_nat n :: u16) = n" using assms by (simp add: unat_of_nat)
  then show "of_nat n = (0 :: u16) \<longleftrightarrow> n = 0" using unat_eq_zero [of "of_nat n :: u16"] by simp
qed

lemma consumes_body:
  "consumes (decode_checkpoint_body bytes) (\<lambda>(d, v) bs. \<exists>sregs. kvm_sregs_ok sregs \<and> vc_special v = from_kvm_sregs sregs
     \<and> contents_ok v \<and> length bytes = checkpoint_length v \<and> d = of_nat (length bytes) \<and> bs = raw_checkpoint v (raw_sregs sregs))"
  unfolding decode_checkpoint_body_def
  apply (rule consumes_cong, (rule consumes_word_then consumes_take_then consumes_require_then consumes_lift_then
      consumes_then_bytes_if [OF consumes_pages] consumes_then_bytes [OF consumes_registers]
      consumes_then_bytes_if [OF consumes_special] consumes_then_bytes_if [OF consumes_msrs] consumes_return
      encoded_length_safe)+)
  subgoal for dv bs
    apply (cases dv)
    apply (simp add: validate_pages_from_Ok validate_msr_order_from_Ok split_def ex_conj_out del: ex_simps)
    apply (rule iffI; elim exE conjE)
    subgoal for d v x xa pages regs sregs msrs
      apply (insert encoded_length_small [of "unat x" "unat xa"])
      apply (intro exI [of _ sregs])
      apply (simp add: contents_ok_def checkpoint_length_def raw_checkpoint_def)
      using unat_eq_zero [of x] apply force
      done
    subgoal for d v sregs
      apply (insert encoded_length_small [of "length (vc_pages v)" "length (vc_msrs v)"])
      apply (rule exI [of _ "of_nat (length (vc_pages v))"], rule exI [of _ "of_nat (length (vc_msrs v))"],
          rule exI [of _ "vc_pages v"], rule exI [of _ "to_kvm_regs (vc_registers v)"], rule exI [of _ sregs],
          rule exI [of _ "vc_msrs v"])
      apply (simp add: contents_ok_def checkpoint_length_def raw_checkpoint_def length_CHECKPOINT_MAGIC count_small)
      done
    done
  done

lemma length_encode_pages:
  "pages_ok ps \<Longrightarrow> length (concat (map encode_page ps)) = PAGE_RECORD_LEN * length ps"
  by (induction ps) (auto simp: pages_ok_def encode_page_def)

lemma length_encode_msrs: "length (concat (map encode_msr ms)) = MSR_RECORD_LEN * length ms"
  by (induction ms) (auto simp: encode_msr_def)

lemma length_raw_sregs: "length (ks_interrupt_bitmap k) = 4 \<Longrightarrow> length (raw_sregs k) = SPECIAL_REGISTER_BLOCK_LEN"
  by (simp add: raw_sregs_def raw_segment_def encode_dtable_def length_concat sum_list_const_mult comp_def sum_list_replicate map_replicate_const)

lemma length_raw_checkpoint:
  "contents_ok v \<Longrightarrow> length special = SPECIAL_REGISTER_BLOCK_LEN \<Longrightarrow> length (raw_checkpoint v special) = checkpoint_length v"
  by (simp add: raw_checkpoint_def contents_ok_def checkpoint_length_def length_encode_pages length_encode_msrs
      length_CHECKPOINT_MAGIC encode_registers_def)

lemma checkpoint_decode_Ok:
  "checkpoint_decode bytes = Ok v \<longleftrightarrow> (\<exists>sregs. kvm_sregs_ok sregs \<and> vc_special v = from_kvm_sregs sregs
     \<and> contents_ok v \<and> bytes = raw_checkpoint v (raw_sregs sregs))"
  and checkpoint_decode_safe: "\<not> is_fault (checkpoint_decode bytes)"
proof -
  let ?R = "\<lambda>d v bs. \<exists>sregs. kvm_sregs_ok sregs \<and> vc_special v = from_kvm_sregs sregs
     \<and> contents_ok v \<and> length bytes = checkpoint_length v \<and> d = of_nat (length bytes) \<and> bs = raw_checkpoint v (raw_sregs sregs)"
  note body = consumes_whole [OF consumes_body [of bytes], of bytes]
  have len: "kvm_sregs_ok sregs \<Longrightarrow> contents_ok v \<Longrightarrow> length (raw_checkpoint v (raw_sregs sregs)) = checkpoint_length v" for sregs v
    by (rule length_raw_checkpoint) (auto simp: kvm_sregs_ok_def intro: length_raw_sregs)
  have "checkpoint_decode bytes = Ok v \<longleftrightarrow> (\<exists>d c. decode_checkpoint_body bytes (cursor_new bytes) = (Ok (d, v), c) \<and> cursor_remaining c = 0)"
    by (cases "decode_checkpoint_body bytes (cursor_new bytes)")
      (auto simp: checkpoint_decode_def outcome_simps if_Err_Ok)
  also have "\<dots> \<longleftrightarrow> (\<exists>d. ?R d v bytes)"
    unfolding body(1) by simp
  finally show "checkpoint_decode bytes = Ok v \<longleftrightarrow> (\<exists>sregs. kvm_sregs_ok sregs \<and> vc_special v = from_kvm_sregs sregs
     \<and> contents_ok v \<and> bytes = raw_checkpoint v (raw_sregs sregs))"
    using len by auto
  show "\<not> is_fault (checkpoint_decode bytes)"
    using body(2) by (cases "decode_checkpoint_body bytes (cursor_new bytes)")
      (auto simp: checkpoint_decode_def)
qed

lemma segment_state_ok_from: "kvm_segment_ok k \<Longrightarrow> segment_state_ok (from_kvm_segment k)"
proof -
  assume k: "kvm_segment_ok k"
  have "canonical_segment_type (kseg_segment_type k) (kseg_unusable k) \<le> kseg_segment_type k"
    by (simp add: canonical_segment_type_def word_and_le2)
  with k show ?thesis
    by (auto simp: segment_state_ok_def kvm_segment_ok_def from_kvm_segment_def to_kvm_segment_def)
qed

lemma special_ok_from: "kvm_sregs_ok k \<Longrightarrow> special_ok (from_kvm_sregs k)"
  by (simp add: kvm_sregs_ok_def special_ok_def from_kvm_sregs_def segment_state_ok_from)

lemma segment_state_ok_to:
  assumes "segment_state_ok s"
  shows "kvm_segment_ok (to_kvm_segment s)" and "from_kvm_segment (to_kvm_segment s) = s"
    and "raw_segment (to_kvm_segment s) = encode_segment s"
  using assms by (simp_all add: segment_state_ok_def from_kvm_segment_def to_kvm_segment_def raw_segment_def encode_segment_def)

lemma special_ok_to:
  assumes "special_ok s"
  shows "kvm_sregs_ok (encode_snapshot s)" and "from_kvm_sregs (encode_snapshot s) = s"
    and "encode_special_registers s = Ok (raw_sregs (encode_snapshot s))"
proof -
  have bitmap: "length (sr_interrupt_bitmap s) = 4" using assms by (simp add: special_ok_def)
  then obtain a b c d where four: "sr_interrupt_bitmap s = [a, b, c, d]" by (auto simp: length_4_iff)
  show "kvm_sregs_ok (encode_snapshot s)"
    using assms by (simp add: special_ok_def kvm_sregs_ok_def encode_snapshot_def to_kvm_dtable_def segment_state_ok_to)
  show "from_kvm_sregs (encode_snapshot s) = s"
    using assms by (simp add: special_ok_def encode_snapshot_def segment_state_ok_to from_kvm_sregs_def)
  show "encode_special_registers s = Ok (raw_sregs (encode_snapshot s))"
    using assms four by (simp add: encode_special_registers_def special_ok_def raw_sregs_def encode_snapshot_def
        segment_state_ok_to)
qed

lemma validate_contents:
  "contents_ok v \<longleftrightarrow> validate_pages (vc_pages v) = Ok () \<and> validate_msr_order (vc_msrs v) = Ok ()
     \<and> length (vc_msrs v) \<le> VERSIONED_PAGE_VCPU_CHECKPOINT_MSR_LIMIT"
  by (auto simp: contents_ok_def validate_pages_def validate_msr_order_def validate_pages_from_Ok
      validate_msr_order_from_Ok if_Err_Ok)

lemma checkpoint_encode_ok:
  assumes "checkpoint_ok v"
  shows "checkpoint_encode v = Ok (raw_checkpoint v (raw_sregs (encode_snapshot (vc_special v))))"
proof -
  have c: "contents_ok v" and sp: "special_ok (vc_special v)" using assms by (simp_all add: checkpoint_ok_def)
  have n: "length (vc_pages v) \<le> 8" "length (vc_msrs v) \<le> 256" using c by (simp_all add: contents_ok_def)
  have len: "length (raw_checkpoint v (raw_sregs (encode_snapshot (vc_special v)))) = checkpoint_length v"
    by (rule length_raw_checkpoint [OF c]) (use special_ok_to(1) [OF sp] in \<open>auto simp: kvm_sregs_ok_def intro: length_raw_sregs\<close>)
  show ?thesis
    using c n len [unfolded raw_checkpoint_def]
    by (simp add: checkpoint_encode_def validate_contents encoded_length_small special_ok_to(3) [OF sp] count_expect_def
        raw_checkpoint_def checkpoint_length_def Let_def not_less)
qed

lemma versioned_round_trip:
  assumes "checkpoint_ok v"
  obtains bs where "checkpoint_encode v = Ok bs" and "checkpoint_decode bs = Ok v" and "length bs = checkpoint_length v"
proof -
  have sp: "special_ok (vc_special v)" "contents_ok v" using assms by (simp_all add: checkpoint_ok_def)
  let ?bs = "raw_checkpoint v (raw_sregs (encode_snapshot (vc_special v)))"
  have "checkpoint_decode ?bs = Ok v"
    unfolding checkpoint_decode_Ok using special_ok_to [OF sp(1)] sp(2) by (intro exI [of _ "encode_snapshot (vc_special v)"]) simp
  moreover have "length ?bs = checkpoint_length v"
    by (rule length_raw_checkpoint [OF sp(2)]) (use special_ok_to(1) [OF sp(1)] in \<open>auto simp: kvm_sregs_ok_def intro: length_raw_sregs\<close>)
  ultimately show thesis using that checkpoint_encode_ok [OF assms] by blast
qed

lemma checkpoint_decoded_ok: "checkpoint_decode bytes = Ok v \<Longrightarrow> checkpoint_ok v"
  unfolding checkpoint_decode_Ok checkpoint_ok_def using special_ok_from by auto

interpretation page_format: byte_format checkpoint_encode checkpoint_decode checkpoint_ok
proof
  show "\<not> is_fault (checkpoint_decode bytes)" for bytes by (rule checkpoint_decode_safe)
  show "checkpoint_ok v" if "checkpoint_decode bytes = Ok v" for bytes v using that by (rule checkpoint_decoded_ok)
  show "\<exists>bytes. checkpoint_encode v = Ok bytes \<and> checkpoint_decode bytes = Ok v" if "checkpoint_ok v" for v
    using versioned_round_trip [OF that] by blast
qed

subsection \<open>From capture to restore\<close>

lemma sort_msrs:
  assumes "msr_snapshot_ok s"
  shows "sorted_wrt (<) (map fst (sort_key fst (msr_pairs (snapshot_values s))))"
    and "set (sort_key fst (msr_pairs (snapshot_values s))) = set (msr_pairs (snapshot_values s))"
    and "fst ` set (msr_pairs (snapshot_values s)) = access_index ` set (snapshot_policy s)"
    and "length (msr_pairs (snapshot_values s)) = length (snapshot_policy s)"
proof -
  let ?ps = "msr_pairs (snapshot_values s)"
  have fst: "map fst ?ps = map access_index (snapshot_policy s)" and dist: "distinct (map fst ?ps)"
    using assms by (simp_all add: msr_snapshot_ok_def fst_msr_pairs)
  have "distinct (map fst (sort_key fst ?ps))"
    using dist by (metis distinct_map distinct_sort set_sort)
  then show "sorted_wrt (<) (map fst (sort_key fst ?ps))"
    by (simp add: strict_sorted_iff)
  show "set (sort_key fst ?ps) = set ?ps" by simp
  show "fst ` set ?ps = access_index ` set (snapshot_policy s)" using arg_cong [OF fst, of set] by simp
  show "length ?ps = length (snapshot_policy s)" using arg_cong [OF fst, of length] by simp
qed

lemma materialize_msrs_Ok:
  assumes "sorted_wrt (<) (map fst ms)" and "fst ` set ms \<subseteq> set (host_indices host)"
  obtains s where "materialize_msrs host ms = Ok s" and "msr_snapshot_ok s" and "msr_pairs (snapshot_values s) = ms"
    and "access_index ` set (snapshot_policy s) = fst ` set ms"
proof -
  let ?p = "map (\<lambda>i. \<lparr>access_index = i, access_authority = ReadWrite\<rparr>) (map fst ms)"
  let ?vs = "map (\<lambda>(i, x). \<lparr>msr_value_index = i, msr_value_value = x\<rparr>) ms"
  have dist: "distinct (map fst ms)" using assms(1) strict_sorted_iff by blast
  have idx: "map access_index ?p = map fst ms" "map msr_value_index ?vs = map fst ms" by auto
  have "policy_from_host host (map fst ms) = Ok ?p" using dist assms(2) by (simp add: policy_from_host_Ok)
  moreover have "value_set_from_policy ?p ms = Ok ?vs" using dist by (auto simp: value_set_from_policy_Ok image_image)
  moreover have "msr_from_capture ?p ?vs = Ok \<lparr>snapshot_policy = ?p, snapshot_values = ?vs\<rparr>"
    using idx by (simp add: msr_from_capture_Ok)
  ultimately have "materialize_msrs host ms = Ok \<lparr>snapshot_policy = ?p, snapshot_values = ?vs\<rparr>"
    by (simp add: materialize_msrs_def)
  moreover have "msr_snapshot_ok \<lparr>snapshot_policy = ?p, snapshot_values = ?vs\<rparr>"
    unfolding msr_snapshot_ok_def msr_snapshot.simps idx using dist by blast
  moreover have "msr_pairs ?vs = ms" by (induction ms) (auto simp: msr_pairs_def)
  moreover have "access_index ` set ?p = fst ` set ms" by (simp add: image_image)
  ultimately show thesis using that by simp
qed

text \<open>What a capture returns, as the format sees it.\<close>

lemma captured_contents:
  assumes wf: "memory_wf m" and "page_set_capture K M v policy m as = Ok c"
    and "kvm_get_sregs K (vcpu_fd v) = Inr k0" and "special_ok (from_kvm_sregs k0)"
    and "length policy \<le> VERSIONED_PAGE_VCPU_CHECKPOINT_MSR_LIMIT"
  obtains ver where "from_checkpoint c = Ok ver" and "checkpoint_ok ver" and "vc_pages ver = ckpt_pages c"
    and "vc_registers ver = state_registers (ckpt_vcpu c)" and "vc_special ver = from_kvm_sregs k0"
    and "set (vc_msrs ver) = set (msr_pairs (snapshot_values (state_msrs (ckpt_vcpu c))))"
    and "fst ` set (vc_msrs ver) = access_index ` set policy"
    and "capture_register_snapshot K v = Ok (state_registers (ckpt_vcpu c))"
    and "page_address ` set (ckpt_pages c) = set as"
    and "\<forall>p \<in> set (ckpt_pages c). \<forall>i < PAGE_LEN. page_bytes p ! i = guest_byte m (unat (page_address p) + i)"
proof -
  from assms(2) obtain canonical state where canonical: "validate_page_addresses as = Ok canonical"
    and pages: "capture_pages m canonical = Ok (ckpt_pages c)" and state: "capture_state_snapshot K M policy v = Ok (ckpt_vcpu c)"
    by (auto simp: page_set_capture_def outcome_simps)
  note can = canonical [unfolded validate_page_addresses_Ok]
  note pg = pages [unfolded capture_pages_Ok [OF wf]]
  let ?pages = "ckpt_pages c" and ?msrs = "state_msrs (ckpt_vcpu c)"
  from state have regs: "capture_register_snapshot K v = Ok (state_registers (ckpt_vcpu c))"
    and special: "state_special (ckpt_vcpu c) = from_kvm_sregs k0" and msrs: "capture_msr_snapshot M policy v = Ok ?msrs"
    using assms(3) by (simp_all add: capture_state_Ok capture_special_register_snapshot_def)
  note ms = capture_snapshot_Ok [OF msrs]
  note sorted = sort_msrs [OF ms(1)]
  define ver where "ver = \<lparr>vc_pages = ?pages, vc_registers = state_registers (ckpt_vcpu c), vc_special = from_kvm_sregs k0,
    vc_msrs = sort_key fst (msr_pairs (snapshot_values ?msrs))\<rparr>"
  have addr: "map page_address ?pages = canonical" using pg by (simp add: comp_def)
  have inr: "\<forall>p \<in> set ?pages. in_region (mem_region m) (page_address p) PAGE_LEN" using pg by auto
  have "unat a mod 4096 = 0" if "a \<in> set as" for a :: u64
    using can that by (simp add: word_unat_eq_iff unat_mod)
  then have "pages_ok ?pages"
    using can pg addr by (auto simp: pages_ok_def list_all_iff)
  moreover have "unat (page_address p) + PAGE_LEN < 2 ^ 64" if "p \<in> set ?pages" for p
    using inr that wf by (force simp: in_region_def memory_wf_def region_wf_def)
  moreover have "length ?pages = length as" using arg_cong [OF addr, of length] can by simp
  ultimately have "contents_ok ver"
    using can sorted ms(2) assms(5) by (auto simp: contents_ok_def ver_def)
  moreover have "special_ok (vc_special ver)" using assms(4) by (simp add: ver_def)
  ultimately have ok: "checkpoint_ok ver" by (simp add: checkpoint_ok_def)
  have "from_checkpoint c = Ok ver"
    using \<open>contents_ok ver\<close> [unfolded validate_contents] special
    by (simp add: from_checkpoint_def ver_def Let_def not_less)
  moreover have "page_address ` set ?pages = set as" using arg_cong [OF addr, of set] can by simp
  moreover have "\<forall>p \<in> set ?pages. \<forall>i < PAGE_LEN. page_bytes p ! i = guest_byte m (unat (page_address p) + i)"
    using pg by auto
  ultimately show thesis
    using that [of ver] ok regs sorted ms(2) by (simp add: ver_def)
qed

lemma materialized:
  assumes "checkpoint_ok ver" and "fst ` set (vc_msrs ver) \<subseteq> set (host_indices host)" and "fst ` set (vc_msrs ver) \<subseteq> I"
    and "regs_wf (to_kvm_regs (vc_registers ver))" and "sregs_wf k" and "vc_special ver = from_kvm_sregs k"
  obtains c where "versioned_materialize ver host = Ok c" and "ckpt_pages c = vc_pages ver" and "vcpu_state_ok I (ckpt_vcpu c)"
    and "state_registers (ckpt_vcpu c) = vc_registers ver" and "state_special (ckpt_vcpu c) = vc_special ver"
    and "msr_pairs (snapshot_values (state_msrs (ckpt_vcpu c))) = vc_msrs ver"
proof -
  have ok: "contents_ok ver" "special_ok (vc_special ver)" using assms(1) by (simp_all add: checkpoint_ok_def)
  have "sorted_wrt (<) (map fst (vc_msrs ver))" using ok by (simp add: contents_ok_def)
  then obtain s where s: "materialize_msrs host (vc_msrs ver) = Ok s" "msr_snapshot_ok s"
    "msr_pairs (snapshot_values s) = vc_msrs ver" "access_index ` set (snapshot_policy s) = fst ` set (vc_msrs ver)"
    using materialize_msrs_Ok assms(2) by blast
  let ?c = "\<lparr>ckpt_pages = vc_pages ver, ckpt_vcpu =
    \<lparr>state_registers = vc_registers ver, state_special = vc_special ver, state_msrs = s\<rparr>\<rparr>"
  have "versioned_materialize ver host = Ok ?c"
    using s(1) ok(1) by (simp add: versioned_materialize_def validate_contents)
  moreover have "vcpu_state_ok I (ckpt_vcpu ?c)"
    using s assms(3-6) by (auto simp: vcpu_state_ok_def)
  ultimately show thesis using that s(3) by simp
qed

lemma write_msrs_kept: "i \<notin> fst ` set es \<Longrightarrow> write_msrs es f i = f i"
  by (induction es f rule: write_msrs.induct) auto

lemma write_msrs_read: "distinct (map fst es) \<Longrightarrow> map (\<lambda>(i, _). (i, write_msrs es f i)) es = es"
proof (induction es arbitrary: f)
  case (Cons e es)
  obtain i x where e: "e = (i, x)" by fastforce
  define g where "g = f(i := x)"
  have "g i = x" by (simp add: g_def)
  with Cons.prems Cons.IH [of g] write_msrs_kept [of i es g] show ?case by (simp add: e flip: g_def)
qed simp

lemma example_special_ok: "special_ok (from_kvm_sregs example_sregs)"
  by (rule special_ok_from) (simp add: kvm_sregs_ok_def kvm_segment_ok_def example_sregs_def example_segment_def)

lemma example_host_keeps: "keeps_state example_host example_msrs I"
proof -
  have "regs_kept example_host" "sregs_kept example_host"
    using example_kvm_kept by (auto simp: regs_kept_def sregs_kept_def example_host_def map_prod_def split: prod.splits)
  moreover have "sregs_independent example_host"
    by (auto simp: sregs_independent_def example_host_def example_kvm_def)
  moreover have "msrs_kept example_msrs I"
    using write_msrs_read by (auto simp: msrs_kept_def example_msrs_def comp_def case_prod_unfold)
  moreover have "msrs_independent example_host example_msrs I"
    by (auto simp: msrs_independent_def example_host_def example_msrs_def)
  ultimately show ?thesis by (simp add: keeps_state_def)
qed

section \<open>Properties\<close>

text \<open>
  C40. Decoding a page-set checkpoint is safe on every byte string and returns only valid checkpoints;
  every valid checkpoint has an encoding, which decodes to it, and different valid checkpoints have
  different encodings.  The bytes of a checkpoint are determined by it, except for bit 0 of the type
  of an unusable segment, which decoding clears.
\<close>

theorem checkpoint_format_exact:
  "\<not> is_fault (checkpoint_decode bytes)
   \<and> (checkpoint_ok v \<longleftrightarrow> (\<exists>bs. checkpoint_decode bs = Ok v))
   \<and> (checkpoint_ok v \<longrightarrow> (\<exists>bs. checkpoint_encode v = Ok bs \<and> checkpoint_decode bs = Ok v \<and> length bs = checkpoint_length v))
   \<and> (checkpoint_ok v \<longrightarrow> checkpoint_ok w \<longrightarrow> checkpoint_encode v = checkpoint_encode w \<longrightarrow> v = w)
   \<and> (checkpoint_decode bytes = Ok v \<longleftrightarrow> (\<exists>sregs. kvm_sregs_ok sregs \<and> vc_special v = from_kvm_sregs sregs
        \<and> contents_ok v \<and> bytes = raw_checkpoint v (raw_sregs sregs)))"
  using page_format.decode_total page_format.valid_iff_decodable page_format.encode_injective
    versioned_round_trip [of v] checkpoint_decode_Ok by metis

theorem checkpoint_format_exact_witness:
  "\<exists>bs. checkpoint_encode example_versioned = Ok bs \<and> checkpoint_decode bs = Ok example_versioned
     \<and> length bs = 496 + 4104 + 16"
proof -
  have "checkpoint_ok example_versioned"
    by (simp add: checkpoint_ok_def contents_ok_def pages_ok_def example_versioned_def example_special_ok)
  then show ?thesis
    using checkpoint_format_exact [of "[]" example_versioned example_versioned]
    by (simp add: checkpoint_length_def example_versioned_def)
qed

text \<open>
  C39. A checkpoint survives its byte format.  Take a vCPU whose segment attributes are within the
  widths of their descriptor fields, a policy of at most 256 model-specific registers that the target
  KVM keeps as written and that are not general or special registers under another name, and a target
  whose host lists these registers and whose RAM contains the pages.
  Whatever page set is captured on it, the checkpoint is accepted by the format, encoding and decoding
  give it back, and the target host materialises it.  If the target KVM accepts the registers, the
  restore verifies as exact: the target vCPU has the captured general and special registers and
  model-specific register values, the pages hold the captured bytes, and no other byte of the target
  memory has changed.
\<close>

theorem checkpoint_migrates:
  assumes "regs_kept K0" and "sregs_kept K0" and "memory_wf m"
    and "page_set_capture K0 M0 v policy m as = Ok c"
    and "kvm_get_sregs K0 (vcpu_fd v) = Inr k0" and "special_ok (from_kvm_sregs k0)"
    and "length policy \<le> VERSIONED_PAGE_VCPU_CHECKPOINT_MSR_LIMIT"
    and "keeps_state K M (access_index ` set policy)" and "access_index ` set policy \<subseteq> set (host_indices host)"
    and "memory_wf t" and "\<forall>a \<in> set as. in_region (mem_region t) a PAGE_LEN"
  shows "\<exists>ver bytes c'. from_checkpoint c = Ok ver \<and> checkpoint_encode ver = Ok bytes \<and> checkpoint_decode bytes = Ok ver
    \<and> versioned_materialize ver host = Ok c'
    \<and> (\<forall>w w'. restore_state_snapshot K M (ckpt_vcpu c') w = (Ok (), w') \<longrightarrow>
        (\<exists>cmp t' s. page_set_restore_and_verify K M c' (w, t) = (Ok cmp, (w', t')) \<and> page_set_exact_match cmp
          \<and> capture_register_snapshot K w' = capture_register_snapshot K0 v
          \<and> capture_special_register_snapshot K w' = capture_special_register_snapshot K0 v
          \<and> capture_msr_snapshot M (snapshot_policy (state_msrs (ckpt_vcpu c'))) w' = Ok s
          \<and> set (msr_pairs (snapshot_values s)) = set (msr_pairs (snapshot_values (state_msrs (ckpt_vcpu c))))
          \<and> (\<forall>a \<in> set as. \<forall>i < PAGE_LEN. guest_byte t' (unat a + i) = guest_byte m (unat a + i))
          \<and> (\<forall>x \<ge> unat (region_base (mem_region t)). (\<forall>a \<in> set as. x < unat a \<or> unat a + PAGE_LEN \<le> x)
              \<longrightarrow> guest_byte t' x = guest_byte t x)))"
proof -
  obtain ver where ver: "from_checkpoint c = Ok ver" "checkpoint_ok ver" "vc_pages ver = ckpt_pages c"
    "vc_registers ver = state_registers (ckpt_vcpu c)" "vc_special ver = from_kvm_sregs k0"
    "set (vc_msrs ver) = set (msr_pairs (snapshot_values (state_msrs (ckpt_vcpu c))))"
    "fst ` set (vc_msrs ver) = access_index ` set policy"
    "capture_register_snapshot K0 v = Ok (state_registers (ckpt_vcpu c))"
    and pages: "page_address ` set (ckpt_pages c) = set as"
    "\<forall>p \<in> set (ckpt_pages c). \<forall>i < PAGE_LEN. page_bytes p ! i = guest_byte m (unat (page_address p) + i)"
    using captured_contents [OF assms(3-7)] by metis
  obtain bytes where bytes: "checkpoint_encode ver = Ok bytes" "checkpoint_decode bytes = Ok ver"
    using versioned_round_trip [OF ver(2)] by blast
  have wf: "regs_wf (to_kvm_regs (vc_registers ver))" "sregs_wf k0"
    using capture_registers_wf [OF assms(1) ver(8)] sregs_kept_wf [OF assms(2,5)] ver(4) by simp_all
  obtain c' where c': "versioned_materialize ver host = Ok c'" "ckpt_pages c' = vc_pages ver"
    "vcpu_state_ok (access_index ` set policy) (ckpt_vcpu c')"
    "state_registers (ckpt_vcpu c') = vc_registers ver" "state_special (ckpt_vcpu c') = vc_special ver"
    "msr_pairs (snapshot_values (state_msrs (ckpt_vcpu c'))) = vc_msrs ver"
    using materialized [OF ver(2) _ _ wf ver(5)] assms(9) ver(7) by (metis order_refl)
  have ps: "pages_ok (ckpt_pages c')" using ver(2) c'(2) by (simp add: checkpoint_ok_def contents_ok_def)
  have special: "capture_special_register_snapshot K0 v = Ok (from_kvm_sregs k0)"
    using assms(5) by (simp add: capture_special_register_snapshot_def)
  have inr: "\<forall>p \<in> set (ckpt_pages c'). in_region (mem_region t) (page_address p) PAGE_LEN"
    using assms(11) pages(1) c'(2) ver(3) by auto
  have addr: "(\<forall>p \<in> set (ckpt_pages c'). P (page_address p)) \<longleftrightarrow> (\<forall>a \<in> set as. P a)" for P
    by (simp add: c'(2) ver(3) flip: pages(1))
  have "\<exists>cmp t' s. page_set_restore_and_verify K M c' (w, t) = (Ok cmp, (w', t')) \<and> page_set_exact_match cmp
      \<and> capture_register_snapshot K w' = capture_register_snapshot K0 v
      \<and> capture_special_register_snapshot K w' = capture_special_register_snapshot K0 v
      \<and> capture_msr_snapshot M (snapshot_policy (state_msrs (ckpt_vcpu c'))) w' = Ok s
      \<and> set (msr_pairs (snapshot_values s)) = set (msr_pairs (snapshot_values (state_msrs (ckpt_vcpu c))))
      \<and> (\<forall>a \<in> set as. \<forall>i < PAGE_LEN. guest_byte t' (unat a + i) = guest_byte m (unat a + i))
      \<and> (\<forall>x \<ge> unat (region_base (mem_region t)). (\<forall>a \<in> set as. x < unat a \<or> unat a + PAGE_LEN \<le> x)
          \<longrightarrow> guest_byte t' x = guest_byte t x)"
    if run: "restore_state_snapshot K M (ckpt_vcpu c') w = (Ok (), w')" for w w'
  proof -
    note state = restored_state_captured [OF assms(8) c'(3) run, unfolded capture_state_Ok]
    obtain cmp t' where r: "page_set_restore_and_verify K M c' (w, t) = (Ok cmp, (w', t'))" "page_set_exact_match cmp"
      "\<forall>p \<in> set (ckpt_pages c'). \<forall>i < PAGE_LEN. guest_byte t' (unat (page_address p) + i) = page_bytes p ! i"
      "\<forall>x \<ge> unat (region_base (mem_region t)). (\<forall>p \<in> set (ckpt_pages c').
        x < unat (page_address p) \<or> unat (page_address p) + PAGE_LEN \<le> x) \<longrightarrow> guest_byte t' x = guest_byte t x"
      using page_set_restored [OF assms(8,10) c'(3) ps inr run] by blast
    have "\<forall>p \<in> set (ckpt_pages c'). \<forall>i < PAGE_LEN. guest_byte t' (unat (page_address p) + i) = guest_byte m (unat (page_address p) + i)"
      using r(3) pages(2) c'(2) ver(3) by auto
    then have copied: "\<forall>a \<in> set as. \<forall>i < PAGE_LEN. guest_byte t' (unat a + i) = guest_byte m (unat a + i)" by (rule addr [THEN iffD1])
    have frame: "\<forall>x \<ge> unat (region_base (mem_region t)). (\<forall>a \<in> set as. x < unat a \<or> unat a + PAGE_LEN \<le> x)
        \<longrightarrow> guest_byte t' x = guest_byte t x"
      using r(4) by (simp add: c'(2) ver(3) flip: pages(1))
    show ?thesis
      using r(1,2) copied state special ver c'(4-6) frame
      by (intro exI [of _ cmp] exI [of _ t'] exI [of _ "state_msrs (ckpt_vcpu c')"]) (intro conjI; simp)
  qed
  then show ?thesis using ver(1) bytes c'(1) by (intro exI [of _ ver] exI [of _ bytes] exI [of _ c']) blast
qed

lemma example_restore:
  assumes "snapshot_values (state_msrs s) \<noteq> []" and "length (snapshot_values (state_msrs s)) \<le> VCPU_MSR_CAPACITY"
    and "sregs_wf (encode_snapshot (state_special s))"
  shows "\<exists>w'. restore_state_snapshot example_host example_msrs s w = (Ok (), w')"
  using assms
  by (auto simp: restore_state_snapshot_def restore_special_register_snapshot_def restore_register_snapshot_def
      restore_msr_snapshot_def set_msrs_def prepare_vcpu_msr_write_request_def validate_vcpu_msr_write_completion_def
      example_host_def example_kvm_def example_msrs_def op_then_def split: prod.splits)

theorem checkpoint_migrates_witness:
  "\<exists>c ver bytes c' w' cmp t'.
     page_set_capture example_host example_msrs (example_source example_sregs ucast) example_policy example_boot_ram [0x9000] = Ok c
     \<and> from_checkpoint c = Ok ver \<and> checkpoint_encode ver = Ok bytes \<and> checkpoint_decode bytes = Ok ver
     \<and> versioned_materialize ver \<lparr>host_indices = [0x10, 0x174, 0xc0000102]\<rparr> = Ok c'
     \<and> page_set_restore_and_verify example_host example_msrs c'
         (example_source (example_sregs\<lparr>ks_cr3 := 0x5000\<rparr>) (\<lambda>_. 0), example_boot_ram\<lparr>mem_mapping := \<lparr>ram_len = 0x200000, ram_bytes = (\<lambda>_. 0)\<rparr>\<rparr>)
       = (Ok cmp, (w', t'))
     \<and> page_set_exact_match cmp \<and> guest_byte t' 0x9000 = 0xff \<and> guest_byte t' 0xa000 = 0"
proof -
  let ?v = "example_source example_sregs ucast" and ?w = "example_source (example_sregs\<lparr>ks_cr3 := 0x5000\<rparr>) (\<lambda>_. 0)"
  let ?t = "example_boot_ram\<lparr>mem_mapping := \<lparr>ram_len = 0x200000, ram_bytes = (\<lambda>_. 0)\<rparr>\<rparr>"
  have wf: "memory_wf example_boot_ram" "memory_wf ?t"
    by (simp_all add: example_boot_ram_def memory_wf_def region_wf_def KVM_MEMORY_ALIGNMENT_def)
  have inr: "in_region (mem_region example_boot_ram) 0x9000 PAGE_LEN" "in_region (mem_region ?t) 0x9000 PAGE_LEN"
    by (simp_all add: in_region_def example_boot_ram_def)
  have sregs: "kvm_get_sregs example_host (vcpu_fd ?v) = Inr example_sregs"
    by (simp add: example_host_def example_kvm_def example_source_def)
  define ms where "ms = \<lparr>snapshot_policy = example_policy, snapshot_values =
    [\<lparr>msr_value_index = 0xc0000102, msr_value_value = 0xc0000102\<rparr>, \<lparr>msr_value_index = 0x174, msr_value_value = 0x174\<rparr>]\<rparr>"
  have msrs: "capture_msr_snapshot example_msrs example_policy ?v = Ok ms"
    by (simp add: capture_msr_snapshot_def capture_msrs_def vcpu_msrs_def policy_msr_indices_def prepare_vcpu_msr_request_def
        decode_vcpu_msr_response_def materialize_policy_capture_def value_set_from_policy_def msr_from_capture_def
        example_policy_def example_msrs_def example_source_def ms_def)
  have "\<forall>a \<in> set [0x9000]. in_region (mem_region example_boot_ram) a PAGE_LEN" using inr(1) by simp
  from capture_pages_Ok [OF wf(1), THEN iffD2, OF conjI [OF this refl]]
  obtain ps where pages: "capture_pages example_boot_ram [0x9000] = Ok ps" by blast
  define c where "c = \<lparr>ckpt_pages = ps, ckpt_vcpu =
    \<lparr>state_registers = from_kvm_regs (kvm_regs_default\<lparr>kr_rflags := RFLAGS_RESERVED_BIT\<rparr>), state_special = from_kvm_sregs example_sregs, state_msrs = ms\<rparr>\<rparr>"
  have state: "capture_state_snapshot example_host example_msrs example_policy ?v = Ok (ckpt_vcpu c)"
    using msrs sregs by (simp add: capture_state_Ok c_def capture_special_register_snapshot_def capture_register_snapshot_def
        example_host_def example_kvm_def example_source_def kvm_regs_default_def)
  have cap: "page_set_capture example_host example_msrs ?v example_policy example_boot_ram [0x9000] = Ok c"
    using pages state by (simp add: page_set_capture_def validate_page_addresses_def c_def del: capture_pages.simps)
  have kept: "regs_kept example_host" "sregs_kept example_host"
    using example_host_keeps by (auto simp: keeps_state_def)
  have *: "length example_policy \<le> VERSIONED_PAGE_VCPU_CHECKPOINT_MSR_LIMIT"
    "access_index ` set example_policy \<subseteq> set (host_indices \<lparr>host_indices = [0x10, 0x174, 0xc0000102]\<rparr>)"
    "\<forall>a \<in> set [0x9000]. in_region (mem_region ?t) a PAGE_LEN"
    using inr(2) by (simp_all add: example_policy_def)
  from checkpoint_migrates [OF kept wf(1) cap sregs example_special_ok *(1) example_host_keeps *(2) wf(2) *(3)] obtain ver bytes c' where
    ok: "from_checkpoint c = Ok ver" "checkpoint_encode ver = Ok bytes" "checkpoint_decode bytes = Ok ver"
      "versioned_materialize ver \<lparr>host_indices = [0x10, 0x174, 0xc0000102]\<rparr> = Ok c'"
    and restored: "\<forall>w w'. restore_state_snapshot example_host example_msrs (ckpt_vcpu c') w = (Ok (), w') \<longrightarrow>
      (\<exists>cmp t'. page_set_restore_and_verify example_host example_msrs c' (w, ?t) = (Ok cmp, (w', t')) \<and> page_set_exact_match cmp
        \<and> (\<forall>a \<in> set [0x9000 :: u64]. \<forall>i < PAGE_LEN. guest_byte t' (unat a + i) = guest_byte example_boot_ram (unat a + i))
        \<and> (\<forall>x \<ge> unat (region_base (mem_region ?t)). (\<forall>a \<in> set [0x9000 :: u64]. x < unat a \<or> unat a + PAGE_LEN \<le> x)
            \<longrightarrow> guest_byte t' x = guest_byte ?t x))"
    by (elim exE conjE) (rule that, assumption+, intro allI impI, drule spec, drule spec, drule (1) mp, elim exE conjE,
        rule exI, rule exI, intro conjI)
  have "vc_msrs ver = [(0x174, 0x174), (0xc0000102, 0xc0000102)]" and "vc_special ver = from_kvm_sregs example_sregs"
    using ok(1) by (auto simp: from_checkpoint_def c_def ms_def msr_pairs_def outcome_simps if_Err_Ok Let_def)
  then have "length (snapshot_values (state_msrs (ckpt_vcpu c'))) = 2" "state_special (ckpt_vcpu c') = from_kvm_sregs example_sregs"
    using ok(4) by (auto simp: versioned_materialize_def materialize_msrs_def policy_from_host_Ok value_set_from_policy_Ok
        msr_from_capture_Ok outcome_simps)
  then obtain w' where "restore_state_snapshot example_host example_msrs (ckpt_vcpu c') ?w = (Ok (), w')"
    using example_restore [of "ckpt_vcpu c'" ?w] by fastforce
  with restored obtain cmp t' where r: "page_set_restore_and_verify example_host example_msrs c' (?w, ?t) = (Ok cmp, (w', t'))"
    "page_set_exact_match cmp"
    "\<forall>a \<in> set [0x9000 :: u64]. \<forall>i < PAGE_LEN. guest_byte t' (unat a + i) = guest_byte example_boot_ram (unat a + i)"
    "\<forall>x \<ge> unat (region_base (mem_region ?t)). (\<forall>a \<in> set [0x9000 :: u64]. x < unat a \<or> unat a + PAGE_LEN \<le> x)
       \<longrightarrow> guest_byte t' x = guest_byte ?t x"
    by blast
  have "guest_byte t' 0x9000 = 0xff" using r(3) by (auto simp: example_boot_ram_def guest_byte_def dest!: spec [of _ 0])
  moreover have "guest_byte t' 0xa000 = 0" using r(4) by (auto simp: example_boot_ram_def guest_byte_def dest!: spec [of _ "0xa000"])
  ultimately show ?thesis using cap ok r(1,2) by blast
qed

end
