(* ===== verification/Spec2Isabelle.thy ===== *)
theory Spec2Isabelle
  imports Vm_Exec Mmio_Checkpoint Elf64 Checkpoint_Schema
begin

text \<open>
  A verification library for mini-hypervisor, a KVM-based virtual machine monitor written in Rust.
  File names below are relative to \<open>src/src/\<close>.

  \<^bold>\<open>The program.\<close>  The guest runs under KVM.  When it accesses an I/O port or an unmapped guest
  physical address, KVM returns to the monitor, which decodes the exit from the shared \<open>kvm_run\<close> page,
  dispatches it to an emulated device and resumes the guest.  Devices read requests from guest RAM and
  write their results there.  The guest controls every address, length, register value and queue entry
  that reaches this code.  Around this loop stand the loaders that put a program into guest RAM, the
  code that enters long mode, and the checkpoints that capture, serialise and restore devices, pages
  and vCPU state.

  \<^bold>\<open>Conventions.\<close>  Machine integers are words and wrap where the sources wrap; \<open>usize\<close> is \<^typ>\<open>nat\<close> with
  the 64-bit checks written out.  A fallible function returns an \<open>outcome\<close>: \<open>Ok\<close>, \<open>Err\<close> or \<open>Fault\<close>,
  where \<open>Fault\<close> stands for every panic of the sources (an index out of range, an arithmetic overflow, a
  failed assertion, an unwrapped error).  A method that changes its receiver is an \<open>op\<close>, a function
  from a state to an outcome and a state, so a failure keeps the effects that preceded it.  Error
  messages are kept as their template and the numbers printed.

  \<^bold>\<open>Theories and sources.\<close>
  \<^item> \<open>Prelude\<close>: outcomes and operations, byte lists, little-endian words, checked arithmetic, and the
    simplification collections the other theories use.  \<open>Errors\<close>: \<open>error.rs\<close>.
  \<^item> \<open>Guest_Memory\<close> (\<open>memory.rs\<close>): regions and checked reads and writes of RAM; an access stays in the
    region, and a read returns what was written.
  \<^item> \<open>Virtio_Common\<close>, \<open>Virtio_Rng\<close> (\<open>pci/virtio.rs\<close>): registers, the status machine, and queue
    processing of the entropy device: when a request completes, and what a refused one leaves behind.
  \<^item> \<open>Virtio_Blk\<close>, \<open>Virtio_Blk_Queue\<close>, \<open>Virtio_Blk_Correct\<close> (\<open>pci/virtio_blk.rs\<close>, \<open>virtio_blk_backing.rs\<close>,
    \<open>virtio_blk_indirect.rs\<close>, \<open>virtio_blk_write_readback.rs\<close>, \<open>virtio_blk_file_backed.rs\<close>): registers,
    descriptor chains, and the atomic read and write path: all or nothing, when it completes, what it
    reads and stores, which direct and indirect chains it resolves, and that it agrees with the
    read-only path on reads.
  \<^item> \<open>Virtio_Blk_Checkpoint\<close> (\<open>pci/virtio_blk_checkpoint.rs\<close>), \<open>Mmio_Checkpoint\<close>
    (\<open>mmio/multi_device/virtio_blk_atomic_bus.rs\<close>): device checkpoints with their tokens, their round
    trip, and the two-device restore that changes both devices or none.
  \<^item> \<open>Port_Io\<close> (\<open>pci.rs\<close>, \<open>portio.rs\<close>), \<open>Mmio_Bus\<close> (\<open>mmio.rs\<close>, \<open>mmio/routing.rs\<close>): PCI configuration, the
    port bus, registration and dispatch of memory-mapped devices, and interrupt events and routes.
  \<^item> \<open>Vcpu_Exits\<close> (\<open>vcpu.rs\<close>, \<open>vcpu/*.rs\<close>): decoding of the \<open>kvm_run\<close> page; no content of it makes the
    decoders leave the page.
  \<^item> \<open>Vcpu_Regs\<close> (\<open>vcpu/register_snapshot.rs\<close>, \<open>vcpu/special_register_snapshot.rs\<close>,
    \<open>vcpu/special_register_restore.rs\<close>), \<open>Msr\<close> (\<open>kvm/msr.rs\<close>, \<open>kvm/msr/value_set.rs\<close>, \<open>vcpu/msr_readback.rs\<close>,
    \<open>vcpu/msr_write.rs\<close>): snapshots of registers, exact comparison, and verified restore.
  \<^item> \<open>State_Snapshot\<close> (\<open>state_snapshot.rs\<close>, \<open>vcpu/snapshot_verify.rs\<close>, \<open>state_snapshot/page_set.rs\<close>,
    \<open>state_snapshot/checkpoint.rs\<close>): whole vCPU states and sets of pages; a restore that KVM accepts
    verifies as exact.  A single-page checkpoint behaves as a page set of one page.
  \<^item> \<open>Checkpoint_Schema\<close> (\<open>state_snapshot/page_set/schema_v1/\<close>): the byte format of page-set checkpoints.
    A small calculus of readers relates each decoder to the byte strings it accepts; from it follow
    the exactness of the format and the path from capture over bytes to a verified restore.
  \<^item> \<open>Paging\<close>, \<open>Long_Mode\<close> (\<open>long_mode.rs\<close>): boot layouts and page tables, against a four-level page walk.
  \<^item> \<open>Elf64\<close> (\<open>loader.rs\<close>, \<open>loader/elf64.rs\<close>): the files the parser accepts, the invariant of parsed
    images, and that the page walk presents a loaded image as its file describes it.
  \<^item> \<open>Vm_Exec\<close> (\<open>vmexit.rs\<close>, \<open>execution.rs\<close>): dispatch of every exit and the run loop with its exit budget:
    it returns, never panics, and reports the run it made.

  \<^bold>\<open>Interfaces.\<close>  Locales state what a component relies on: \<open>guest_ram\<close>, \<open>virtio_transport\<close> (what a guest can
  do to a device), \<open>bar_device\<close> (a device on the bus), \<open>snapshot\<close> (a device checkpoint) and \<open>byte_format\<close>
  (encoding and decoding).  Each is interpreted on the definitions of the component that provides it, and the
  properties rest on the interpreted facts.  The KVM calls, the host file system, \<open>mmap\<close> and the
  observer closure are arguments of the definitions.  What is assumed of KVM is stated by name.  Registers
  that were set are read back, \<open>RFLAGS\<close> with its reserved bit set and segments up to padding and bit 0 of
  the type of an unusable one, and what is read has at most one pending interrupt (\<open>regs_kept\<close>,
  \<open>sregs_kept\<close>); setting general registers leaves the special ones alone (\<open>sregs_independent\<close>).  For
  model-specific registers the laws \<open>msrs_kept\<close> and \<open>msrs_independent\<close> are about a set of registers, since
  neither holds of all of them.  Example hosts satisfy these laws.

  \<^bold>\<open>Overlapping buffers.\<close>  A guest may place the data buffer, the status byte and the used ring of a
  request on top of each other, and the sources accept that.  The statements about requests therefore
  say of each byte of RAM which write it comes from; only their second halves speak of drivers that keep
  the ranges apart (\<open>targets_apart\<close>).

  \<^bold>\<open>Bounds.\<close>  No definition needs fuel that the sources do not have: descriptor chains are bounded by
  the counts the code checks, the run loop by its exit budget, page sets by 8 pages and checkpoints by
  256 model-specific registers, and every other recursion is on a list of the sources or on its length.
  Only a KVM call that is interrupted again and again can keep the run loop from returning; that is a
  value of the model, and the termination property says it is the only such case.

  \<^bold>\<open>Not modelled.\<close>
  \<^item> The ioctl wrappers, eventfds, timers and threads of \<open>kvm/\<close>: input and output of the host kernel.
  \<^item> The guest programs and the harnesses that run them (\<open>task\<close>, \<open>syscall\<close>, \<open>copyin.rs\<close>, \<open>copyout.rs\<close>,
    \<open>privilege.rs\<close>, \<open>address_space.rs\<close>, \<open>interrupt.rs\<close>, the fixtures of \<open>portio\<close> and \<open>mmio\<close>, the replay
    demonstrations of \<open>state_snapshot\<close>, \<open>bin/\<close>): they assemble machine code and compare what it prints
    under KVM, so a model of them would be a model of the processor.
  \<^item> The checkpoints that add interrupt controllers, LAPICs or a second vCPU, and their byte formats:
    they combine the modelled parts with blocks that KVM defines and the monitor does not interpret.
    The container for a vCPU state alone (\<open>schema_v1/vcpu_state.rs\<close>) reuses the modelled encoders.
  \<^item> Text output (\<open>Display\<close>, reports of the command line) and command-line parsing.
\<close>

end
